(* ===== verification/Prelude.thy ===== *)
theory Prelude
  imports Main "HOL-Library.Word"
begin

unbundle bit_operations_syntax

text \<open>
  Shared vocabulary of the development: machine integers, the three ways a Rust call
  can end (\<open>Ok\<close>, \<open>Err\<close>, a panic), slices with Rust's bounds checks, and the
  little-endian byte views of integers used by every wire format of the program.
  The target is \<^verbatim>\<open>x86_64-unknown-linux-gnu\<close> (the only one the node crate compiles
  for), so \<open>usize\<close> has 64 bits and \<open>to_ne_bytes\<close>/\<open>from_ne_bytes\<close> are little-endian.
\<close>

section \<open>Machine types\<close>

type_synonym byte = "8 word"
type_synonym u32 = "32 word"
type_synonym i32 = "32 word"
type_synonym u64 = "64 word"
type_synonym i64 = "64 word"

text \<open>
  Signed values share the representation of unsigned ones (an \<open>as\<close> cast between them is
  the identity on the bits); \<open>sint\<close> reads them. \<open>f32\<close> and \<open>f64\<close> are carried as bit
  patterns, which is all the codecs observe of them.
\<close>

named_theorems codec_simps \<open>evaluation of slices, reads and writes on byte lists\<close>
named_theorems panic_simps \<open>when an operation panics\<close>
named_theorems ok_simps \<open>when an operation returns a value\<close>

section \<open>Results of a Rust call\<close>

datatype ('a, 'e) result = Ok 'a | Err 'e | Panic

text \<open>The \<open>?\<close> operator: go on with the value, hand an error or a panic to the caller.\<close>

definition rbind :: "('a, 'e) result \<Rightarrow> ('a \<Rightarrow> ('b, 'e) result) \<Rightarrow> ('b, 'e) result" where
  "rbind m f = (case m of Ok x \<Rightarrow> f x | Err e \<Rightarrow> Err e | Panic \<Rightarrow> Panic)"

definition map_err :: "('e \<Rightarrow> 'f) \<Rightarrow> ('a, 'e) result \<Rightarrow> ('a, 'f) result" where
  "map_err g m = (case m of Ok x \<Rightarrow> Ok x | Err e \<Rightarrow> Err (g e) | Panic \<Rightarrow> Panic)"

definition ok_or :: "'a option \<Rightarrow> 'e \<Rightarrow> ('a, 'e) result" where
  "ok_or x e = (case x of Some v \<Rightarrow> Ok v | None \<Rightarrow> Err e)"

lemma rbind_simps [simp]:
  "rbind (Ok x) f = f x"
  "rbind (Err e) f = Err e"
  "rbind Panic f = Panic"
  by (simp_all add: rbind_def)

lemma map_err_simps [simp]:
  "map_err g (Ok x) = Ok x"
  "map_err g (Err e) = Err (g e)"
  "map_err g Panic = Panic"
  by (simp_all add: map_err_def)

lemma ok_or_simps [simp]:
  "ok_or (Some v) e = Ok v"
  "ok_or None e = Err e"
  by (simp_all add: ok_or_def)

lemma rbind_cong [fundef_cong]:
  assumes "m = m'" and "\<And>x. m' = Ok x \<Longrightarrow> f x = f' x"
  shows "rbind m f = rbind m' f'"
  using assms by (cases m') simp_all

lemma rbind_eq_Ok_iff [ok_simps]:
  "rbind m f = Ok y \<longleftrightarrow> (\<exists>x. m = Ok x \<and> f x = Ok y)"
  by (cases m) simp_all

lemma rbind_OkE [elim]:
  assumes "rbind m f = Ok y"
  obtains x where "m = Ok x" and "f x = Ok y"
  using assms by (cases m) simp_all

lemma rbind_assoc: "rbind (rbind m f) g = rbind m (\<lambda>x. rbind (f x) g)"
  by (cases m) simp_all

lemma rbind_eq_Panic_iff [panic_simps]:
  "rbind m f = Panic \<longleftrightarrow> m = Panic \<or> (\<exists>x. m = Ok x \<and> f x = Panic)"
  by (cases m) simp_all

lemma rbind_eq_Err_iff:
  "rbind m f = Err e \<longleftrightarrow> m = Err e \<or> (\<exists>x. m = Ok x \<and> f x = Err e)"
  by (cases m) simp_all

lemma map_err_eq_Panic_iff [panic_simps]: "map_err g m = Panic \<longleftrightarrow> m = Panic"
  by (cases m) simp_all

lemma ok_or_not_Panic [simp]: "ok_or x e \<noteq> Panic"
  by (cases x) simp_all

lemma ok_or_eq_Ok_iff [ok_simps]: "ok_or x e = Ok v \<longleftrightarrow> x = Some v"
  by (cases x) simp_all

lemma map_err_eq_Ok_iff [ok_simps]: "map_err g m = Ok x \<longleftrightarrow> m = Ok x"
  by (cases m) simp_all

section \<open>Checked arithmetic\<close>

definition usize_limit :: nat where
  "usize_limit = 2 ^ 64"

lemma usize_limit_eq: "usize_limit = 18446744073709551616"
  by (simp add: usize_limit_def)

definition checked_add_usize :: "nat \<Rightarrow> nat \<Rightarrow> nat option" where
  "checked_add_usize a b = (if a + b < usize_limit then Some (a + b) else None)"

definition checked_mul_usize :: "nat \<Rightarrow> nat \<Rightarrow> nat option" where
  "checked_mul_usize a b = (if a * b < usize_limit then Some (a * b) else None)"

definition saturating_add_usize :: "nat \<Rightarrow> nat \<Rightarrow> nat" where
  "saturating_add_usize a b = min (a + b) (usize_limit - 1)"

definition checked_add_u32 :: "u32 \<Rightarrow> u32 \<Rightarrow> u32 option" where
  "checked_add_u32 a b = (if unat a + unat b < 2 ^ 32 then Some (a + b) else None)"

lemma unat_u32_less [simp]: "unat (w :: u32) < 4294967296"
  using unsigned_less [of w] by simp

lemma unat_u64_less [simp]: "unat (w :: u64) < 18446744073709551616"
  using unsigned_less [of w] by simp

lemma unat_byte_less [simp]: "unat (w :: byte) < 256"
  using unsigned_less [of w] by simp

lemma sint_small:
  assumes "unat (v :: i32) < 2 ^ 31"
  shows "sint v = int (unat v)"
proof -
  have "uint v < 2 ^ 31"
    using assms of_nat_less_iff [of "unat v" "2 ^ 31", where 'a = int] by simp
  then have "signed_take_bit (LENGTH(32) - 1) (uint v) = uint v"
    by (intro signed_take_bit_int_eq_self) (simp_all, rule order.trans [of _ 0], simp_all)
  then show ?thesis
    by (simp add: sint_uint)
qed

section \<open>Slices\<close>

text \<open>
  \<open>&data[a..b]\<close>, \<open>&data[a..]\<close> and \<open>data[a..a + n].copy_from_slice(src)\<close> panic out of
  range. A write returns the buffer it leaves behind.
\<close>

definition subslice :: "'a list \<Rightarrow> nat \<Rightarrow> nat \<Rightarrow> ('a list, 'e) result" where
  "subslice xs a b =
     (if a \<le> b \<and> b \<le> length xs then Ok (take (b - a) (drop a xs)) else Panic)"

definition slice_from :: "'a list \<Rightarrow> nat \<Rightarrow> ('a list, 'e) result" where
  "slice_from xs a = (if a \<le> length xs then Ok (drop a xs) else Panic)"

definition index_at :: "'a list \<Rightarrow> nat \<Rightarrow> ('a, 'e) result" where
  "index_at xs i = (if i < length xs then Ok (xs ! i) else Panic)"

definition copy_into :: "'a list \<Rightarrow> nat \<Rightarrow> 'a list \<Rightarrow> ('a list, 'e) result" where
  "copy_into xs a src =
     (if a + length src \<le> length xs
      then Ok (take a xs @ src @ drop (a + length src) xs) else Panic)"

text \<open>A call that is handed \<open>&mut data[a..]\<close> and leaves a new content there.\<close>

definition write_from :: "'a list \<Rightarrow> nat \<Rightarrow> ('a list \<Rightarrow> ('a list \<times> 'b, 'e) result)
    \<Rightarrow> ('a list \<times> 'b, 'e) result" where
  "write_from xs a f =
     rbind (slice_from xs a) (\<lambda>tail. rbind (f tail) (\<lambda>(tail', r). Ok (take a xs @ tail', r)))"

definition write_tail :: "'a list \<Rightarrow> nat \<Rightarrow> ('a list \<Rightarrow> ('a list, 'e) result) \<Rightarrow> ('a list, 'e) result" where
  "write_tail xs a f =
     rbind (slice_from xs a) (\<lambda>tail. rbind (f tail) (\<lambda>tail'. Ok (take a xs @ tail')))"

lemma subslice_Ok:
  "a \<le> b \<Longrightarrow> b \<le> length xs \<Longrightarrow> subslice xs a b = Ok (take (b - a) (drop a xs))"
  by (simp add: subslice_def)

lemma subslice_eq_Panic_iff [panic_simps]:
  "subslice xs a b = Panic \<longleftrightarrow> \<not> (a \<le> b \<and> b \<le> length xs)"
  by (simp add: subslice_def)

lemma subslice_eq_Ok_iff [ok_simps]:
  "subslice xs a b = Ok ys \<longleftrightarrow> a \<le> b \<and> b \<le> length xs \<and> ys = take (b - a) (drop a xs)"
  by (auto simp: subslice_def)

lemma subslice_not_Err [simp]: "subslice xs a b \<noteq> Err e"
  by (simp add: subslice_def)

lemma subslice_length: "subslice xs a b = Ok ys \<Longrightarrow> length ys = b - a"
  by (auto simp: subslice_def split: if_splits)

lemma slice_from_Ok [codec_simps]: "a \<le> length xs \<Longrightarrow> slice_from xs a = Ok (drop a xs)"
  by (simp add: slice_from_def)

lemma slice_from_eq_Panic_iff [panic_simps]: "slice_from xs a = Panic \<longleftrightarrow> length xs < a"
  by (auto simp: slice_from_def)

lemma slice_from_eq_Ok_iff [ok_simps]:
  "slice_from xs a = Ok ys \<longleftrightarrow> a \<le> length xs \<and> ys = drop a xs"
  by (auto simp: slice_from_def)

lemma copy_into_eq_Panic_iff [panic_simps]:
  "copy_into xs a src = Panic \<longleftrightarrow> length xs < a + length src"
  by (auto simp: copy_into_def)

lemma index_at_eq_Panic_iff [panic_simps]: "index_at xs i = Panic \<longleftrightarrow> length xs \<le> i"
  by (auto simp: index_at_def)

lemma index_at_eq_Ok_iff [ok_simps]: "index_at xs i = Ok x \<longleftrightarrow> i < length xs \<and> x = xs ! i"
  by (auto simp: index_at_def)

lemma copy_into_length: "copy_into xs a src = Ok ys \<Longrightarrow> length ys = length xs"
  by (auto simp: copy_into_def split: if_splits)

lemma copy_into_start [codec_simps]:
  "length src \<le> length xs \<Longrightarrow> copy_into xs 0 src = Ok (src @ drop (length src) xs)"
  by (simp add: copy_into_def)

lemma copy_into_skip [codec_simps]:
  assumes "length p \<le> k"
  shows "copy_into (p @ xs) k src = rbind (copy_into xs (k - length p) src) (\<lambda>ys. Ok (p @ ys))"
  using assms by (auto simp: copy_into_def)

lemma copy_into_Cons [codec_simps]:
  assumes "0 < k"
  shows "copy_into (x # xs) k src = rbind (copy_into xs (k - 1) src) (\<lambda>ys. Ok (x # ys))"
  using copy_into_skip [of "[x]" k xs src] assms by simp

lemma write_from_eq [codec_simps]:
  assumes "a \<le> length xs"
  shows "write_from xs a f = rbind (f (drop a xs)) (\<lambda>(t, r). Ok (take a xs @ t, r))"
  using assms by (simp add: write_from_def slice_from_def)

lemma write_tail_eq [codec_simps]:
  assumes "a \<le> length xs"
  shows "write_tail xs a f = rbind (f (drop a xs)) (\<lambda>t. Ok (take a xs @ t))"
  using assms by (simp add: write_tail_def slice_from_def)

section \<open>Little-endian integers\<close>

fun to_le :: "nat \<Rightarrow> nat \<Rightarrow> byte list" where
  "to_le 0 n = []"
| "to_le (Suc k) n = of_nat n # to_le k (n div 256)"

fun from_le :: "byte list \<Rightarrow> nat" where
  "from_le [] = 0"
| "from_le (b # bs) = unat b + 256 * from_le bs"

lemma length_to_le [simp]: "length (to_le k n) = k"
  by (induction k arbitrary: n) simp_all

lemma from_le_to_le: "from_le (to_le k n) = n mod 256 ^ k"
proof (induction k arbitrary: n)
  case 0
  then show ?case by simp
next
  case (Suc k)
  have "from_le (to_le (Suc k) n) = n mod 256 + 256 * (n div 256 mod 256 ^ k)"
    by (simp add: Suc unat_of_nat)
  also have "\<dots> = n mod (256 * 256 ^ k)"
    by (simp add: mod_mult2_eq)
  finally show ?case by simp
qed

lemma from_le_less: "from_le bs < 256 ^ length bs"
proof (induction bs)
  case Nil
  then show ?case by simp
next
  case (Cons b bs)
  have "unat b + 256 * from_le bs < 256 * (from_le bs + 1)"
    using unat_byte_less [of b] by (simp add: algebra_simps)
  also have "\<dots> \<le> 256 * 256 ^ length bs"
    using Cons by simp
  finally show ?case by simp
qed

lemma to_le_from_le: "to_le (length bs) (from_le bs) = bs"
proof (induction bs)
  case Nil
  then show ?case by simp
next
  case (Cons b bs)
  have "(of_nat 256 :: byte) = 0"
    by simp
  then have "(of_nat (unat b + 256 * from_le bs) :: byte) = of_nat (unat b)"
    by (simp only: of_nat_add of_nat_mult mult_zero_left add_0_right)
  moreover have "(unat b + 256 * from_le bs) div 256 = from_le bs"
    by simp
  ultimately show ?case using Cons by simp
qed

text \<open>\<open>u32::to_ne_bytes\<close>, \<open>u32::from_ne_bytes\<close> and their 64-bit versions.\<close>

definition u32_bytes :: "u32 \<Rightarrow> byte list" where
  "u32_bytes w = to_le 4 (unat w)"

definition u32_of_bytes :: "byte list \<Rightarrow> u32" where
  "u32_of_bytes bs = of_nat (from_le bs)"

definition u64_bytes :: "u64 \<Rightarrow> byte list" where
  "u64_bytes w = to_le 8 (unat w)"

definition u64_of_bytes :: "byte list \<Rightarrow> u64" where
  "u64_of_bytes bs = of_nat (from_le bs)"

lemma length_u32_bytes [simp]: "length (u32_bytes w) = 4"
  by (simp add: u32_bytes_def)

lemma length_u64_bytes [simp]: "length (u64_bytes w) = 8"
  by (simp add: u64_bytes_def)

lemma u32_of_bytes_bytes [simp]: "u32_of_bytes (u32_bytes w) = w"
  by (simp add: u32_of_bytes_def u32_bytes_def from_le_to_le)

lemma u64_of_bytes_bytes [simp]: "u64_of_bytes (u64_bytes w) = w"
  by (simp add: u64_of_bytes_def u64_bytes_def from_le_to_le)

lemma u32_bytes_of_bytes: "length bs = 4 \<Longrightarrow> u32_bytes (u32_of_bytes bs) = bs"
  using from_le_less [of bs] to_le_from_le [of bs]
  by (simp add: u32_bytes_def u32_of_bytes_def unat_of_nat)

lemma u64_bytes_of_bytes: "length bs = 8 \<Longrightarrow> u64_bytes (u64_of_bytes bs) = bs"
  using from_le_less [of bs] to_le_from_le [of bs]
  by (simp add: u64_bytes_def u64_of_bytes_def unat_of_nat)

text \<open>\<open>u32::from_ne_bytes(data[i..i + 4].try_into().unwrap())\<close>\<close>

definition u32_at :: "byte list \<Rightarrow> nat \<Rightarrow> (u32, 'e) result" where
  "u32_at data i = rbind (subslice data i (i + 4)) (\<lambda>bs. Ok (u32_of_bytes bs))"

definition u64_at :: "byte list \<Rightarrow> nat \<Rightarrow> (u64, 'e) result" where
  "u64_at data i = rbind (subslice data i (i + 8)) (\<lambda>bs. Ok (u64_of_bytes bs))"

lemma u32_at_eq_Panic_iff [panic_simps]: "u32_at data i = Panic \<longleftrightarrow> length data < i + 4"
  by (auto simp: u32_at_def subslice_def)

lemma u32_at_eq_Ok_iff [ok_simps]: "u32_at data i = Ok w \<longleftrightarrow>
    i + 4 \<le> length data \<and> w = u32_of_bytes (take 4 (drop i data))"
  by (auto simp: u32_at_def subslice_def)

lemma u64_at_eq_Panic_iff [panic_simps]: "u64_at data i = Panic \<longleftrightarrow> length data < i + 8"
  by (auto simp: u64_at_def subslice_def)

lemma u64_at_eq_Ok_iff [ok_simps]: "u64_at data i = Ok w \<longleftrightarrow>
    i + 8 \<le> length data \<and> w = u64_of_bytes (take 8 (drop i data))"
  by (auto simp: u64_at_def subslice_def)

lemma u32_at_not_Err [simp]: "u32_at data i \<noteq> Err e"
  by (simp add: u32_at_def subslice_def)

lemma u64_at_not_Err [simp]: "u64_at data i \<noteq> Err e"
  by (simp add: u64_at_def subslice_def)

lemma u32_at_here [codec_simps]: "u32_at (u32_bytes w @ xs) 0 = Ok w"
  by (simp add: u32_at_def subslice_def)

lemma u64_at_here [codec_simps]: "u64_at (u64_bytes w @ xs) 0 = Ok w"
  by (simp add: u64_at_def subslice_def)

lemma u32_at_skip [codec_simps]:
  "length p \<le> i \<Longrightarrow> u32_at (p @ xs) i = u32_at xs (i - length p)"
  by (auto simp: u32_at_def subslice_def)

lemma u64_at_skip [codec_simps]:
  "length p \<le> i \<Longrightarrow> u64_at (p @ xs) i = u64_at xs (i - length p)"
  by (auto simp: u64_at_def subslice_def)

lemma subslice_skip [codec_simps]:
  "length p \<le> a \<Longrightarrow> a \<le> b \<Longrightarrow> subslice (p @ xs) a b = subslice xs (a - length p) (b - length p)"
  by (auto simp: subslice_def)

lemma subslice_here [codec_simps]: "n = length p \<Longrightarrow> subslice (p @ xs) 0 n = Ok p"
  by (simp add: subslice_def)

end
