(* ===== verification/Pod_Types.thy ===== *)
theory Pod_Types
  imports Prelude
begin

text \<open>
  The data of the POD layer: \<^verbatim>\<open>spa/src/pod/types.rs\<close>, the error type of
  \<^verbatim>\<open>spa/src/pod/mod.rs\<close>, and the conversions that the derive macro \<open>EnumU32\<close>
  (\<^verbatim>\<open>macros/src/derive_enum_u32.rs\<close>) writes for every \<open>repr(u32)\<close> enum.
\<close>

section \<open>Enums with a \<open>u32\<close> discriminant\<close>

text \<open>
  The macro walks the variants in order: an explicit discriminant is taken, an implicit one
  is the previous value plus one, the first implicit one is 0. \<open>try_from\<close> is a chain of
  \<open>if value == d\<close> tests in the same order, and \<open>as u32\<close> follows the same numbering.
\<close>

fun enum_values :: "u32 option \<Rightarrow> ('a \<times> u32 option) list \<Rightarrow> ('a \<times> u32) list" where
  "enum_values prev [] = []"
| "enum_values prev ((v, d) # vs) =
     (let value = (case d of Some x \<Rightarrow> x
                   | None \<Rightarrow> (case prev of Some l \<Rightarrow> l + 1 | None \<Rightarrow> 0))
      in (v, value) # enum_values (Some value) vs)"

definition enum_into_u32 :: "('a \<times> u32 option) list \<Rightarrow> 'a \<Rightarrow> u32" where
  "enum_into_u32 vs v = the (map_of (enum_values None vs) v)"

definition enum_try_from :: "('a \<times> u32 option) list \<Rightarrow> u32 \<Rightarrow> 'a option" where
  "enum_try_from vs x = map_of (map (\<lambda>(v, d). (d, v)) (enum_values None vs)) x"

lemma map_of_swap:
  assumes "distinct (map snd xs)" and "map_of xs v = Some d"
  shows "map_of (map (\<lambda>(v, d). (d, v)) xs) d = Some v"
  using assms
proof (induction xs)
  case Nil
  then show ?case by simp
next
  case (Cons x xs)
  then show ?case
    by (cases x) (force dest: map_of_SomeD split: if_splits)
qed

lemma map_of_swap_rev:
  assumes "distinct (map fst xs)" and "map_of (map (\<lambda>(v, d). (d, v)) xs) d = Some v"
  shows "map_of xs v = Some d"
  using assms
proof (induction xs)
  case Nil
  then show ?case by simp
next
  case (Cons x xs)
  then show ?case
    by (cases x) (force dest: map_of_SomeD split: if_splits)
qed

text \<open>
  The contract a POD codec relies on where it carries an identifier: \<open>Into<u32>\<close> followed by
  \<open>TryFrom<u32>\<close> gives the value back.
\<close>

locale u32_conv =
  fixes into :: "'t \<Rightarrow> u32" and try_from :: "u32 \<Rightarrow> 't option"
  assumes try_from_into: "try_from (into v) = Some v"
begin

lemma into_inj: "into v = into w \<longleftrightarrow> v = w"
  by (metis option.inject try_from_into)

end

text \<open>An enum that lists every variant once, with distinct discriminants, satisfies it.\<close>

locale enum_u32 =
  fixes variants :: "('a \<times> u32 option) list"
  assumes all_variants: "v \<in> fst ` set (enum_values None variants)"
    and distinct_variants: "distinct (map fst (enum_values None variants))"
    and distinct_values: "distinct (map snd (enum_values None variants))"
begin

lemma map_of_into: "map_of (enum_values None variants) v = Some (enum_into_u32 variants v)"
  using all_variants [of v] by (auto simp: enum_into_u32_def dom_map_of_conv_image_fst
      map_of_eq_None_iff intro: option.collapse [symmetric])

lemma try_from_sound: "enum_try_from variants x = Some v \<Longrightarrow> enum_into_u32 variants v = x"
  using map_of_swap_rev [OF distinct_variants] map_of_into [of v]
  by (auto simp: enum_try_from_def)

end

sublocale enum_u32 \<subseteq> u32_conv "enum_into_u32 variants" "enum_try_from variants"
  by unfold_locales (simp add: enum_try_from_def map_of_swap [OF distinct_values map_of_into])

interpretation u32_id: u32_conv "\<lambda>x. x" Some
  by unfold_locales simp

section \<open>SPA types\<close>

datatype (plugins only: code size) pod_type =
    Type_Start | Type_None | Type_Bool | Type_Id | Type_Int | Type_Long | Type_Float
  | Type_Double | Type_String | Type_Bytes | Type_Rectangle | Type_Fraction | Type_Bitmap
  | Type_Array | Type_Struct | Type_Object | Type_Sequence | Type_Pointer | Type_Fd
  | Type_Choice | Type_Pod

definition type_variants :: "(pod_type \<times> u32 option) list" where
  "type_variants =
     [(Type_Start, Some 0), (Type_None, None), (Type_Bool, None), (Type_Id, None),
      (Type_Int, None), (Type_Long, None), (Type_Float, None), (Type_Double, None),
      (Type_String, None), (Type_Bytes, None), (Type_Rectangle, None), (Type_Fraction, None),
      (Type_Bitmap, None), (Type_Array, None), (Type_Struct, None), (Type_Object, None),
      (Type_Sequence, None), (Type_Pointer, None), (Type_Fd, None), (Type_Choice, None),
      (Type_Pod, None)]"

abbreviation type_u32 :: "pod_type \<Rightarrow> u32" where
  "type_u32 \<equiv> enum_into_u32 type_variants"

abbreviation type_try_from :: "u32 \<Rightarrow> pod_type option" where
  "type_try_from \<equiv> enum_try_from type_variants"

definition is_primitive :: "pod_type \<Rightarrow> bool" where
  "is_primitive t \<longleftrightarrow>
     (case t of Type_None \<Rightarrow> True | Type_Bool \<Rightarrow> True | Type_Id \<Rightarrow> True | Type_Int \<Rightarrow> True
      | Type_Long \<Rightarrow> True | Type_Float \<Rightarrow> True | Type_Double \<Rightarrow> True | Type_Rectangle \<Rightarrow> True
      | Type_Fraction \<Rightarrow> True | Type_Fd \<Rightarrow> True | _ \<Rightarrow> False)"

lemma type_values:
  "enum_values None type_variants =
     [(Type_Start, 0), (Type_None, 1), (Type_Bool, 2), (Type_Id, 3), (Type_Int, 4),
      (Type_Long, 5), (Type_Float, 6), (Type_Double, 7), (Type_String, 8), (Type_Bytes, 9),
      (Type_Rectangle, 10), (Type_Fraction, 11), (Type_Bitmap, 12), (Type_Array, 13),
      (Type_Struct, 14), (Type_Object, 15), (Type_Sequence, 16), (Type_Pointer, 17),
      (Type_Fd, 18), (Type_Choice, 19), (Type_Pod, 20)]"
  by (simp add: type_variants_def)

interpretation pod_type: enum_u32 type_variants
proof
  show "v \<in> fst ` set (enum_values None type_variants)" for v
    by (cases v) (simp_all add: type_values)
qed (simp_all add: type_values)

lemma type_u32_table [simp]:
  "type_u32 Type_None = 1" "type_u32 Type_Bool = 2" "type_u32 Type_Id = 3"
  "type_u32 Type_Int = 4" "type_u32 Type_Long = 5" "type_u32 Type_Float = 6"
  "type_u32 Type_Double = 7" "type_u32 Type_String = 8" "type_u32 Type_Bytes = 9"
  "type_u32 Type_Rectangle = 10" "type_u32 Type_Fraction = 11" "type_u32 Type_Array = 13"
  "type_u32 Type_Struct = 14" "type_u32 Type_Object = 15" "type_u32 Type_Pointer = 17"
  "type_u32 Type_Fd = 18" "type_u32 Type_Choice = 19"
  by (simp_all add: enum_into_u32_def type_values)

lemma type_try_from_into [simp]: "type_try_from (type_u32 t) = Some t"
  by (rule pod_type.try_from_into)

lemma type_try_from_table [simp]:
  "type_try_from 1 = Some Type_None" "type_try_from 13 = Some Type_Array"
  "type_try_from 14 = Some Type_Struct" "type_try_from 15 = Some Type_Object"
  "type_try_from 19 = Some Type_Choice"
  by (simp_all add: enum_try_from_def type_values)

datatype (plugins only: code size) object_type =
    OT_Start | OT_PropInfo | OT_Props | OT_Format | OT_ParamBuffers | OT_ParamMeta | OT_ParamIo
  | OT_ParamProfile | OT_ParamPortConfig | OT_ParamRoute | OT_Profiler | OT_ParamLatency
  | OT_ParamProcessLatency | OT_ParamTag

definition object_type_variants :: "(object_type \<times> u32 option) list" where
  "object_type_variants =
     [(OT_Start, Some 0x40000), (OT_PropInfo, None), (OT_Props, None), (OT_Format, None),
      (OT_ParamBuffers, None), (OT_ParamMeta, None), (OT_ParamIo, None),
      (OT_ParamProfile, None), (OT_ParamPortConfig, None), (OT_ParamRoute, None),
      (OT_Profiler, None), (OT_ParamLatency, None), (OT_ParamProcessLatency, None),
      (OT_ParamTag, None)]"

abbreviation object_type_u32 :: "object_type \<Rightarrow> u32" where
  "object_type_u32 \<equiv> enum_into_u32 object_type_variants"

abbreviation object_type_try_from :: "u32 \<Rightarrow> object_type option" where
  "object_type_try_from \<equiv> enum_try_from object_type_variants"

lemma object_type_values:
  "enum_values None object_type_variants =
     [(OT_Start, 0x40000), (OT_PropInfo, 0x40001), (OT_Props, 0x40002), (OT_Format, 0x40003),
      (OT_ParamBuffers, 0x40004), (OT_ParamMeta, 0x40005), (OT_ParamIo, 0x40006),
      (OT_ParamProfile, 0x40007), (OT_ParamPortConfig, 0x40008), (OT_ParamRoute, 0x40009),
      (OT_Profiler, 0x4000a), (OT_ParamLatency, 0x4000b), (OT_ParamProcessLatency, 0x4000c),
      (OT_ParamTag, 0x4000d)]"
  by (simp add: object_type_variants_def)

interpretation object_type: enum_u32 object_type_variants
proof
  show "v \<in> fst ` set (enum_values None object_type_variants)" for v
    by (cases v) (simp_all add: object_type_values)
qed (simp_all add: object_type_values)

datatype 't id = Id 't

record pointer =
  ptr_type :: pod_type
  ptr_addr :: u64

datatype fd = Fd i64

record rectangle =
  width :: u32
  height :: u32

record fraction =
  num :: u32
  denom :: u32

datatype 'a choice =
    Choice_None 'a
  | Choice_Range 'a 'a 'a
  | Choice_Step 'a 'a 'a 'a
  | Choice_Enum 'a "'a list"
  | Choice_Flags 'a 'a

record ('k, 'v) property =
  key :: 'k
  flags :: u32
  "value" :: 'v

text \<open>
  The named flag constants of \<open>PropertyFlags\<close>. The type itself is written by the
  \<^verbatim>\<open>bitflags\<close> crate; its \<open>from_bits\<close> is a parameter of every definition that calls it.
\<close>

definition property_flag_consts :: "u32 list" where
  "property_flag_consts = [0x1, 0x2, 0x4, 0x8, 0xF]"

section \<open>Errors\<close>

text \<open>
  \<open>Error::Invalid\<close> carries a formatted message. The model keeps the message as a datatype
  with one constructor per message of the source and the values that are formatted into it.
\<close>

datatype (plugins only: code size) subject =
    S_primitive | S_string | S_byte_array | S_pointer | S_array | S_choice | S_choice_range
  | S_choice_step | S_choice_flags | S_property | S_struct | S_object | S_object_property

datatype (plugins only: code size) wire_msg =
    Trailing_bytes_in_ClientNode_struct nat
  | Trailing_node_info_fields
  | Trailing_port_info_fields
  | Node_info_must_be_Struct_or_None pod_type
  | Port_info_must_be_Struct_or_None pod_type
  | Parameter_POD_exceeds_limit
  | Port_parameter_exceeds_limit
  | Port_parameter_must_be_Object_or_None pod_type
  | Unsupported_port_parameter u32
  | Client_allocated_buffers
  | Unsupported_port_IO u32
  | Not_a_node_command_object
  | Unsupported_node_command u32
  | Not_a_Format_object
  | Data_has_zero_max_size
  | Data_range_overflows_u32
  | Invalid_direction i32
  | Negative_count
  | Count_exceeds_limit nat nat
  | Negative_fd_index i64
  | Partial_region_clear
  | Region_range_overflows_u32

datatype (plugins only: code size) pod_msg =
    Pod_size_overflow
  | Could_not_decode_pod_type
  | Not_enough_data subject
  | Mismatched_pod_size nat nat
  | Type_is_not u32 pod_type
  | Could_not_decode_Id u32
  | String_has_no_null_terminator
  | Could_not_decode_type
  | Body_smaller_than_header pod_type
  | Invalid_array_child_size
  | Invalid_array_type "pod_type option"
  | Partial_child pod_type
  | Invalid_child_type u32
  | Invalid_none_choice_size
  | Enum_choice_has_no_default
  | Invalid_choice_type u32
  | Invalid_property_key
  | Invalid_property_flags
  | Decoded_pod_exceeds_available_data
  | Parser_position_overflow
  | Child_size_is_zero pod_type
  | Could_not_parse_child_type
  | Invalid_child_type_in_choice
  | Could_not_decode_object_type
  | Could_not_decode_id
  | Unexpected_object_type object_type
  | Could_not_decode_key
  | Could_not_decode_flags
  | Wire_msg wire_msg

datatype (plugins only: code size) pod_error = Invalid pod_msg | NoSpace

type_synonym 'a pod_result = "('a, pod_error) result"

end
