(* ===== verification/Utf8.thy ===== *)
theory Utf8
  imports Prelude
begin

text \<open>
  The part of Rust's standard library the string codec calls:
  \<open>String::from_utf8_lossy\<close>. A Rust string is its UTF-8 byte list; the scan below is the
  one of \<open>core::str::lossy::Utf8Chunks\<close>, which reads one scalar value at a time and cuts an
  ill-formed sequence after its maximal well-formed prefix.
\<close>

definition safe_get :: "byte list \<Rightarrow> nat \<Rightarrow> byte" where
  "safe_get bs i = (if i < length bs then bs ! i else 0)"

definition is_cont :: "byte \<Rightarrow> bool" where
  "is_cont b \<longleftrightarrow> 0x80 \<le> b \<and> b \<le> 0xBF"

definition utf8_char_width :: "byte \<Rightarrow> nat" where
  "utf8_char_width b =
     (if b < 0x80 then 1 else if 0xC2 \<le> b \<and> b \<le> 0xDF then 2
      else if 0xE0 \<le> b \<and> b \<le> 0xEF then 3 else if 0xF0 \<le> b \<and> b \<le> 0xF4 then 4 else 0)"

definition second_ok3 :: "byte \<Rightarrow> byte \<Rightarrow> bool" where
  "second_ok3 b c \<longleftrightarrow>
     (if b = 0xE0 then 0xA0 \<le> c \<and> c \<le> 0xBF
      else if b = 0xED then 0x80 \<le> c \<and> c \<le> 0x9F else is_cont c)"

definition second_ok4 :: "byte \<Rightarrow> byte \<Rightarrow> bool" where
  "second_ok4 b c \<longleftrightarrow>
     (if b = 0xF0 then 0x90 \<le> c \<and> c \<le> 0xBF
      else if b = 0xF4 then 0x80 \<le> c \<and> c \<le> 0x8F else is_cont c)"

text \<open>Bytes taken by the next chunk and whether they are a scalar value.\<close>

definition utf8_step :: "byte list \<Rightarrow> nat \<times> bool" where
  "utf8_step bs =
     (let b = safe_get bs 0; w = utf8_char_width b in
      if w = 1 then (1, True)
      else if w = 2 then (if is_cont (safe_get bs 1) then (2, True) else (1, False))
      else if w = 3 then
        (if \<not> second_ok3 b (safe_get bs 1) then (1, False)
         else if \<not> is_cont (safe_get bs 2) then (2, False) else (3, True))
      else if w = 4 then
        (if \<not> second_ok4 b (safe_get bs 1) then (1, False)
         else if \<not> is_cont (safe_get bs 2) then (2, False)
         else if \<not> is_cont (safe_get bs 3) then (3, False) else (4, True))
      else (1, False))"

lemma utf8_step_pos: "0 < fst (utf8_step bs)"
  by (simp add: utf8_step_def Let_def)

lemma utf8_step_progress: "(n, ok) = utf8_step bs \<Longrightarrow> 0 < n"
  using utf8_step_pos [of bs] by (metis fst_conv)

lemma safe_get_cont: "is_cont (safe_get bs i) \<Longrightarrow> i < length bs"
  by (simp add: safe_get_def is_cont_def split: if_splits)

lemma second_ok_cont: "second_ok3 b c \<Longrightarrow> is_cont c" "second_ok4 b c \<Longrightarrow> is_cont c"
  by (auto simp: second_ok3_def second_ok4_def is_cont_def word_le_nat_alt split: if_splits)

lemma utf8_step_le:
  assumes "bs \<noteq> []"
  shows "fst (utf8_step bs) \<le> length bs"
proof -
  have "2 \<le> length bs" if "is_cont (safe_get bs 1)"
    using safe_get_cont [OF that] by simp
  moreover have "3 \<le> length bs" if "is_cont (safe_get bs 2)"
    using safe_get_cont [OF that] by simp
  moreover have "4 \<le> length bs" if "is_cont (safe_get bs 3)"
    using safe_get_cont [OF that] by simp
  moreover have "1 \<le> length bs"
    using assms by (simp add: Suc_le_eq)
  ultimately show ?thesis
    by (simp add: utf8_step_def Let_def second_ok_cont)
qed

function from_utf8_lossy :: "byte list \<Rightarrow> byte list" where
  "from_utf8_lossy bs =
     (if bs = [] then []
      else (case utf8_step bs of (n, ok) \<Rightarrow>
        (if ok then take n bs else [0xEF, 0xBF, 0xBD]) @ from_utf8_lossy (drop n bs)))"
  by pat_completeness auto
termination
  by (relation "measure length") (auto dest: utf8_step_progress)

declare from_utf8_lossy.simps [simp del]

function valid_utf8 :: "byte list \<Rightarrow> bool" where
  "valid_utf8 bs =
     (if bs = [] then True
      else (case utf8_step bs of (n, ok) \<Rightarrow> if ok then valid_utf8 (drop n bs) else False))"
  by pat_completeness auto
termination
  by (relation "measure length") (auto dest: utf8_step_progress)

declare valid_utf8.simps [simp del]

lemma valid_utf8_Nil [simp]: "valid_utf8 []"
  by (simp add: valid_utf8.simps)

lemma from_utf8_lossy_Nil [simp]: "from_utf8_lossy [] = []"
  by (simp add: from_utf8_lossy.simps)

text \<open>On well-formed UTF-8 nothing is replaced.\<close>

lemma from_utf8_lossy_valid: "valid_utf8 bs \<Longrightarrow> from_utf8_lossy bs = bs"
proof (induction bs rule: valid_utf8.induct)
  case (1 bs)
  obtain n ok where st: "utf8_step bs = (n, ok)"
    by fastforce
  show ?case
  proof (cases "bs = []")
    case True
    then show ?thesis by simp
  next
    case False
    with "1.prems" st have "ok" and rest: "valid_utf8 (drop n bs)"
      by (auto simp: valid_utf8.simps [of bs] split: if_splits)
    from "1.IH" [OF False st [symmetric] \<open>ok\<close> rest]
    have "from_utf8_lossy (drop n bs) = drop n bs"
      by simp
    with False st \<open>ok\<close> show ?thesis
      by (simp add: from_utf8_lossy.simps [of bs])
  qed
qed

text \<open>The scan only looks at the bytes it consumes.\<close>

lemma safe_get_append [simp]: "i < length p \<Longrightarrow> safe_get (p @ q) i = safe_get p i"
  by (simp add: safe_get_def nth_append)

lemma utf8_step_cong:
  assumes "\<And>i. i < fst (utf8_step bs) \<Longrightarrow> safe_get cs i = safe_get bs i"
    and "snd (utf8_step bs)"
  shows "utf8_step cs = utf8_step bs"
proof -
  have s0: "safe_get cs 0 = safe_get bs 0"
    using assms(1) utf8_step_pos by blast
  consider (w1) "utf8_char_width (safe_get bs 0) = 1"
    | (w2) "utf8_char_width (safe_get bs 0) = 2" | (w3) "utf8_char_width (safe_get bs 0) = 3"
    | (w4) "utf8_char_width (safe_get bs 0) = 4"
    using assms(2) by (auto simp: utf8_step_def Let_def split: if_splits)
  then show ?thesis
  proof cases
    case w1
    then show ?thesis by (simp add: utf8_step_def Let_def s0)
  next
    case w2
    have st: "is_cont (safe_get bs 1)"
      using assms(2) w2 by (simp add: utf8_step_def Let_def split: if_splits)
    with w2 have "fst (utf8_step bs) = 2"
      by (simp add: utf8_step_def Let_def)
    then have "safe_get cs 1 = safe_get bs 1"
      by (intro assms(1)) simp
    with w2 st show ?thesis by (simp add: utf8_step_def Let_def s0)
  next
    case w3
    have st: "second_ok3 (safe_get bs 0) (safe_get bs 1)" "is_cont (safe_get bs 2)"
      using assms(2) w3 by (simp_all add: utf8_step_def Let_def split: if_splits)
    with w3 have "fst (utf8_step bs) = 3"
      by (simp add: utf8_step_def Let_def)
    then have "safe_get cs 1 = safe_get bs 1" "safe_get cs 2 = safe_get bs 2"
      by (simp_all add: assms(1))
    with w3 st show ?thesis by (simp add: utf8_step_def Let_def s0)
  next
    case w4
    have st: "second_ok4 (safe_get bs 0) (safe_get bs 1)" "is_cont (safe_get bs 2)"
      "is_cont (safe_get bs 3)"
      using assms(2) w4 by (simp_all add: utf8_step_def Let_def split: if_splits)
    with w4 have "fst (utf8_step bs) = 4"
      by (simp add: utf8_step_def Let_def)
    then have "safe_get cs 1 = safe_get bs 1" "safe_get cs 2 = safe_get bs 2"
      "safe_get cs 3 = safe_get bs 3"
      by (simp_all add: assms(1))
    with w4 st show ?thesis by (simp add: utf8_step_def Let_def s0)
  qed
qed

lemma utf8_step_prefix:
  assumes "utf8_step bs = (n, True)" and "bs \<noteq> []"
  shows "utf8_step (take n bs @ q) = (n, True)"
proof -
  have "safe_get (take n bs @ q) i = safe_get bs i" if "i < n" for i
    using that utf8_step_le [OF assms(2)] assms(1) by (simp add: safe_get_def nth_append)
  then show ?thesis
    using utf8_step_cong [of bs "take n bs @ q"] assms(1) by simp
qed

lemma valid_utf8_append:
  assumes "utf8_step p = (length p, True)" and "p \<noteq> []" and "valid_utf8 q"
  shows "valid_utf8 (p @ q)"
  using assms utf8_step_prefix [OF assms(1,2), of q]
  by (simp add: valid_utf8.simps [of "p @ q"])

lemma utf8_step_replacement: "utf8_step [0xEF, 0xBF, 0xBD] = (3, True)"
  by (simp add: utf8_step_def safe_get_def utf8_char_width_def second_ok3_def is_cont_def)

text \<open>Whatever the input, the result is a well-formed string: the invariant of \<open>String\<close>.\<close>

lemma valid_from_utf8_lossy: "valid_utf8 (from_utf8_lossy bs)"
proof (induction bs rule: from_utf8_lossy.induct)
  case (1 bs)
  obtain n ok where st: "utf8_step bs = (n, ok)"
    by fastforce
  show ?case
  proof (cases "bs = []")
    case True
    then show ?thesis by simp
  next
    case False
    have IH: "valid_utf8 (from_utf8_lossy (drop n bs))"
      using "1.IH" [OF False st [symmetric]] by simp
    let ?p = "if ok then take n bs else [0xEF, 0xBF, 0xBD]"
    have "utf8_step ?p = (length ?p, True)"
      using st False utf8_step_le [of bs] utf8_step_prefix [of bs n "[]"] utf8_step_replacement
      by auto
    moreover have "?p \<noteq> []"
      using st False utf8_step_pos [of bs] by auto
    ultimately have "valid_utf8 (?p @ from_utf8_lossy (drop n bs))"
      using IH by (rule valid_utf8_append)
    with False st show ?thesis
      by (simp add: from_utf8_lossy.simps [of bs])
  qed
qed

end
