(* ===== verification/Pod_Codec.thy ===== *)
theory Pod_Codec
  imports Pod_Types Utf8
begin

text \<open>
  The codec traits of \<^verbatim>\<open>spa/src/pod/mod.rs\<close>. A trait implementation is a record of its
  methods (a dictionary), so a generic \<open>impl<T: Primitive> Pod for T\<close> is a function from
  dictionaries to dictionaries. \<open>encode\<close> returns the buffer it leaves behind together with the
  byte count; the content of a buffer after an error is not modelled, since every caller drops it.
  The locales \<open>primitive_codec\<close> and \<open>pod_codec\<close> are the contracts of the two traits; every
  instance of the source is an interpretation.
\<close>

section \<open>The traits\<close>

record 'a primitive =
  prim_type :: pod_type
  prim_size :: nat
  encode_body :: "'a \<Rightarrow> byte list \<Rightarrow> byte list pod_result"
  decode_body :: "byte list \<Rightarrow> 'a pod_result"

record ('a, 'd) pod =
  encode :: "'a \<Rightarrow> byte list \<Rightarrow> (byte list \<times> nat) pod_result"
  decode :: "byte list \<Rightarrow> ('d \<times> nat) pod_result"

definition pad_8 :: "nat \<Rightarrow> nat" where
  "pad_8 n = (if n mod 8 \<noteq> 0 then 8 - n mod 8 else 0)"

definition pod_total_size :: "nat \<Rightarrow> nat pod_result" where
  "pod_total_size body_size =
     ok_or (Option.bind (checked_add_usize 8 body_size)
              (\<lambda>size. checked_add_usize size (pad_8 body_size)))
       (Invalid Pod_size_overflow)"

lemma pad_8_less: "pad_8 n < 8"
  by (simp add: pad_8_def)

lemma pad_8_dvd: "8 dvd n + pad_8 n"
  unfolding pad_8_def by presburger

lemma pad_8_dvd_8: "8 dvd 8 + n + pad_8 n"
  using pad_8_dvd [of n] by (simp add: add.assoc)

lemma pad_8_0 [simp]: "pad_8 0 = 0" "pad_8 4 = 4" "pad_8 8 = 0" "pad_8 16 = 0"
  by (simp_all add: pad_8_def)

lemma pad_8_add_8 [simp]: "pad_8 (8 + n) = pad_8 n" "pad_8 (16 + n) = pad_8 n"
proof -
  have "(16 + n) mod 8 = n mod 8"
    by presburger
  then show "pad_8 (8 + n) = pad_8 n" "pad_8 (16 + n) = pad_8 n"
    by (simp_all add: pad_8_def)
qed

lemma pad_8_dvd_0: "8 dvd n \<Longrightarrow> pad_8 n = 0"
  by (simp add: pad_8_def)

lemma pod_total_size_u32 [simp]:
  "pod_total_size (unat (w :: u32)) = Ok (8 + unat w + pad_8 (unat w))"
proof -
  have "8 + unat w + pad_8 (unat w) < usize_limit"
    using unat_u32_less [of w] pad_8_less [of "unat w"] unfolding usize_limit_eq by linarith
  then show ?thesis
    by (simp add: pod_total_size_def checked_add_usize_def)
qed

lemma unat_of_nat_u32: "n < 2 ^ 32 \<Longrightarrow> unat (of_nat n :: u32) = n"
  by (simp add: unat_of_nat)

section \<open>Raw pods\<close>

record raw_pod =
  rp_size :: nat
  rp_type :: pod_type
  rp_data :: "byte list"

definition raw_pod_wrap :: "byte list \<Rightarrow> raw_pod pod_result" where
  "raw_pod_wrap data =
     (if length data < 8 then Err NoSpace
      else rbind (u32_at data 0) (\<lambda>internal_size.
        rbind (pod_total_size (unat internal_size)) (\<lambda>size.
        if size > length data then Err NoSpace
        else rbind (u32_at data 4) (\<lambda>t.
          rbind (ok_or (type_try_from t) (Invalid Could_not_decode_pod_type)) (\<lambda>typ.
          rbind (subslice data 0 size) (\<lambda>d.
          Ok \<lparr>rp_size = size, rp_type = typ, rp_data = d\<rparr>))))))"

text \<open>\<open>RawPodOwned::wrap\<close> truncates the vector it owns instead of borrowing a slice.\<close>

definition raw_pod_owned_wrap :: "byte list \<Rightarrow> raw_pod pod_result" where
  "raw_pod_owned_wrap data =
     (if length data < 8 then Err NoSpace
      else rbind (u32_at data 0) (\<lambda>internal_size.
        rbind (pod_total_size (unat internal_size)) (\<lambda>size.
        if size > length data then Err NoSpace
        else rbind (u32_at data 4) (\<lambda>t.
          rbind (ok_or (type_try_from t) (Invalid Could_not_decode_pod_type)) (\<lambda>typ.
          Ok \<lparr>rp_size = size, rp_type = typ, rp_data = take size data\<rparr>)))))"

definition raw_pod_encode :: "raw_pod \<Rightarrow> byte list \<Rightarrow> (byte list \<times> nat) pod_result" where
  "raw_pod_encode v data =
     (if length data < rp_size v then Err NoSpace
      else rbind (subslice (rp_data v) 0 (rp_size v)) (\<lambda>src.
        rbind (copy_into data 0 src) (\<lambda>data'. Ok (data', rp_size v))))"

definition raw_pod_decode :: "byte list \<Rightarrow> (raw_pod \<times> nat) pod_result" where
  "raw_pod_decode data = rbind (raw_pod_owned_wrap data) (\<lambda>res. Ok (res, rp_size res))"

definition pod_raw :: "(raw_pod, raw_pod) pod" where
  "pod_raw = \<lparr>encode = raw_pod_encode, decode = raw_pod_decode\<rparr>"

section \<open>Primitive values\<close>

definition primitive_encode ::
    "'a primitive \<Rightarrow> 'a \<Rightarrow> byte list \<Rightarrow> (byte list \<times> nat) pod_result" where
  "primitive_encode P v data =
     (let size = prim_size P; padding = pad_8 size in
      if length data < 8 + size + padding then Err NoSpace
      else rbind (copy_into data 0 (u32_bytes (of_nat size))) (\<lambda>data.
        rbind (copy_into data 4 (u32_bytes (type_u32 (prim_type P)))) (\<lambda>data.
        rbind (write_tail data 8 (encode_body P v)) (\<lambda>data.
        rbind (if padding > 0 then copy_into data (8 + size) (replicate padding 0) else Ok data)
          (\<lambda>data. Ok (data, 8 + size + padding))))))"

definition primitive_decode :: "'a primitive \<Rightarrow> byte list \<Rightarrow> ('a \<times> nat) pod_result" where
  "primitive_decode P data =
     (if length data < 8 then Err (Invalid (Not_enough_data S_primitive))
      else rbind (u32_at data 0) (\<lambda>sz. let size = unat sz in
        if size \<noteq> prim_size P then Err (Invalid (Mismatched_pod_size size (prim_size P)))
        else rbind (u32_at data 4) (\<lambda>t.
          if t \<noteq> type_u32 (prim_type P) then Err (Invalid (Type_is_not t (prim_type P)))
          else rbind (pod_total_size size) (\<lambda>total_size.
            if length data < total_size then Err (Invalid (Not_enough_data S_primitive))
            else rbind (subslice data 8 (8 + size)) (\<lambda>body.
              rbind (decode_body P body) (\<lambda>val. Ok (val, total_size)))))))"

definition pod_prim :: "'a primitive \<Rightarrow> ('a, 'a) pod" where
  "pod_prim P = \<lparr>encode = primitive_encode P, decode = primitive_decode P\<rparr>"

definition prim_unit :: "unit primitive" where
  "prim_unit = \<lparr>prim_type = Type_None, prim_size = 0,
     encode_body = (\<lambda>_ data. Ok data), decode_body = (\<lambda>_. Ok ())\<rparr>"

definition prim_bool :: "bool primitive" where
  "prim_bool = \<lparr>prim_type = Type_Bool, prim_size = 4,
     encode_body = (\<lambda>v data. copy_into data 0 (u32_bytes (if v then 1 else 0))),
     decode_body = (\<lambda>data. rbind (u32_at data 0) (\<lambda>x. Ok (x \<noteq> 0)))\<rparr>"

definition prim_id :: "('t \<Rightarrow> u32) \<Rightarrow> (u32 \<Rightarrow> 't option) \<Rightarrow> 't id primitive" where
  "prim_id into try_from = \<lparr>prim_type = Type_Id, prim_size = 4,
     encode_body = (\<lambda>v data. case v of Id x \<Rightarrow> copy_into data 0 (u32_bytes (into x))),
     decode_body = (\<lambda>data. rbind (u32_at data 0) (\<lambda>raw_val.
       case try_from raw_val of Some val \<Rightarrow> Ok (Id val)
       | None \<Rightarrow> Err (Invalid (Could_not_decode_Id raw_val))))\<rparr>"

definition prim_i32 :: "i32 primitive" where
  "prim_i32 = \<lparr>prim_type = Type_Int, prim_size = 4,
     encode_body = (\<lambda>v data. copy_into data 0 (u32_bytes v)),
     decode_body = (\<lambda>data. u32_at data 0)\<rparr>"

definition prim_i64 :: "i64 primitive" where
  "prim_i64 = \<lparr>prim_type = Type_Long, prim_size = 8,
     encode_body = (\<lambda>v data. copy_into data 0 (u64_bytes v)),
     decode_body = (\<lambda>data. u64_at data 0)\<rparr>"

definition prim_f32 :: "u32 primitive" where
  "prim_f32 = \<lparr>prim_type = Type_Float, prim_size = 4,
     encode_body = (\<lambda>v data. copy_into data 0 (u32_bytes v)),
     decode_body = (\<lambda>data. u32_at data 0)\<rparr>"

definition prim_f64 :: "u64 primitive" where
  "prim_f64 = \<lparr>prim_type = Type_Double, prim_size = 8,
     encode_body = (\<lambda>v data. copy_into data 0 (u64_bytes v)),
     decode_body = (\<lambda>data. u64_at data 0)\<rparr>"

definition prim_fd :: "fd primitive" where
  "prim_fd = \<lparr>prim_type = Type_Fd, prim_size = 8,
     encode_body = (\<lambda>v data. case v of Fd x \<Rightarrow> copy_into data 0 (u64_bytes x)),
     decode_body = (\<lambda>data. rbind (u64_at data 0) (\<lambda>val. Ok (Fd val)))\<rparr>"

definition prim_rectangle :: "rectangle primitive" where
  "prim_rectangle = \<lparr>prim_type = Type_Rectangle, prim_size = 8,
     encode_body = (\<lambda>v data. rbind (copy_into data 0 (u32_bytes (width v))) (\<lambda>data.
       copy_into data 4 (u32_bytes (height v)))),
     decode_body = (\<lambda>data. rbind (u32_at data 0) (\<lambda>w. rbind (u32_at data 4) (\<lambda>h.
       Ok \<lparr>width = w, height = h\<rparr>)))\<rparr>"

definition prim_fraction :: "fraction primitive" where
  "prim_fraction = \<lparr>prim_type = Type_Fraction, prim_size = 8,
     encode_body = (\<lambda>v data. rbind (copy_into data 0 (u32_bytes (num v))) (\<lambda>data.
       copy_into data 4 (u32_bytes (denom v)))),
     decode_body = (\<lambda>data. rbind (u32_at data 0) (\<lambda>n. rbind (u32_at data 4) (\<lambda>d.
       Ok \<lparr>num = n, denom = d\<rparr>)))\<rparr>"

section \<open>Contracts\<close>

text \<open>
  \<open>Primitive\<close>: a body has the announced size, is written at the front of the space it is
  given, and is read back; a body of the right size never makes the decoder panic.
\<close>

locale primitive_codec =
  fixes P :: "'a primitive" and body :: "'a \<Rightarrow> byte list"
  assumes size_le: "prim_size P \<le> 8"
    and length_body: "length (body v) = prim_size P"
    and encode_body_eq:
      "prim_size P \<le> length data \<Longrightarrow> encode_body P v data = Ok (body v @ drop (prim_size P) data)"
    and decode_body_body: "decode_body P (body v) = Ok v"
    and decode_body_total: "length bs = prim_size P \<Longrightarrow> decode_body P bs \<noteq> Panic"

text \<open>
  \<open>round_trip C v w n\<close>: \<open>n\<close> bytes are enough and necessary to encode \<open>v\<close>; the encoding
  leaves the rest of the buffer alone, and the decoder reads \<open>w\<close> back from it.
\<close>

definition round_trip :: "('a, 'd) pod \<Rightarrow> 'a \<Rightarrow> 'd \<Rightarrow> nat \<Rightarrow> bool" where
  "round_trip C v w n \<longleftrightarrow>
     (\<forall>data. if n \<le> length data
        then \<exists>data' k. encode C v data = Ok (data', k) \<and> k \<le> n \<and> length data' = length data \<and>
          drop k data' = drop k data \<and> decode C data' = Ok (w, k)
        else encode C v data = Err NoSpace)"

text \<open>
  \<open>Pod\<close>: \<open>img v out\<close> says that \<open>out\<close> is a wire image of \<open>v\<close>. Encoding leaves some image
  at the front of the buffer and reports its length, or answers \<open>NoSpace\<close> when the buffer is
  shorter than the space the source asks for; decoding an image followed by anything gives the
  value back and consumes exactly the image; decoding arbitrary bytes never panics and never
  claims more bytes than there are.
\<close>

locale pod_codec =
  fixes C :: "('a, 'd) pod"
    and img :: "'a \<Rightarrow> byte list \<Rightarrow> bool"
    and need :: "'a \<Rightarrow> nat"
    and fits :: "'a \<Rightarrow> bool"
    and view :: "'a \<Rightarrow> 'd"
  assumes encode_ok: "fits v \<Longrightarrow> need v \<le> length data \<Longrightarrow>
      \<exists>out. img v out \<and> encode C v data = Ok (out @ drop (length out) data, length out)"
    and encode_no_space: "length data < need v \<Longrightarrow> encode C v data = Err NoSpace"
    and img_size: "img v out \<Longrightarrow> 8 \<le> length out \<and> length out \<le> need v \<and> 8 dvd length out"
    and decode_img: "fits v \<Longrightarrow> img v out \<Longrightarrow> decode C (out @ rest) = Ok (view v, length out)"
    and decode_total: "decode C data \<noteq> Panic"
    and decode_consumes: "decode C data = Ok (x, n) \<Longrightarrow> 8 \<le> n \<and> n \<le> length data"
begin

lemma roundtrip:
  assumes "fits v" and "need v \<le> length data" and "encode C v data = Ok (data', n)"
  shows "decode C data' = Ok (view v, n)"
    and "length data' = length data"
    and "drop n data' = drop n data"
proof -
  obtain out where out: "img v out" "encode C v data = Ok (out @ drop (length out) data, length out)"
    using encode_ok [OF assms(1,2)] by blast
  then have eqs: "data' = out @ drop (length out) data" "n = length out"
    using assms(3) by auto
  show "decode C data' = Ok (view v, n)"
    using eqs decode_img [OF assms(1) out(1)] by simp
  show "length data' = length data" "drop n data' = drop n data"
    using eqs img_size [OF out(1)] assms(2) by auto
qed

lemma round_trip_fits:
  assumes "fits v"
  shows "round_trip C v (view v) (need v)"
proof -
  have "\<exists>data' k. encode C v data = Ok (data', k) \<and> k \<le> need v \<and> length data' = length data \<and>
      drop k data' = drop k data \<and> decode C data' = Ok (view v, k)" if "need v \<le> length data" for data
  proof -
    from encode_ok [OF assms that] obtain out
      where out: "img v out" "encode C v data = Ok (out @ drop (length out) data, length out)"
      by blast
    with roundtrip [OF assms that out(2)] img_size [OF out(1)] show ?thesis
      by blast
  qed
  then show ?thesis
    by (simp add: round_trip_def encode_no_space not_le)
qed

lemma encode_no_panic: "fits v \<Longrightarrow> encode C v data \<noteq> Panic"
  by (metis encode_no_space encode_ok not_le result.distinct(3,5))

end

end
