(* ===== verification/Pod_Primitives.thy ===== *)
theory Pod_Primitives
  imports Pod_Codec
begin

text \<open>
  The contract of the fixed-size values: every \<open>Primitive\<close> is a \<open>Pod\<close> (the blanket
  \<open>impl<T: Primitive> Pod for T\<close>), and the ten primitive types of the source satisfy the
  \<open>Primitive\<close> contract. Raw pods satisfy the \<open>Pod\<close> contract on the values \<open>wrap\<close> produces.
\<close>

section \<open>Primitives are pods\<close>

definition prim_image :: "'a primitive \<Rightarrow> ('a \<Rightarrow> byte list) \<Rightarrow> 'a \<Rightarrow> byte list" where
  "prim_image P body v =
     u32_bytes (of_nat (prim_size P)) @ u32_bytes (type_u32 (prim_type P)) @ body v @
     replicate (pad_8 (prim_size P)) 0"

context primitive_codec
begin

lemma unat_prim_size [simp]: "unat (of_nat (prim_size P) :: u32) = prim_size P"
  using size_le by (intro unat_of_nat_u32) simp

lemma pod_total_prim_size [simp]:
  "pod_total_size (prim_size P) = Ok (8 + prim_size P + pad_8 (prim_size P))"
  using pod_total_size_u32 [of "of_nat (prim_size P)"] by simp

lemma length_prim_image: "length (prim_image P body v) = 8 + prim_size P + pad_8 (prim_size P)"
  by (simp add: prim_image_def length_body)

lemma primitive_encode_eq:
  assumes "8 + prim_size P + pad_8 (prim_size P) \<le> length data"
  shows "primitive_encode P v data =
    Ok (prim_image P body v @ drop (length (prim_image P body v)) data,
        length (prim_image P body v))"
proof (cases "pad_8 (prim_size P) = 0")
  case True
  with assms show ?thesis
    by (simp add: primitive_encode_def Let_def codec_simps encode_body_eq length_prim_image)
      (simp add: prim_image_def add.commute)
next
  case False
  with assms show ?thesis
    by (simp add: primitive_encode_def Let_def codec_simps encode_body_eq length_body length_prim_image)
      (simp add: prim_image_def add_ac)
qed

lemma primitive_decode_image:
  "primitive_decode P (prim_image P body v @ rest) = Ok (v, length (prim_image P body v))"
  by (simp add: primitive_decode_def Let_def length_prim_image)
    (simp add: prim_image_def codec_simps length_body decode_body_body)

lemma primitive_decode_total: "primitive_decode P data \<noteq> Panic"
  using decode_body_total
  by (auto simp: primitive_decode_def Let_def panic_simps ok_simps split: if_splits)

lemma primitive_decode_consumes:
  "primitive_decode P data = Ok (x, n) \<Longrightarrow> 8 \<le> n \<and> n \<le> length data"
  by (auto simp: primitive_decode_def Let_def ok_simps split: if_splits)

end

sublocale primitive_codec \<subseteq> as_pod: pod_codec "pod_prim P" "\<lambda>v out. out = prim_image P body v"
  "\<lambda>_. 8 + prim_size P + pad_8 (prim_size P)" "\<lambda>_. True" "\<lambda>v. v"
proof (unfold_locales, goal_cases)
  case (1 v data)
  then show ?case by (auto simp: pod_prim_def primitive_encode_eq)
next
  case (2 data v)
  then show ?case by (simp add: pod_prim_def primitive_encode_def Let_def)
next
  case (3 v out)
  then show ?case by (simp add: length_prim_image pad_8_dvd add.assoc)
next
  case (4 v out rest)
  then show ?case by (simp add: pod_prim_def primitive_decode_image)
next
  case (5 data)
  then show ?case by (simp add: pod_prim_def primitive_decode_total)
next
  case (6 data x n)
  then show ?case using primitive_decode_consumes by (simp add: pod_prim_def)
qed

section \<open>The primitive types\<close>

lemma copy_into_front [codec_simps]:
  "n = length src \<Longrightarrow> n \<le> length xs \<Longrightarrow> copy_into xs 0 src = Ok (src @ drop n xs)"
  by (simp add: copy_into_start)

lemma u32_at_bytes [simp]: "u32_at (u32_bytes w) 0 = Ok w"
  using u32_at_here [of w "[]"] by simp

lemma u64_at_bytes [simp]: "u64_at (u64_bytes w) 0 = Ok w"
  using u64_at_here [of w "[]"] by simp

interpretation unit: primitive_codec prim_unit "\<lambda>_. []"
  by unfold_locales (simp_all add: prim_unit_def)

interpretation bool: primitive_codec prim_bool "\<lambda>v. u32_bytes (if v then 1 else 0)"
  by unfold_locales
    (auto simp: prim_bool_def codec_simps panic_simps)

sublocale u32_conv \<subseteq> id: primitive_codec "prim_id into try_from"
  "\<lambda>v. case v of Id x \<Rightarrow> u32_bytes (into x)"
  by unfold_locales
    (auto simp: prim_id_def codec_simps panic_simps try_from_into
      split: id.splits option.splits)

interpretation i32: primitive_codec prim_i32 u32_bytes
  by unfold_locales (auto simp: prim_i32_def codec_simps panic_simps)

interpretation i64: primitive_codec prim_i64 u64_bytes
  by unfold_locales (auto simp: prim_i64_def codec_simps panic_simps)

interpretation f32: primitive_codec prim_f32 u32_bytes
  by unfold_locales (auto simp: prim_f32_def codec_simps panic_simps)

interpretation f64: primitive_codec prim_f64 u64_bytes
  by unfold_locales (auto simp: prim_f64_def codec_simps panic_simps)

interpretation fd: primitive_codec prim_fd "\<lambda>v. case v of Fd x \<Rightarrow> u64_bytes x"
  by unfold_locales
    (auto simp: prim_fd_def codec_simps panic_simps split: fd.splits)

interpretation rectangle: primitive_codec prim_rectangle
  "\<lambda>v. u32_bytes (width v) @ u32_bytes (height v)"
  by unfold_locales
    (auto simp: prim_rectangle_def codec_simps panic_simps)

interpretation fraction: primitive_codec prim_fraction
  "\<lambda>v. u32_bytes (num v) @ u32_bytes (denom v)"
  by unfold_locales
    (auto simp: prim_fraction_def codec_simps panic_simps)

end
