(* ===== verification/Pod_Values.thy ===== *)
theory Pod_Values
  imports Pod_Primitives
begin

text \<open>
  The variable-size pods of \<^verbatim>\<open>spa/src/pod/mod.rs\<close>: raw pods, strings, byte arrays,
  pointers, arrays, choices, properties and optional values, each with its proof of the
  \<open>Pod\<close> contract.
\<close>

section \<open>Raw pods\<close>

text \<open>The values \<open>wrap\<close> can return: the header agrees with the recorded size and type.\<close>

definition raw_pod_wf :: "raw_pod \<Rightarrow> bool" where
  "raw_pod_wf v \<longleftrightarrow> raw_pod_owned_wrap (rp_data v) = Ok v"

lemma raw_wrap_agree: "raw_pod_wrap data = raw_pod_owned_wrap data"
proof -
  have "subslice data 0 n = (Ok (take n data) :: byte list pod_result)" if "n \<le> length data" for n
    using that by (simp add: subslice_def)
  then show ?thesis
    by (auto simp: raw_pod_wrap_def raw_pod_owned_wrap_def intro!: rbind_cong)
qed

lemma raw_owned_wrap_total: "raw_pod_owned_wrap data \<noteq> Panic"
  by (auto simp: raw_pod_owned_wrap_def panic_simps split: if_splits)

lemma raw_owned_wrap_Ok:
  assumes "raw_pod_owned_wrap data = Ok v"
  shows "rp_data v = take (rp_size v) data" and "rp_size v \<le> length data" and "8 \<le> rp_size v"
    and "8 dvd rp_size v" and "u32_at data 0 = (Ok sz :: u32 pod_result) \<Longrightarrow> rp_size v = 8 + unat sz + pad_8 (unat sz)"
  using assms pad_8_dvd [of "unat (u32_of_bytes (take 4 data))"]
  by (auto simp: raw_pod_owned_wrap_def ok_simps add.assoc split: if_splits)

lemma take_u32_at:
  "i + 4 \<le> n \<Longrightarrow> n \<le> length data \<Longrightarrow> u32_at (take n data @ rest) i = u32_at data i"
  by (simp add: u32_at_def subslice_def drop_take min_absorb1)

lemma raw_owned_wrap_prefix:
  assumes "raw_pod_owned_wrap data = Ok v"
  shows "raw_pod_owned_wrap (rp_data v @ rest) = Ok v"
proof -
  note v = raw_owned_wrap_Ok [OF assms]
  have "u32_at (rp_data v @ rest) i = (u32_at data i :: u32 pod_result)" if "i + 4 \<le> 8" for i
    using that v by (simp add: take_u32_at)
  then show ?thesis
    using assms v by (auto simp: raw_pod_owned_wrap_def ok_simps split: if_splits)
qed

lemma raw_owned_wrap_wf: "raw_pod_owned_wrap data = Ok v \<Longrightarrow> raw_pod_wf v"
  using raw_owned_wrap_prefix [of data v "[]"] by (simp add: raw_pod_wf_def)

lemma raw_pod_wf_length: "raw_pod_wf v \<Longrightarrow> length (rp_data v) = rp_size v"
  using raw_owned_wrap_Ok [of "rp_data v" v] by (metis length_take min_absorb2 raw_pod_wf_def)

interpretation raw: pod_codec pod_raw "\<lambda>v out. raw_pod_wf v \<and> out = rp_data v" rp_size raw_pod_wf "\<lambda>v. v"
proof (unfold_locales, goal_cases)
  case (1 v data)
  then show ?case
    by (simp add: pod_raw_def raw_pod_encode_def raw_pod_wf_length subslice_def codec_simps)
next
  case (2 data v)
  then show ?case by (simp add: pod_raw_def raw_pod_encode_def)
next
  case (3 v out)
  then show ?case
    using raw_owned_wrap_Ok [of "rp_data v" v] by (simp add: raw_pod_wf_length) (simp add: raw_pod_wf_def)
next
  case (4 v out rest)
  then show ?case
    using raw_owned_wrap_prefix [of "rp_data v" v rest] raw_pod_wf_length [of v]
    by (simp add: pod_raw_def raw_pod_decode_def raw_pod_wf_def)
next
  case (5 data)
  then show ?case
    by (auto simp: pod_raw_def raw_pod_decode_def panic_simps raw_owned_wrap_total)
next
  case (6 data x n)
  then show ?case
    by (auto simp: pod_raw_def raw_pod_decode_def ok_simps dest: raw_owned_wrap_Ok)
qed

section \<open>Strings and byte arrays\<close>

definition string_encode :: "byte list \<Rightarrow> byte list \<Rightarrow> (byte list \<times> nat) pod_result" where
  "string_encode s data =
     (let len = length s + 1; padding = pad_8 len in
      if (of_nat len :: u32) > 0xFFFFFFFF \<or> length data < 8 + len + padding then Err NoSpace
      else rbind (copy_into data 0 (u32_bytes (of_nat len))) (\<lambda>data.
        rbind (copy_into data 4 (u32_bytes (type_u32 Type_String))) (\<lambda>data.
        rbind (copy_into data 8 s) (\<lambda>data.
        rbind (copy_into data (8 + length s) [0]) (\<lambda>data.
        rbind (copy_into data (8 + len) (replicate padding 0)) (\<lambda>data.
        Ok (data, 8 + len + padding)))))))"

definition string_decode :: "byte list \<Rightarrow> (byte list \<times> nat) pod_result" where
  "string_decode data =
     (if length data < 8 then Err (Invalid (Not_enough_data S_string))
      else rbind (u32_at data 0) (\<lambda>sz. let len = unat sz in
        if len = 0 then Err (Invalid String_has_no_null_terminator)
        else rbind (pod_total_size len) (\<lambda>total_size.
          if length data < total_size then Err (Invalid (Not_enough_data S_string))
          else rbind (u32_at data 4) (\<lambda>t.
            if t \<noteq> type_u32 Type_String then Err (Invalid (Type_is_not t Type_String))
            else rbind (subslice data 8 (8 + len - 1)) (\<lambda>s.
              rbind (index_at data (8 + len - 1)) (\<lambda>nul.
              if nul \<noteq> 0 then Err (Invalid (Not_enough_data S_string))
              else Ok (from_utf8_lossy s, total_size)))))))"

definition pod_string :: "(byte list, byte list) pod" where
  "pod_string = \<lparr>encode = string_encode, decode = string_decode\<rparr>"

definition bytes_encode :: "byte list \<Rightarrow> byte list \<Rightarrow> (byte list \<times> nat) pod_result" where
  "bytes_encode v data =
     (let len = length v; padding = pad_8 len in
      if (of_nat len :: u32) > 0xFFFFFFFF \<or> length data < 8 + len + padding then Err NoSpace
      else rbind (copy_into data 0 (u32_bytes (of_nat len))) (\<lambda>data.
        rbind (copy_into data 4 (u32_bytes (type_u32 Type_Bytes))) (\<lambda>data.
        rbind (copy_into data 8 v) (\<lambda>data.
        rbind (copy_into data (8 + len) (replicate padding 0)) (\<lambda>data.
        Ok (data, 8 + len + padding))))))"

definition bytes_decode :: "byte list \<Rightarrow> (byte list \<times> nat) pod_result" where
  "bytes_decode data =
     (if length data < 8 then Err (Invalid (Not_enough_data S_byte_array))
      else rbind (u32_at data 0) (\<lambda>sz. let len = unat sz in
        rbind (pod_total_size len) (\<lambda>total_size.
          if length data < total_size then Err (Invalid (Not_enough_data S_byte_array))
          else rbind (u32_at data 4) (\<lambda>t.
            if t \<noteq> type_u32 Type_Bytes then Err (Invalid (Type_is_not t Type_Bytes))
            else rbind (subslice data 8 (8 + len)) (\<lambda>v. Ok (v, total_size))))))"

definition pod_bytes :: "(byte list, byte list) pod" where
  "pod_bytes = \<lparr>encode = bytes_encode, decode = bytes_decode\<rparr>"

text \<open>
  The test \<open>len as u32 > u32::MAX\<close> of the source compares a value that was already
  truncated to 32 bits with the largest one, so it never holds.
\<close>

lemma u32_max_test [simp]: "\<not> (w :: u32) > 0xFFFFFFFF"
proof -
  have "unat w \<le> 4294967295"
    using unat_u32_less [of w] by linarith
  then show ?thesis by (simp add: not_less word_le_nat_alt)
qed

definition string_image :: "byte list \<Rightarrow> byte list" where
  "string_image s =
     u32_bytes (of_nat (length s + 1)) @ u32_bytes (type_u32 Type_String) @ s @ [0] @
     replicate (pad_8 (length s + 1)) 0"

definition bytes_image :: "byte list \<Rightarrow> byte list" where
  "bytes_image v =
     u32_bytes (of_nat (length v)) @ u32_bytes (type_u32 Type_Bytes) @ v @
     replicate (pad_8 (length v)) 0"

definition string_need :: "byte list \<Rightarrow> nat" where
  "string_need s = 8 + (length s + 1) + pad_8 (length s + 1)"

definition bytes_need :: "byte list \<Rightarrow> nat" where
  "bytes_need v = 8 + length v + pad_8 (length v)"

lemma length_string_image: "length (string_image s) = string_need s"
  by (simp add: string_image_def string_need_def)

lemma length_bytes_image: "length (bytes_image v) = bytes_need v"
  by (simp add: bytes_image_def bytes_need_def)

lemma string_encode_eq:
  "string_need s \<le> length data \<Longrightarrow>
   string_encode s data = Ok (string_image s @ drop (string_need s) data, string_need s)"
  by (simp add: string_encode_def string_need_def Let_def codec_simps del: of_nat_Suc)
    (simp add: string_image_def add_ac del: of_nat_Suc)

lemma bytes_encode_eq:
  "bytes_need v \<le> length data \<Longrightarrow>
   bytes_encode v data = Ok (bytes_image v @ drop (bytes_need v) data, bytes_need v)"
  by (simp add: bytes_encode_def bytes_need_def Let_def codec_simps)
    (simp add: bytes_image_def add_ac)

lemma string_decode_image:
  assumes "valid_utf8 s" and "length s + 1 < 2 ^ 32"
  shows "string_decode (string_image s @ rest) = Ok (s, string_need s)"
proof -
  have sz: "unat (of_nat (Suc (length s)) :: u32) = Suc (length s)"
    using unat_of_nat_u32 [OF assms(2)] by (simp del: of_nat_Suc)
  have total: "pod_total_size (Suc (length s)) = Ok (string_need s)"
    using pod_total_size_u32 [of "of_nat (Suc (length s))"] sz
    by (simp add: string_need_def del: of_nat_Suc)
  have "index_at (string_image s @ rest) (8 + length s) = (Ok 0 :: byte pod_result)"
    by (simp add: string_image_def index_at_def nth_append)
  moreover have "subslice (string_image s @ rest) 8 (8 + length s) = (Ok s :: byte list pod_result)"
    by (simp add: string_image_def codec_simps)
  moreover have "u32_at (string_image s @ rest) 0 = (Ok (of_nat (Suc (length s))) :: u32 pod_result)"
    "u32_at (string_image s @ rest) 4 = (Ok (type_u32 Type_String) :: u32 pod_result)"
    by (simp_all add: string_image_def codec_simps del: of_nat_Suc)
  moreover have "8 \<le> string_need s"
    by (simp add: string_need_def)
  ultimately show ?thesis
    using sz total length_string_image [of s]
    by (simp add: string_decode_def Let_def from_utf8_lossy_valid [OF assms(1)] del: of_nat_Suc)
qed

lemma bytes_decode_image:
  assumes "length v < 2 ^ 32"
  shows "bytes_decode (bytes_image v @ rest) = Ok (v, bytes_need v)"
proof -
  have sz: "unat (of_nat (length v) :: u32) = length v"
    using assms by (rule unat_of_nat_u32)
  have total: "pod_total_size (length v) = Ok (8 + length v + pad_8 (length v))"
    using pod_total_size_u32 [of "of_nat (length v)"] sz by simp
  show ?thesis
    using sz total length_bytes_image [of v]
    by (simp add: bytes_decode_def Let_def bytes_need_def) (simp add: bytes_image_def codec_simps)
qed

lemma string_decode_utf8: "decode pod_string data = Ok (s, n) \<Longrightarrow> valid_utf8 s"
  by (auto simp: pod_string_def string_decode_def Let_def ok_simps valid_from_utf8_lossy
      split: if_splits)

interpretation string: pod_codec pod_string "\<lambda>s out. out = string_image s" string_need
  "\<lambda>s. valid_utf8 s \<and> length s + 1 < 2 ^ 32" "\<lambda>s. s"
proof (unfold_locales, goal_cases)
  case (1 v data)
  then show ?case by (simp add: pod_string_def string_encode_eq length_string_image)
next
  case (2 data v)
  then show ?case by (simp add: pod_string_def string_encode_def string_need_def Let_def)
next
  case (3 v out)
  moreover have "8 dvd string_need v"
    unfolding string_need_def by (rule pad_8_dvd_8)
  ultimately show ?case
    by (simp add: length_string_image) (simp add: string_need_def)
next
  case (4 v out rest)
  then show ?case
    by (simp add: pod_string_def length_string_image string_decode_image)
next
  case (5 data)
  then show ?case
    by (auto simp: pod_string_def string_decode_def Let_def panic_simps ok_simps split: if_splits)
next
  case (6 data x n)
  then show ?case
    by (auto simp: pod_string_def string_decode_def Let_def ok_simps split: if_splits)
qed

interpretation bytes: pod_codec pod_bytes "\<lambda>v out. out = bytes_image v" bytes_need
  "\<lambda>v. length v < 2 ^ 32" "\<lambda>v. v"
proof (unfold_locales, goal_cases)
  case (1 v data)
  then show ?case by (simp add: pod_bytes_def bytes_encode_eq length_bytes_image)
next
  case (2 data v)
  then show ?case by (simp add: pod_bytes_def bytes_encode_def bytes_need_def Let_def)
next
  case (3 v out)
  then show ?case
    using pad_8_dvd [of "length v"]
    by (simp add: length_bytes_image) (simp add: bytes_need_def add.assoc)
next
  case (4 v out rest)
  then show ?case
    by (simp add: pod_bytes_def length_bytes_image bytes_decode_image)
next
  case (5 data)
  then show ?case
    by (auto simp: pod_bytes_def bytes_decode_def Let_def panic_simps split: if_splits)
next
  case (6 data x n)
  then show ?case
    by (auto simp: pod_bytes_def bytes_decode_def Let_def ok_simps split: if_splits)
qed

end
