(* ===== verification/Pod_Containers.thy ===== *)
theory Pod_Containers
  imports Pod_Values
begin

text \<open>
  Pointers and the pods built from other codecs: arrays and choices of a primitive type,
  properties and optional values (\<^verbatim>\<open>spa/src/pod/mod.rs\<close>, lines 599 to 1073). Each container
  is a \<open>sublocale\<close> fact: its contract follows from the contract of what it contains.
\<close>

section \<open>Pointers\<close>

text \<open>\<open>size_of::<*const c_void>()\<close> on the 64-bit target.\<close>

definition ptr_size :: nat where
  "ptr_size = 8"

definition pointer_encode :: "pointer \<Rightarrow> byte list \<Rightarrow> (byte list \<times> nat) pod_result" where
  "pointer_encode v data =
     (let size = 4 + 4 + ptr_size in
      if length data < 24 then Err NoSpace
      else rbind (copy_into data 0 (u32_bytes (of_nat size))) (\<lambda>data.
        rbind (copy_into data 4 (u32_bytes (type_u32 Type_Pointer))) (\<lambda>data.
        rbind (copy_into data 8 (u32_bytes (type_u32 (ptr_type v)))) (\<lambda>data.
        rbind (copy_into data 12 [0, 0, 0, 0]) (\<lambda>data.
        rbind (if ptr_size = 8 then copy_into data 16 (u64_bytes (ptr_addr v))
               else rbind (copy_into data 16 (u32_bytes (ucast (ptr_addr v)))) (\<lambda>data.
                 copy_into data 20 [0, 0, 0, 0])) (\<lambda>data.
        Ok (data, 24)))))))"

definition pointer_decode :: "byte list \<Rightarrow> (pointer \<times> nat) pod_result" where
  "pointer_decode data =
     (if length data < 8 then Err (Invalid (Not_enough_data S_pointer))
      else rbind (u32_at data 0) (\<lambda>sz. let size = unat sz; expected_size = 8 + ptr_size in
        rbind (pod_total_size size) (\<lambda>total_size.
          if size \<noteq> expected_size \<or> length data < total_size
          then Err (Invalid (Not_enough_data S_pointer))
          else rbind (u32_at data 4) (\<lambda>t.
            if t \<noteq> type_u32 Type_Pointer then Err (Invalid (Type_is_not t Type_Pointer))
            else rbind (u32_at data 8) (\<lambda>pt.
              rbind (ok_or (type_try_from pt) (Invalid Could_not_decode_type)) (\<lambda>typ.
              rbind (if ptr_size = 8 then u64_at data 16
                     else rbind (u32_at data 16) (\<lambda>a. Ok (ucast a))) (\<lambda>ptr.
              Ok (\<lparr>ptr_type = typ, ptr_addr = ptr\<rparr>, total_size))))))))"

definition pod_pointer :: "(pointer, pointer) pod" where
  "pod_pointer = \<lparr>encode = pointer_encode, decode = pointer_decode\<rparr>"

definition pointer_image :: "pointer \<Rightarrow> byte list" where
  "pointer_image v =
     u32_bytes 16 @ u32_bytes (type_u32 Type_Pointer) @ u32_bytes (type_u32 (ptr_type v)) @
     [0, 0, 0, 0] @ u64_bytes (ptr_addr v)"

lemma u32_at_Cons [codec_simps]: "0 < i \<Longrightarrow> u32_at (x # xs) i = u32_at xs (i - 1)"
  using u32_at_skip [of "[x]" i xs] by simp

lemma u64_at_Cons [codec_simps]: "0 < i \<Longrightarrow> u64_at (x # xs) i = u64_at xs (i - 1)"
  using u64_at_skip [of "[x]" i xs] by simp

lemma pod_total_size_16 [simp]: "pod_total_size 16 = Ok 24"
  using pod_total_size_u32 [of 16] by simp

interpretation pointer: pod_codec pod_pointer "\<lambda>v out. out = pointer_image v" "\<lambda>_. 24" "\<lambda>_. True" "\<lambda>v. v"
proof (unfold_locales, goal_cases)
  case (1 v data)
  then show ?case
    by (simp add: pod_pointer_def pointer_encode_def pointer_image_def ptr_size_def codec_simps)
next
  case (2 data v)
  then show ?case by (simp add: pod_pointer_def pointer_encode_def)
next
  case (3 v out)
  then show ?case by (simp add: pointer_image_def)
next
  case (4 v out rest)
  then show ?case
    by (simp add: pod_pointer_def pointer_decode_def pointer_image_def ptr_size_def codec_simps)
next
  case (5 data)
  then show ?case
    by (auto simp: pod_pointer_def pointer_decode_def ptr_size_def Let_def panic_simps ok_simps
        split: if_splits)
next
  case (6 data x n)
  then show ?case
    by (auto simp: pod_pointer_def pointer_decode_def Let_def ok_simps split: if_splits)
qed

section \<open>Arrays\<close>

text \<open>The body loop \<open>for i in 0..self.len()\<close>: element \<open>i\<close> goes to \<open>off + i * child_size\<close>.\<close>

fun write_bodies :: "'a primitive \<Rightarrow> nat \<Rightarrow> nat \<Rightarrow> 'a list \<Rightarrow> byte list \<Rightarrow> byte list pod_result" where
  "write_bodies P off i [] data = Ok data"
| "write_bodies P off i (v # vs) data =
     rbind (write_tail data (off + i * prim_size P) (encode_body P v)) (\<lambda>data.
       write_bodies P off (Suc i) vs data)"

fun try_map :: "('a \<Rightarrow> ('b, 'e) result) \<Rightarrow> 'a list \<Rightarrow> ('b list, 'e) result" where
  "try_map f [] = Ok []"
| "try_map f (x # xs) = rbind (f x) (\<lambda>y. rbind (try_map f xs) (\<lambda>ys. Ok (y # ys)))"

text \<open>\<open>slice::chunks_exact\<close>, which panics on a chunk size of 0.\<close>

function chunks_list :: "nat \<Rightarrow> 'a list \<Rightarrow> 'a list list" where
  "chunks_list n xs =
     (if n = 0 \<or> length xs < n then [] else take n xs # chunks_list n (drop n xs))"
  by pat_completeness auto
termination
  by (relation "measure (\<lambda>(n, xs). length xs)") auto

declare chunks_list.simps [simp del]

definition chunks_exact :: "nat \<Rightarrow> 'a list \<Rightarrow> ('a list list, 'e) result" where
  "chunks_exact n xs = (if n = 0 then Panic else Ok (chunks_list n xs))"

definition array_encode :: "'a primitive \<Rightarrow> 'a list \<Rightarrow> byte list \<Rightarrow> (byte list \<times> nat) pod_result" where
  "array_encode P v data =
     (let child_size = prim_size P; elems_size = child_size * length v;
          padding = pad_8 elems_size in
      if length data < 8 + 8 + elems_size + padding then Err NoSpace
      else rbind (copy_into data 0 (u32_bytes (8 + of_nat elems_size))) (\<lambda>data.
        rbind (copy_into data 4 (u32_bytes (type_u32 Type_Array))) (\<lambda>data.
        rbind (copy_into data 8 (u32_bytes (of_nat child_size))) (\<lambda>data.
        rbind (copy_into data 12 (u32_bytes (type_u32 (prim_type P)))) (\<lambda>data.
        rbind (write_bodies P 16 0 v data) (\<lambda>data.
        Ok (data, 8 + 8 + elems_size + padding)))))))"

definition array_decode :: "'a primitive \<Rightarrow> byte list \<Rightarrow> ('a list \<times> nat) pod_result" where
  "array_decode P data =
     (if length data < 16 then Err (Invalid (Not_enough_data S_array))
      else rbind (u32_at data 0) (\<lambda>sz. let size = unat sz in
        if size < 8 then Err (Invalid (Body_smaller_than_header Type_Array))
        else rbind (pod_total_size size) (\<lambda>total_size.
          if length data < total_size then Err (Invalid (Not_enough_data S_array))
          else rbind (u32_at data 4) (\<lambda>t.
            if type_try_from t \<noteq> Some Type_Array then Err (Invalid (Type_is_not t Type_Array))
            else rbind (u32_at data 8) (\<lambda>cs. let child_size = unat cs in
              if child_size = 0 \<or> child_size \<noteq> prim_size P
              then Err (Invalid Invalid_array_child_size)
              else rbind (u32_at data 12) (\<lambda>ct.
                if type_try_from ct \<noteq> Some (prim_type P)
                then Err (Invalid (Invalid_array_type (type_try_from ct)))
                else let elements_size = size - 8 in
                  if elements_size mod child_size \<noteq> 0
                  then Err (Invalid (Partial_child Type_Array))
                  else rbind (subslice data 16 (16 + elements_size)) (\<lambda>body.
                    rbind (chunks_exact child_size body) (\<lambda>chunks.
                    rbind (try_map (decode_body P) chunks) (\<lambda>res.
                    Ok (res, total_size))))))))))"

definition pod_array :: "'a primitive \<Rightarrow> ('a list, 'a list) pod" where
  "pod_array P = \<lparr>encode = array_encode P, decode = array_decode P\<rparr>"

lemma chunks_list_0 [simp]: "chunks_list n [] = []"
  by (subst chunks_list.simps) auto

lemma chunks_list_append:
  "0 < n \<Longrightarrow> length xs = n \<Longrightarrow> chunks_list n (xs @ ys) = xs # chunks_list n ys"
  by (subst chunks_list.simps) simp

lemma chunks_list_lengths: "c \<in> set (chunks_list n xs) \<Longrightarrow> length c = n"
proof (induction n xs rule: chunks_list.induct)
  case (1 n xs)
  show ?case
  proof (cases "n = 0 \<or> length xs < n")
    case True
    then show ?thesis using "1.prems" by (simp add: chunks_list.simps)
  next
    case False
    then have "chunks_list n xs = take n xs # chunks_list n (drop n xs)"
      by (subst chunks_list.simps) simp
    with "1.prems" False "1.IH" show ?thesis by auto
  qed
qed

lemma chunks_exact_eq_Ok_iff [ok_simps]:
  "chunks_exact n xs = Ok cs \<longleftrightarrow> n \<noteq> 0 \<and> cs = chunks_list n xs"
  by (auto simp: chunks_exact_def)

lemma chunks_exact_eq_Panic_iff [panic_simps]: "chunks_exact n xs = Panic \<longleftrightarrow> n = 0"
  by (simp add: chunks_exact_def)

lemma try_map_total: "(\<And>x. x \<in> set xs \<Longrightarrow> f x \<noteq> Panic) \<Longrightarrow> try_map f xs \<noteq> Panic"
proof (induction xs)
  case (Cons x xs)
  then show ?case
    by (cases "f x"; cases "try_map f xs") auto
qed simp

definition bodies_of :: "('a \<Rightarrow> byte list) \<Rightarrow> 'a list \<Rightarrow> byte list" where
  "bodies_of body vs = concat (map body vs)"

context primitive_codec
begin

lemma length_bodies [simp]: "length (bodies_of body vs) = prim_size P * length vs"
  by (induction vs) (simp_all add: bodies_of_def length_body)

lemma bodies_Nil [simp]: "bodies_of body [] = []"
  by (simp add: bodies_of_def)

lemma bodies_Cons [simp]: "bodies_of body (v # vs) = body v @ bodies_of body vs"
  by (simp add: bodies_of_def)

lemma write_bodies_eq:
  assumes "length pre = off + i * prim_size P"
    and "prim_size P * length vs \<le> length rest"
  shows "write_bodies P off i vs (pre @ rest) =
    Ok (pre @ bodies_of body vs @ drop (prim_size P * length vs) rest)"
  using assms
proof (induction vs arbitrary: i pre rest)
  case Nil
  then show ?case by simp
next
  case (Cons v vs)
  let ?n = "prim_size P"
  have step: "write_tail (pre @ rest) (off + i * ?n) (encode_body P v) =
      Ok ((pre @ body v) @ drop ?n rest)"
    using Cons.prems by (simp add: codec_simps encode_body_eq algebra_simps)
  have "write_bodies P off (Suc i) vs ((pre @ body v) @ drop ?n rest) =
      Ok ((pre @ body v) @ bodies_of body vs @ drop (?n * length vs) (drop ?n rest))"
    using Cons.prems by (intro Cons.IH) (simp_all add: length_body algebra_simps)
  with step show ?case
    by (simp add: algebra_simps)
qed

lemma decode_bodies: "try_map (decode_body P) (map body vs) = Ok vs"
  by (induction vs) (simp_all add: decode_body_body)

lemma chunks_bodies: "0 < prim_size P \<Longrightarrow> chunks_list (prim_size P) (bodies_of body vs) = map body vs"
  by (induction vs) (simp_all add: chunks_list_append length_body)

lemma decode_chunks_total: "try_map (decode_body P) (chunks_list (prim_size P) xs) \<noteq> Panic"
  by (intro try_map_total decode_body_total) (rule chunks_list_lengths)

end

text \<open>
  An array image carries any padding: \<open>encode\<close> reserves the padding bytes but leaves what the
  buffer held there.
\<close>

definition array_header :: "'a primitive \<Rightarrow> nat \<Rightarrow> byte list" where
  "array_header P n =
     u32_bytes (8 + of_nat (prim_size P * n)) @ u32_bytes (type_u32 Type_Array) @
     u32_bytes (of_nat (prim_size P)) @ u32_bytes (type_u32 (prim_type P))"

definition array_need :: "'a primitive \<Rightarrow> 'a list \<Rightarrow> nat" where
  "array_need P v = 16 + prim_size P * length v + pad_8 (prim_size P * length v)"

context primitive_codec
begin

lemma array_encode_eq:
  assumes "array_need P v \<le> length data"
  shows "array_encode P v data =
    Ok (array_header P (length v) @ bodies_of body v @
        take (pad_8 (prim_size P * length v)) (drop (16 + prim_size P * length v) data) @
        drop (array_need P v) data, array_need P v)"
proof -
  have pre: "length (array_header P (length v)) = 16 + 0 * prim_size P"
    by (simp add: array_header_def)
  have "take (pad_8 (prim_size P * length v)) (drop (16 + prim_size P * length v) data) @
      drop (array_need P v) data = drop (16 + prim_size P * length v) data"
    by (simp add: array_need_def append_take_drop_id [symmetric] add.commute
        flip: drop_drop) 
  moreover have "write_bodies P 16 0 v (array_header P (length v) @ drop 16 data) =
      Ok (array_header P (length v) @ bodies_of body v @ drop (prim_size P * length v) (drop 16 data))"
    using assms pre by (intro write_bodies_eq) (simp_all add: array_need_def)
  ultimately show ?thesis
    using assms
    by (simp add: array_encode_def array_need_def Let_def codec_simps array_header_def add_ac)
qed

lemma array_decode_image:
  assumes "0 < prim_size P" and "8 + prim_size P * length v < 2 ^ 32"
    and "length pad = pad_8 (prim_size P * length v)"
  shows "array_decode P (array_header P (length v) @ bodies_of body v @ pad @ rest) = Ok (v, array_need P v)"
proof -
  have sz: "unat (8 + of_nat (prim_size P * length v) :: u32) = 8 + prim_size P * length v"
    using unat_of_nat_u32 [OF assms(2)] by simp
  show ?thesis
    using assms sz pod_total_size_u32 [of "8 + of_nat (prim_size P * length v)"]
    by (simp add: array_decode_def array_header_def array_need_def Let_def codec_simps
        chunks_exact_def chunks_bodies decode_bodies)
qed

lemma array_decode_total: "array_decode P data \<noteq> Panic"
  using decode_chunks_total
  by (auto simp: array_decode_def Let_def panic_simps ok_simps split: if_splits)

lemma array_decode_consumes: "array_decode P data = Ok (x, n) \<Longrightarrow> 8 \<le> n \<and> n \<le> length data"
  by (auto simp: array_decode_def Let_def ok_simps split: if_splits)

end

sublocale primitive_codec \<subseteq> as_array: pod_codec "pod_array P"
  "\<lambda>v out. \<exists>pad. length pad = pad_8 (prim_size P * length v) \<and>
     out = array_header P (length v) @ bodies_of body v @ pad"
  "array_need P" "\<lambda>v. 0 < prim_size P \<and> 8 + prim_size P * length v < 2 ^ 32" "\<lambda>v. v"
proof (unfold_locales, goal_cases)
  case (1 v data)
  let ?pad = "take (pad_8 (prim_size P * length v)) (drop (16 + prim_size P * length v) data)"
  have "length ?pad = pad_8 (prim_size P * length v)"
    using 1 by (simp add: array_need_def)
  with 1 show ?case
    by (intro exI [of _ "array_header P (length v) @ bodies_of body v @ ?pad"])
      (auto simp: pod_array_def array_encode_eq array_need_def array_header_def add.assoc)
next
  case (2 data v)
  then show ?case by (simp add: pod_array_def array_encode_def array_need_def Let_def)
next
  case (3 v out)
  then show ?case
    using pad_8_dvd_8 [of "8 + prim_size P * length v"]
    by (auto simp: array_need_def array_header_def add.assoc)
next
  case (4 v out rest)
  then show ?case
    using array_decode_image by (auto simp: pod_array_def array_need_def array_header_def)
next
  case (5 data)
  then show ?case by (simp add: pod_array_def array_decode_total)
next
  case (6 data x n)
  then show ?case using array_decode_consumes by (simp add: pod_array_def)
qed

section \<open>Choices\<close>

text \<open>The children in the order in which the \<open>match self\<close> of the source writes them.\<close>

fun choice_children :: "'a choice \<Rightarrow> 'a list" where
  "choice_children (Choice_None v) = [v]"
| "choice_children (Choice_Range d mn mx) = [d, mn, mx]"
| "choice_children (Choice_Step d mn mx st) = [d, mn, mx, st]"
| "choice_children (Choice_Enum d alts) = d # alts"
| "choice_children (Choice_Flags d fl) = [d, fl]"

fun choice_type_of :: "'a choice \<Rightarrow> u32" where
  "choice_type_of (Choice_None _) = 0"
| "choice_type_of (Choice_Range _ _ _) = 1"
| "choice_type_of (Choice_Step _ _ _ _) = 2"
| "choice_type_of (Choice_Enum _ _) = 3"
| "choice_type_of (Choice_Flags _ _) = 4"

definition choice_encode :: "'a primitive \<Rightarrow> 'a choice \<Rightarrow> byte list \<Rightarrow> (byte list \<times> nat) pod_result" where
  "choice_encode P c data =
     (let child_size = prim_size P;
          size = 16 + (case c of Choice_None _ \<Rightarrow> child_size | Choice_Range _ _ _ \<Rightarrow> child_size * 3
                       | Choice_Step _ _ _ _ \<Rightarrow> child_size * 4
                       | Choice_Enum _ alts \<Rightarrow> child_size * (1 + length alts)
                       | Choice_Flags _ _ \<Rightarrow> child_size * 2);
          padding = pad_8 size in
      if length data < 24 + size + padding then Err NoSpace
      else rbind (copy_into data 0 (u32_bytes (of_nat size))) (\<lambda>data.
        rbind (copy_into data 4 (u32_bytes (type_u32 Type_Choice))) (\<lambda>data.
        rbind (copy_into data 8 (u32_bytes (choice_type_of c))) (\<lambda>data.
        rbind (copy_into data 12 (u32_bytes 0)) (\<lambda>data.
        rbind (copy_into data 16 (u32_bytes (of_nat (prim_size P)))) (\<lambda>data.
        rbind (copy_into data 20 (u32_bytes (type_u32 (prim_type P)))) (\<lambda>data.
        rbind (write_bodies P 24 0 (choice_children c) data) (\<lambda>data.
        Ok (data, 8 + size + padding)))))))))"

text \<open>
  \<open>child(index)\<close> of the source, and the match on the choice type. \<open>get\<close> decodes a child: it is
  \<open>T::decode_body\<close> in the typed decoder and the identity in \<open>Parser::pop_choice_raw\<close>.
\<close>

definition choice_child :: "byte list \<Rightarrow> nat \<Rightarrow> nat \<Rightarrow> byte list pod_result" where
  "choice_child data child_size index =
     subslice data (24 + index * child_size) (24 + index * child_size + child_size)"

definition choice_match ::
    "(byte list \<Rightarrow> 'a pod_result) \<Rightarrow> byte list \<Rightarrow> nat \<Rightarrow> nat \<Rightarrow> u32 \<Rightarrow> 'a choice pod_result" where
  "choice_match get data child_size child_count choice_type =
     (let child = (\<lambda>i. rbind (choice_child data child_size i) get) in
      if choice_type = 0 then
        (if child_count \<noteq> 1 then Err (Invalid Invalid_none_choice_size)
         else rbind (child 0) (\<lambda>v. Ok (Choice_None v)))
      else if choice_type = 1 then
        (if child_count \<noteq> 3 then Err (Invalid (Not_enough_data S_choice_range))
         else rbind (child 0) (\<lambda>d. rbind (child 1) (\<lambda>mn. rbind (child 2) (\<lambda>mx.
           Ok (Choice_Range d mn mx)))))
      else if choice_type = 2 then
        (if child_count \<noteq> 4 then Err (Invalid (Not_enough_data S_choice_step))
         else rbind (child 0) (\<lambda>d. rbind (child 1) (\<lambda>mn. rbind (child 2) (\<lambda>mx.
           rbind (child 3) (\<lambda>st. Ok (Choice_Step d mn mx st))))))
      else if choice_type = 3 then
        (if child_count = 0 then Err (Invalid Enum_choice_has_no_default)
         else rbind (child 0) (\<lambda>d. rbind (try_map child [1..<child_count]) (\<lambda>alts.
           Ok (Choice_Enum d alts))))
      else if choice_type = 4 then
        (if child_count \<noteq> 2 then Err (Invalid (Not_enough_data S_choice_flags))
         else rbind (child 0) (\<lambda>d. rbind (child 1) (\<lambda>fl. Ok (Choice_Flags d fl))))
      else Err (Invalid (Invalid_choice_type choice_type)))"

definition choice_decode :: "'a primitive \<Rightarrow> byte list \<Rightarrow> ('a choice \<times> nat) pod_result" where
  "choice_decode P data =
     (if length data < 24 then Err (Invalid (Not_enough_data S_choice))
      else rbind (u32_at data 0) (\<lambda>sz. let size = unat sz in
        if size < 16 then Err (Invalid (Body_smaller_than_header Type_Choice))
        else rbind (pod_total_size size) (\<lambda>total_size.
          if length data < total_size then Err (Invalid (Not_enough_data S_choice))
          else rbind (u32_at data 4) (\<lambda>t.
            if t \<noteq> type_u32 Type_Choice then Err (Invalid (Type_is_not t Type_Choice))
            else rbind (u32_at data 8) (\<lambda>choice_type.
              rbind (u32_at data 16) (\<lambda>cs. let child_size = unat cs in
              if child_size = 0 \<or> child_size \<noteq> prim_size P
              then Err (Invalid (Not_enough_data S_choice))
              else rbind (u32_at data 20) (\<lambda>child_type.
                if child_type \<noteq> type_u32 (prim_type P)
                then Err (Invalid (Invalid_child_type child_type))
                else let children_size = size - 16 in
                  if children_size mod child_size \<noteq> 0
                  then Err (Invalid (Partial_child Type_Choice))
                  else rbind (choice_match (decode_body P) data child_size
                                (children_size div child_size) choice_type) (\<lambda>choice.
                    Ok (choice, total_size)))))))))"

definition pod_choice :: "'a primitive \<Rightarrow> ('a choice, 'a choice) pod" where
  "pod_choice P = \<lparr>encode = choice_encode P, decode = choice_decode P\<rparr>"

definition choice_header :: "'a primitive \<Rightarrow> 'a choice \<Rightarrow> byte list" where
  "choice_header P c =
     u32_bytes (of_nat (16 + prim_size P * length (choice_children c))) @
     u32_bytes (type_u32 Type_Choice) @ u32_bytes (choice_type_of c) @ u32_bytes 0 @
     u32_bytes (of_nat (prim_size P)) @ u32_bytes (type_u32 (prim_type P))"

definition choice_size :: "'a primitive \<Rightarrow> 'a choice \<Rightarrow> nat" where
  "choice_size P c = 24 + prim_size P * length (choice_children c) +
     pad_8 (prim_size P * length (choice_children c))"

lemma length_choice_header [simp]: "length (choice_header P c) = 24"
  by (simp add: choice_header_def)

lemma choice_body_size:
  "(case c of Choice_None _ \<Rightarrow> n | Choice_Range _ _ _ \<Rightarrow> n * 3 | Choice_Step _ _ _ _ \<Rightarrow> n * 4
    | Choice_Enum _ alts \<Rightarrow> n * (1 + length alts) | Choice_Flags _ _ \<Rightarrow> n * 2) =
   n * length (choice_children c)"
  by (cases c) simp_all

text \<open>A child read lies within the children area.\<close>

lemma choice_child_Ok:
  assumes "index < count" and "24 + count * n \<le> length data"
  shows "choice_child data n index = Ok (take n (drop (24 + index * n) data))"
proof -
  have "(index + 1) * n \<le> count * n"
    using assms(1) by (intro mult_right_mono) simp_all
  then show ?thesis
    using assms(2) by (simp add: choice_child_def subslice_def algebra_simps)
qed

lemma choice_match_total:
  assumes "24 + count * n \<le> length data" and "\<And>bs. length bs = n \<Longrightarrow> get bs \<noteq> Panic"
  shows "choice_match get data n count ct \<noteq> Panic"
proof -
  have child: "rbind (choice_child data n i) get \<noteq> Panic" if "i < count" for i
  proof -
    have "(i + 1) * n \<le> count * n"
      using that by (intro mult_right_mono) simp_all
    then have "length (take n (drop (24 + i * n) data)) = n"
      using assms(1) by (simp add: algebra_simps)
    then show ?thesis
      using choice_child_Ok [OF that assms(1)] assms(2) by simp
  qed
  define g where "g = (\<lambda>i. rbind (choice_child data n i) get)"
  have g: "g i \<noteq> Panic" if "i < count" for i
    using child [OF that] by (simp add: g_def)
  then have "try_map g [1..<count] \<noteq> Panic"
    by (intro try_map_total) simp
  with g show ?thesis
    unfolding choice_match_def Let_def g_def [symmetric]
    by (auto simp: rbind_eq_Panic_iff)
qed

context primitive_codec
begin

lemma drop_bodies:
  "i \<le> length vs \<Longrightarrow> drop (i * prim_size P) (bodies_of body vs @ rest) = bodies_of body (drop i vs) @ rest"
proof (induction vs arbitrary: i)
  case Nil
  then show ?case by simp
next
  case (Cons v vs)
  then show ?case
    by (cases i) (simp_all add: length_body)
qed

lemma choice_child_bodies:
  assumes "i < length (choice_children c)"
  shows "rbind (choice_child (choice_header P c @ bodies_of body (choice_children c) @ rest) (prim_size P) i)
      (decode_body P) = Ok (choice_children c ! i)"
proof -
  let ?vs = "choice_children c"
  have "drop i ?vs = ?vs ! i # drop (Suc i) ?vs"
    using assms by (simp add: Cons_nth_drop_Suc)
  then have "drop (i * prim_size P) (bodies_of body ?vs @ rest) =
      body (?vs ! i) @ bodies_of body (drop (Suc i) ?vs) @ rest"
    using drop_bodies [of i ?vs rest] assms by simp
  moreover have "24 + length ?vs * prim_size P \<le> length (choice_header P c @ bodies_of body ?vs @ rest)"
    by (simp add: algebra_simps)
  ultimately show ?thesis
    using choice_child_Ok [OF assms] by (simp add: length_body decode_body_body)
qed

lemma choice_match_image:
  "choice_match (decode_body P) (choice_header P c @ bodies_of body (choice_children c) @ rest)
     (prim_size P) (length (choice_children c)) (choice_type_of c) = Ok c"
proof -
  let ?data = "choice_header P c @ bodies_of body (choice_children c) @ rest"
  have child: "rbind (choice_child ?data (prim_size P) i) (decode_body P) = Ok (choice_children c ! i)"
    if "i < length (choice_children c)" for i
    using choice_child_bodies [OF that] .
  have alts: "try_map (\<lambda>i. rbind (choice_child ?data (prim_size P) i) (decode_body P)) is =
      Ok (map ((!) (choice_children c)) is)" if "\<forall>i\<in>set is. i < length (choice_children c)" for "is"
    using that by (induction "is") (simp_all add: child)
  show ?thesis
  proof (cases c)
    case (Choice_Enum d as)
    have "map ((!) (d # as)) [1..<Suc (length as)] = as"
      by (rule nth_equalityI) (simp_all del: upt_Suc)
    then show ?thesis
      using Choice_Enum child [of 0] alts [of "[1..<Suc (length as)]"]
      by (simp add: choice_match_def Let_def del: upt_Suc)
  qed (use child [of 0] child [of 1] child [of 2] child [of 3] in
      \<open>simp_all add: choice_match_def Let_def\<close>)
qed

lemma choice_encode_eq:
  assumes "16 + choice_size P c \<le> length data"
  shows "choice_encode P c data =
    Ok (choice_header P c @ bodies_of body (choice_children c) @
        take (pad_8 (prim_size P * length (choice_children c)))
          (drop (24 + prim_size P * length (choice_children c)) data) @
        drop (choice_size P c) data, choice_size P c)"
proof -
  let ?k = "prim_size P * length (choice_children c)"
  have "take (pad_8 ?k) (drop (24 + ?k) data) @ drop (choice_size P c) data = drop (24 + ?k) data"
    by (simp add: choice_size_def append_take_drop_id [symmetric] add.commute flip: drop_drop)
  moreover have "write_bodies P 24 0 (choice_children c) (choice_header P c @ drop 24 data) =
      Ok (choice_header P c @ bodies_of body (choice_children c) @ drop ?k (drop 24 data))"
    using assms by (intro write_bodies_eq) (simp_all add: choice_size_def)
  moreover have "rbind (copy_into data 0 (u32_bytes (of_nat (16 + ?k)))) (\<lambda>data.
        rbind (copy_into data 4 (u32_bytes (type_u32 Type_Choice))) (\<lambda>data.
        rbind (copy_into data 8 (u32_bytes (choice_type_of c))) (\<lambda>data.
        rbind (copy_into data 12 (u32_bytes 0)) (\<lambda>data.
        rbind (copy_into data 16 (u32_bytes (of_nat (prim_size P)))) (\<lambda>data.
        rbind (copy_into data 20 (u32_bytes (type_u32 (prim_type P)))) f))))) =
      f (choice_header P c @ drop 24 data)" for f :: "byte list \<Rightarrow> (byte list \<times> nat) pod_result"
    using assms by (simp add: choice_header_def choice_size_def codec_simps)
  ultimately show ?thesis
    using assms
    by (simp add: choice_encode_def choice_body_size Let_def) (simp add: choice_size_def add_ac)
qed

lemma choice_decode_image:
  assumes "0 < prim_size P" and "16 + prim_size P * length (choice_children c) < 2 ^ 32"
    and "length pad = pad_8 (prim_size P * length (choice_children c))"
  shows "choice_decode P (choice_header P c @ bodies_of body (choice_children c) @ pad @ rest) =
    Ok (c, choice_size P c)"
proof -
  let ?k = "prim_size P * length (choice_children c)"
  let ?data = "choice_header P c @ bodies_of body (choice_children c) @ pad @ rest"
  have sz: "unat (of_nat (16 + ?k) :: u32) = 16 + ?k"
    using assms(2) by (rule unat_of_nat_u32)
  have reads: "u32_at ?data 0 = (Ok (of_nat (16 + ?k)) :: u32 pod_result)"
    "u32_at ?data 4 = (Ok (type_u32 Type_Choice) :: u32 pod_result)"
    "u32_at ?data 8 = (Ok (choice_type_of c) :: u32 pod_result)"
    "u32_at ?data 16 = (Ok (of_nat (prim_size P)) :: u32 pod_result)"
    "u32_at ?data 20 = (Ok (type_u32 (prim_type P)) :: u32 pod_result)"
    by (simp_all add: choice_header_def codec_simps del: of_nat_add)
  have "pod_total_size (16 + ?k) = Ok (8 + (16 + ?k) + pad_8 (16 + ?k))"
    using pod_total_size_u32 [of "of_nat (16 + ?k)"] sz by (simp del: of_nat_add)
  with assms show ?thesis
    using choice_match_image [of c "pad @ rest"]
    by (simp add: choice_decode_def reads sz choice_size_def Let_def del: of_nat_add)
qed

lemma choice_decode_total: "choice_decode P data \<noteq> Panic"
proof -
  have "choice_match (decode_body P) data (prim_size P) (k div prim_size P) ct \<noteq> Panic"
    if "24 + k \<le> length data" for k ct
  proof (rule choice_match_total)
    show "24 + k div prim_size P * prim_size P \<le> length data"
      using that div_times_less_eq_dividend [of k "prim_size P"] by linarith
  qed (rule decode_body_total)
  then show ?thesis
    by (auto simp: choice_decode_def Let_def panic_simps ok_simps split: if_splits)
qed

lemma choice_decode_consumes: "choice_decode P data = Ok (x, n) \<Longrightarrow> 8 \<le> n \<and> n \<le> length data"
  by (auto simp: choice_decode_def Let_def ok_simps split: if_splits)

end

sublocale primitive_codec \<subseteq> as_choice: pod_codec "pod_choice P"
  "\<lambda>c out. \<exists>pad. length pad = pad_8 (prim_size P * length (choice_children c)) \<and>
     out = choice_header P c @ bodies_of body (choice_children c) @ pad"
  "\<lambda>c. 16 + choice_size P c"
  "\<lambda>c. 0 < prim_size P \<and> 16 + prim_size P * length (choice_children c) < 2 ^ 32" "\<lambda>c. c"
proof (unfold_locales, goal_cases)
  case (1 c data)
  let ?pad = "take (pad_8 (prim_size P * length (choice_children c)))
    (drop (24 + prim_size P * length (choice_children c)) data)"
  have "length ?pad = pad_8 (prim_size P * length (choice_children c))"
    using 1 by (simp add: choice_size_def)
  with 1 show ?case
    by (intro exI [of _ "choice_header P c @ bodies_of body (choice_children c) @ ?pad"])
      (auto simp: pod_choice_def choice_encode_eq choice_size_def add.assoc)
next
  case (2 data c)
  then show ?case
    by (simp add: pod_choice_def choice_encode_def choice_size_def choice_body_size Let_def)
next
  case (3 c out)
  then show ?case
    using pad_8_dvd_8 [of "16 + prim_size P * length (choice_children c)"]
    by (auto simp: choice_size_def add.assoc)
next
  case (4 c out rest)
  then show ?case
    using choice_decode_image by (auto simp: pod_choice_def choice_size_def)
next
  case (5 data)
  then show ?case by (simp add: pod_choice_def choice_decode_total)
next
  case (6 data x n)
  then show ?case using choice_decode_consumes by (simp add: pod_choice_def)
qed

section \<open>Properties\<close>

definition property_encode ::
    "('k \<Rightarrow> u32) \<Rightarrow> ('v, 'd) pod \<Rightarrow> ('k, 'v) property \<Rightarrow> byte list \<Rightarrow> (byte list \<times> nat) pod_result" where
  "property_encode into C p data =
     (if length data < 8 then Err NoSpace
      else rbind (copy_into data 0 (u32_bytes (into (key p)))) (\<lambda>data.
        rbind (copy_into data 4 (u32_bytes (flags p))) (\<lambda>data.
        rbind (write_from data 8 (encode C (value p))) (\<lambda>(data, value_size).
        Ok (data, 8 + value_size)))))"

definition property_decode ::
    "(u32 \<Rightarrow> 'k option) \<Rightarrow> (u32 \<Rightarrow> u32 option) \<Rightarrow> ('v, 'd) pod \<Rightarrow> byte list
      \<Rightarrow> (('k, 'd) property \<times> nat) pod_result" where
  "property_decode try_from from_bits C data =
     (if length data < 8 then Err (Invalid (Not_enough_data S_property))
      else rbind (u32_at data 0) (\<lambda>k.
        rbind (ok_or (try_from k) (Invalid Invalid_property_key)) (\<lambda>key.
        rbind (u32_at data 4) (\<lambda>b.
        rbind (ok_or (from_bits b) (Invalid Invalid_property_flags)) (\<lambda>flags.
        rbind (slice_from data 8) (\<lambda>tail.
        rbind (decode C tail) (\<lambda>(value, size).
        Ok (\<lparr>key = key, flags = flags, value = value\<rparr>, 8 + size))))))))"

definition pod_property ::
    "('k \<Rightarrow> u32) \<Rightarrow> (u32 \<Rightarrow> 'k option) \<Rightarrow> (u32 \<Rightarrow> u32 option) \<Rightarrow> ('v, 'd) pod
      \<Rightarrow> (('k, 'v) property, ('k, 'd) property) pod" where
  "pod_property into try_from from_bits C =
     \<lparr>encode = property_encode into C, decode = property_decode try_from from_bits C\<rparr>"

locale property_codec = pod_codec C img need fits view + u32_conv into try_from
  for C :: "('v, 'd) pod" and img need fits view and into :: "'k \<Rightarrow> u32" and try_from +
  fixes from_bits :: "u32 \<Rightarrow> u32 option"

sublocale property_codec \<subseteq> as_property: pod_codec "pod_property into try_from from_bits C"
  "\<lambda>p out. \<exists>v. img (value p) v \<and> out = u32_bytes (into (key p)) @ u32_bytes (flags p) @ v"
  "\<lambda>p. 8 + need (value p)" "\<lambda>p. fits (value p) \<and> from_bits (flags p) = Some (flags p)"
  "\<lambda>p. \<lparr>key = key p, flags = flags p, value = view (value p)\<rparr>"
proof (unfold_locales, goal_cases)
  case (1 p data)
  then have "need (value p) \<le> length (drop 8 data)"
    by simp
  then obtain v where "img (value p) v"
    "encode C (value p) (drop 8 data) = Ok (v @ drop (length v) (drop 8 data), length v)"
    using encode_ok [of "value p" "drop 8 data"] 1 by blast
  with 1 show ?case
    by (intro exI [of _ "u32_bytes (into (key p)) @ u32_bytes (flags p) @ v"])
      (simp add: pod_property_def property_encode_def codec_simps add.commute)
next
  case (2 data p)
  then show ?case
    using encode_no_space [of "drop 8 data" "value p"]
    by (simp add: pod_property_def property_encode_def codec_simps)
next
  case (3 p out)
  then show ?case
    using img_size by fastforce
next
  case (4 p out rest)
  then show ?case
    using decode_img
    by (auto simp: pod_property_def property_decode_def codec_simps try_from_into)
next
  case (5 data)
  then show ?case
    using decode_total
    by (auto simp: pod_property_def property_decode_def panic_simps split: if_splits)
next
  case (6 data x n)
  then show ?case
    by (auto simp: pod_property_def property_decode_def ok_simps dest!: decode_consumes
        split: if_splits)
qed

section \<open>Optional values\<close>

definition option_encode :: "('a, 'd) pod \<Rightarrow> 'a option \<Rightarrow> byte list \<Rightarrow> (byte list \<times> nat) pod_result" where
  "option_encode C v data =
     (case v of Some x \<Rightarrow> encode C x data | None \<Rightarrow> primitive_encode prim_unit () data)"

definition option_decode :: "('a, 'd) pod \<Rightarrow> byte list \<Rightarrow> ('d option \<times> nat) pod_result" where
  "option_decode C data =
     (case decode C data of Ok (v, n) \<Rightarrow> Ok (Some v, n)
      | Err _ \<Rightarrow> rbind (primitive_decode prim_unit data) (\<lambda>(_, n). Ok (None, n))
      | Panic \<Rightarrow> Panic)"

definition pod_option :: "('a, 'd) pod \<Rightarrow> ('a option, 'd option) pod" where
  "pod_option C = \<lparr>encode = option_encode C, decode = option_decode C\<rparr>"

abbreviation none_image :: "byte list" where
  "none_image \<equiv> prim_image prim_unit (\<lambda>_. []) ()"

text \<open>
  \<open>None\<close> is read back only where the value codec rejects a \<open>None\<close> pod; every typed codec of the
  source does, the raw pod codec does not.
\<close>

locale optional_codec = pod_codec C img need fits view
  for C :: "('a, 'd) pod" and img need fits view +
  assumes rejects_none: "\<exists>e. decode C (none_image @ rest) = Err e"

sublocale optional_codec \<subseteq> as_option: pod_codec "pod_option C"
  "\<lambda>v out. case v of Some x \<Rightarrow> img x out | None \<Rightarrow> out = none_image"
  "\<lambda>v. case v of Some x \<Rightarrow> need x | None \<Rightarrow> 8"
  "\<lambda>v. case v of Some x \<Rightarrow> fits x | None \<Rightarrow> True" "map_option view"
proof (unfold_locales, goal_cases)
  case (1 v data)
  then show ?case
    using encode_ok unit.as_pod.encode_ok [where v = "()" and data = data]
    by (auto simp: pod_option_def option_encode_def pod_prim_def prim_unit_def split: option.splits)
next
  case (2 data v)
  then show ?case
    using encode_no_space
    by (auto simp: pod_option_def option_encode_def primitive_encode_def prim_unit_def
        split: option.splits)
next
  case (3 v out)
  then show ?case
    using img_size by (auto simp: prim_image_def prim_unit_def split: option.splits)
next
  case (4 v out rest)
  then show ?case
    using decode_img rejects_none [of rest] unit.primitive_decode_image [of "()" rest]
    by (auto simp: pod_option_def option_decode_def split: option.splits)
next
  case (5 data)
  then show ?case
    using decode_total [of data] unit.primitive_decode_total [of data]
    by (auto simp: pod_option_def option_decode_def panic_simps split: result.splits prod.splits)
next
  case (6 data x n)
  then show ?case
    using decode_consumes [of data] unit.primitive_decode_consumes [of data]
    by (auto simp: pod_option_def option_decode_def ok_simps split: result.splits prod.splits)
qed

lemma none_image_reads:
  "u32_at (none_image @ rest) 0 = Ok 0" "u32_at (none_image @ rest) 4 = Ok 1"
  by (simp_all add: prim_image_def prim_unit_def codec_simps)

interpretation opt_i32: optional_codec "pod_prim prim_i32" "\<lambda>v out. out = prim_image prim_i32 u32_bytes v"
  "\<lambda>_. 8 + prim_size prim_i32 + pad_8 (prim_size prim_i32)" "\<lambda>_. True" "\<lambda>v. v"
  by unfold_locales
    (simp add: pod_prim_def primitive_decode_def none_image_reads prim_i32_def unit.length_prim_image)

interpretation opt_string: optional_codec pod_string "\<lambda>s out. out = string_image s" string_need
  "\<lambda>s. valid_utf8 s \<and> length s + 1 < 2 ^ 32" "\<lambda>s. s"
  by unfold_locales
    (simp add: pod_string_def string_decode_def none_image_reads unit.length_prim_image)

interpretation prop_string: property_codec pod_string "\<lambda>s out. out = string_image s" string_need
  "\<lambda>s. valid_utf8 s \<and> length s + 1 < 2 ^ 32" "\<lambda>s. s" "\<lambda>x. x" Some from_bits for from_bits
  by unfold_locales

end
