(* ===== verification/Pod_Builder.thy ===== *)
theory Pod_Builder
  imports Pod_Containers
begin

text \<open>
  \<^verbatim>\<open>spa/src/pod/builder.rs\<close>. A builder owns a byte buffer, a write position and a sticky
  error. \<open>StructBuilder\<close> and \<open>ObjectBuilder\<close> are newtypes around a builder whose methods
  forward to it; they are identified with it, and the closures given to \<open>push_struct\<close> and
  \<open>push_object\<close> are functions on builders. A push returns the builder or panics.
\<close>

record builder =
  b_data :: "byte list"
  b_pos :: nat
  b_error :: "pod_error option"

type_synonym push = "builder \<Rightarrow> builder pod_result"

definition builder_new :: "byte list \<Rightarrow> builder" where
  "builder_new data = \<lparr>b_data = data, b_pos = 0, b_error = None\<rparr>"

definition build :: "builder \<Rightarrow> byte list pod_result" where
  "build b = (case b_error b of Some e \<Rightarrow> Err e | None \<Rightarrow> subslice (b_data b) 0 (b_pos b))"

definition push_pod :: "('a, 'd) pod \<Rightarrow> 'a \<Rightarrow> push" where
  "push_pod C v b =
     (if b_error b \<noteq> None then Ok b
      else rbind (slice_from (b_data b) (b_pos b)) (\<lambda>tail.
        case encode C v tail of
          Ok (tail', n) \<Rightarrow>
            Ok (b\<lparr>b_data := take (b_pos b) (b_data b) @ tail', b_pos := b_pos b + n\<rparr>)
        | Err e \<Rightarrow> Ok (b\<lparr>b_error := Some e\<rparr>)
        | Panic \<Rightarrow> Panic))"

definition push_none :: push where
  "push_none = push_pod (pod_prim prim_unit) ()"

definition push_bool :: "bool \<Rightarrow> push" where
  "push_bool v = push_pod (pod_prim prim_bool) v"

definition push_id :: "('t \<Rightarrow> u32) \<Rightarrow> (u32 \<Rightarrow> 't option) \<Rightarrow> 't id \<Rightarrow> push" where
  "push_id into try_from v = push_pod (pod_prim (prim_id into try_from)) v"

definition push_int :: "i32 \<Rightarrow> push" where
  "push_int v = push_pod (pod_prim prim_i32) v"

definition push_long :: "i64 \<Rightarrow> push" where
  "push_long v = push_pod (pod_prim prim_i64) v"

definition push_float :: "u32 \<Rightarrow> push" where
  "push_float v = push_pod (pod_prim prim_f32) v"

definition push_double :: "u64 \<Rightarrow> push" where
  "push_double v = push_pod (pod_prim prim_f64) v"

definition push_fd :: "i32 \<Rightarrow> push" where
  "push_fd v = push_pod (pod_prim prim_fd) (Fd (scast v))"

definition push_rectangle :: "u32 \<Rightarrow> u32 \<Rightarrow> push" where
  "push_rectangle w h = push_pod (pod_prim prim_rectangle) \<lparr>width = w, height = h\<rparr>"

definition push_fraction :: "u32 \<Rightarrow> u32 \<Rightarrow> push" where
  "push_fraction n d = push_pod (pod_prim prim_fraction) \<lparr>num = n, denom = d\<rparr>"

definition push_string :: "byte list \<Rightarrow> push" where
  "push_string s = push_pod pod_string s"

definition push_bytes :: "byte list \<Rightarrow> push" where
  "push_bytes v = push_pod pod_bytes v"

definition push_pointer :: "pod_type \<Rightarrow> u64 \<Rightarrow> push" where
  "push_pointer t a = push_pod pod_pointer \<lparr>ptr_type = t, ptr_addr = a\<rparr>"

definition push_array :: "'a primitive \<Rightarrow> 'a list \<Rightarrow> push" where
  "push_array P vs = push_pod (pod_array P) vs"

definition push_choice :: "'a primitive \<Rightarrow> 'a choice \<Rightarrow> push" where
  "push_choice P c = push_pod (pod_choice P) c"

text \<open>
  The header of a struct is written after its members. The space test of the source looks at the
  length of the whole buffer, not at what is left of it.
\<close>

definition push_struct :: "push \<Rightarrow> push" where
  "push_struct build_struct b =
     (if b_error b \<noteq> None then Ok b
      else if length (b_data b) < 8 then Ok (b\<lparr>b_error := Some NoSpace\<rparr>)
      else let old_pos = b_pos b in
        rbind (build_struct (b\<lparr>b_pos := old_pos + 8\<rparr>)) (\<lambda>ret.
          if b_error ret \<noteq> None then Ok ret
          else if b_pos ret < old_pos + 8 then Panic
          else let size = b_pos ret - old_pos - 8 in
            rbind (copy_into (b_data ret) old_pos (u32_bytes (of_nat size))) (\<lambda>data.
            rbind (copy_into data (old_pos + 4) (u32_bytes (type_u32 Type_Struct))) (\<lambda>data.
            Ok (ret\<lparr>b_data := data\<rparr>)))))"

definition push_object :: "object_type \<Rightarrow> u32 \<Rightarrow> push \<Rightarrow> push" where
  "push_object typ ident build_object b =
     (if b_error b \<noteq> None then Ok b
      else if length (b_data b) < 16 then Ok (b\<lparr>b_error := Some NoSpace\<rparr>)
      else let old_pos = b_pos b in
        rbind (build_object (b\<lparr>b_pos := old_pos + 16\<rparr>)) (\<lambda>ret.
          if b_error ret \<noteq> None then Ok ret
          else if b_pos ret < old_pos + 8 then Panic
          else let size = b_pos ret - old_pos - 8 in
            rbind (copy_into (b_data ret) old_pos (u32_bytes (of_nat size))) (\<lambda>data.
            rbind (copy_into data (old_pos + 4) (u32_bytes (type_u32 Type_Object))) (\<lambda>data.
            rbind (copy_into data (old_pos + 8) (u32_bytes (object_type_u32 typ))) (\<lambda>data.
            rbind (copy_into data (old_pos + 12) (u32_bytes ident)) (\<lambda>data.
            Ok (ret\<lparr>b_data := data\<rparr>)))))))"

definition push_property ::
    "('k \<Rightarrow> u32) \<Rightarrow> (u32 \<Rightarrow> 'k option) \<Rightarrow> (u32 \<Rightarrow> u32 option) \<Rightarrow> ('v, 'd) pod
      \<Rightarrow> 'k \<Rightarrow> u32 \<Rightarrow> 'v \<Rightarrow> push" where
  "push_property into try_from from_bits C k f v =
     push_pod (pod_property into try_from from_bits C) \<lparr>key = k, flags = f, value = v\<rparr>"

text \<open>Method chaining \<open>b.push_x(..).push_y(..)\<close>, and a loop \<open>for x in xs { b = b.push(x) }\<close>.\<close>

definition push_seq :: "push \<Rightarrow> push \<Rightarrow> push" where
  "push_seq f g b = rbind (f b) g"

definition push_nothing :: push where
  "push_nothing b = Ok b"

fun push_all :: "('a \<Rightarrow> push) \<Rightarrow> 'a list \<Rightarrow> push" where
  "push_all f [] = push_nothing"
| "push_all f (x # xs) = push_seq (f x) (push_all f xs)"

section \<open>What a push writes\<close>

text \<open>
  \<open>emits f I n\<close>: on an error-free builder with at least \<open>n\<close> bytes left, \<open>f\<close> appends an image
  out of \<open>I\<close> at the write position, moves the position past it, and touches nothing else.
  Images have one length \<open>s \<le> n\<close>.
\<close>

definition builder_wf :: "builder \<Rightarrow> bool" where
  "builder_wf b \<longleftrightarrow> b_error b = None \<and> b_pos b \<le> length (b_data b)"

definition room :: "builder \<Rightarrow> nat" where
  "room b = length (b_data b) - b_pos b"

definition put :: "builder \<Rightarrow> byte list \<Rightarrow> builder" where
  "put b out = b\<lparr>b_data := take (b_pos b) (b_data b) @ out @ drop (b_pos b + length out) (b_data b),
     b_pos := b_pos b + length out\<rparr>"

definition emits :: "push \<Rightarrow> (byte list \<Rightarrow> bool) \<Rightarrow> nat \<Rightarrow> nat \<Rightarrow> bool" where
  "emits f I s n \<longleftrightarrow>
     s \<le> n \<and> (\<forall>out. I out \<longrightarrow> length out = s) \<and>
     (\<forall>b. builder_wf b \<longrightarrow> n \<le> room b \<longrightarrow> (\<exists>out. I out \<and> f b = Ok (put b out)))"

text \<open>\<open>no_space_ok f n\<close>: with less than \<open>n\<close> bytes left the push records \<open>NoSpace\<close> and does not panic.\<close>

definition no_space_ok :: "push \<Rightarrow> nat \<Rightarrow> bool" where
  "no_space_ok f n \<longleftrightarrow>
     (\<forall>b. builder_wf b \<longrightarrow> room b < n \<longrightarrow> (\<exists>b'. f b = Ok b' \<and> b_error b' = Some NoSpace))"

definition sticky :: "push \<Rightarrow> bool" where
  "sticky f \<longleftrightarrow> (\<forall>b. b_error b \<noteq> None \<longrightarrow> f b = Ok b)"

definition app_img :: "(byte list \<Rightarrow> bool) \<Rightarrow> (byte list \<Rightarrow> bool) \<Rightarrow> byte list \<Rightarrow> bool" where
  "app_img I J out \<longleftrightarrow> (\<exists>a b. I a \<and> J b \<and> out = a @ b)"

definition nil_img :: "byte list \<Rightarrow> bool" where
  "nil_img out \<longleftrightarrow> out = []"

lemma sticky_push_pod [simp]: "sticky (push_pod C v)"
  by (simp add: sticky_def push_pod_def)

lemma sticky_push_struct [simp]: "sticky (push_struct f)"
  by (simp add: sticky_def push_struct_def)

lemma sticky_push_object [simp]: "sticky (push_object t i f)"
  by (simp add: sticky_def push_object_def)

lemma sticky_push_nothing [simp]: "sticky push_nothing"
  by (simp add: sticky_def push_nothing_def)

lemma sticky_push_seq [intro]: "sticky f \<Longrightarrow> sticky g \<Longrightarrow> sticky (push_seq f g)"
  by (simp add: sticky_def push_seq_def)

lemma sticky_push_all [intro]: "(\<And>x. sticky (f x)) \<Longrightarrow> sticky (push_all f xs)"
  by (induction xs) auto

lemma put_wf: "builder_wf b \<Longrightarrow> length out \<le> room b \<Longrightarrow> builder_wf (put b out)"
  by (simp add: builder_wf_def room_def put_def)

lemma put_room: "builder_wf b \<Longrightarrow> length out \<le> room b \<Longrightarrow> room (put b out) = room b - length out"
  by (auto simp: builder_wf_def room_def put_def)

lemma put_put:
  "builder_wf b \<Longrightarrow> length a + length c \<le> room b \<Longrightarrow> put (put b a) c = put b (a @ c)"
  by (simp add: builder_wf_def room_def put_def add.assoc) (simp add: ac_simps)

lemma put_Nil [simp]: "put b [] = b"
  by (simp add: put_def)

lemma emits_nothing: "emits push_nothing nil_img 0 0"
  by (simp add: emits_def nil_img_def push_nothing_def)

lemma no_space_nothing: "no_space_ok push_nothing 0"
  by (simp add: no_space_ok_def)

lemma emits_seq:
  assumes f: "emits f I s n" and g: "emits g J t m"
  shows "emits (push_seq f g) (app_img I J) (s + t) (max n (s + m))"
proof -
  have len: "length a = s" if "I a" for a
    using f that by (simp add: emits_def)
  have len': "length c = t" if "J c" for c
    using g that by (simp add: emits_def)
  have "t \<le> m"
    using g by (simp add: emits_def)
  have "\<exists>out. app_img I J out \<and> push_seq f g b = Ok (put b out)"
    if wf: "builder_wf b" and space: "max n (s + m) \<le> room b" for b
  proof -
    obtain a where a: "I a" "f b = Ok (put b a)"
      using f wf space by (auto simp: emits_def)
    have "length a \<le> room b"
      using len [OF a(1)] space by simp
    then have "builder_wf (put b a)" "m \<le> room (put b a)"
      using wf space len [OF a(1)] by (auto simp: put_wf put_room)
    then obtain c where c: "J c" "g (put b a) = Ok (put (put b a) c)"
      using g by (auto simp: emits_def)
    have "put (put b a) c = put b (a @ c)"
      using wf space len [OF a(1)] len' [OF c(1)] \<open>t \<le> m\<close> by (intro put_put) simp_all
    with a c show ?thesis
      by (auto simp: push_seq_def app_img_def)
  qed
  moreover have "length out = s + t" if "app_img I J out" for out
    using that len len' by (auto simp: app_img_def)
  ultimately show ?thesis
    using \<open>t \<le> m\<close> by (simp add: emits_def max_def)
qed

lemma no_space_seq:
  assumes "emits f I s n" and "no_space_ok f n" and "no_space_ok g m" and "sticky g"
  shows "no_space_ok (push_seq f g) (max n (s + m))"
proof -
  have "\<exists>b'. push_seq f g b = Ok b' \<and> b_error b' = Some NoSpace"
    if wf: "builder_wf b" and space: "room b < max n (s + m)" for b
  proof (cases "room b < n")
    case True
    then obtain b1 where b1: "f b = Ok b1" "b_error b1 = Some NoSpace"
      using assms(2) wf by (auto simp: no_space_ok_def)
    with assms(4) show ?thesis
      by (auto simp: push_seq_def sticky_def)
  next
    case False
    then obtain a where a: "I a" "f b = Ok (put b a)"
      using assms(1) wf by (auto simp: emits_def)
    moreover have "length a = s" "s \<le> n"
      using assms(1) a(1) by (auto simp: emits_def)
    ultimately have "builder_wf (put b a)" "room (put b a) < m"
      using wf space False by (auto simp: put_wf put_room)
    with assms(3) a show ?thesis
      by (auto simp: push_seq_def no_space_ok_def)
  qed
  then show ?thesis
    by (simp add: no_space_ok_def)
qed

section \<open>Pods, structs and objects\<close>

context pod_codec
begin

lemma emits_push_pod:
  assumes "fits v" and "\<And>out. img v out \<Longrightarrow> length out = s" and "s \<le> need v"
  shows "emits (push_pod C v) (img v) s (need v)"
proof -
  have "\<exists>out. img v out \<and> push_pod C v b = Ok (put b out)"
    if "builder_wf b" and "need v \<le> room b" for b
  proof -
    have "need v \<le> length (drop (b_pos b) (b_data b))"
      using that(2) by (simp add: room_def)
    from encode_ok [OF assms(1) this] obtain out where "img v out"
        "encode C v (drop (b_pos b) (b_data b)) =
          Ok (out @ drop (length out) (drop (b_pos b) (b_data b)), length out)"
      by blast
    with that show ?thesis
      by (intro exI [of _ out])
        (simp add: push_pod_def builder_wf_def slice_from_def put_def add.commute)
  qed
  then show ?thesis
    using assms by (simp add: emits_def)
qed

lemma no_space_push_pod: "no_space_ok (push_pod C v) (need v)"
  by (auto simp: no_space_ok_def push_pod_def builder_wf_def room_def slice_from_def
      encode_no_space)

end

definition struct_img :: "nat \<Rightarrow> (byte list \<Rightarrow> bool) \<Rightarrow> byte list \<Rightarrow> bool" where
  "struct_img s I out \<longleftrightarrow>
     (\<exists>body. I body \<and> out = u32_bytes (of_nat s) @ u32_bytes (type_u32 Type_Struct) @ body)"

definition object_img :: "object_type \<Rightarrow> u32 \<Rightarrow> nat \<Rightarrow> (byte list \<Rightarrow> bool) \<Rightarrow> byte list \<Rightarrow> bool" where
  "object_img typ ident s I out \<longleftrightarrow>
     (\<exists>body. I body \<and> out = u32_bytes (of_nat (8 + s)) @ u32_bytes (type_u32 Type_Object) @
        u32_bytes (object_type_u32 typ) @ u32_bytes ident @ body)"

lemma reserve_wf:
  "builder_wf b \<Longrightarrow> k \<le> room b \<Longrightarrow> builder_wf (b\<lparr>b_pos := b_pos b + k\<rparr>)"
  "room (b\<lparr>b_pos := b_pos b + k\<rparr>) = room b - k"
  by (auto simp: builder_wf_def room_def)

lemma copy_into_append:
  "rbind (copy_into xs a s) (\<lambda>ys. copy_into ys (a + length s) t) = copy_into xs a (s @ t)"
  by (auto simp: copy_into_def min_absorb2 ac_simps)

lemma copy_into_append_bind:
  "a' = a + length s \<Longrightarrow>
    rbind (copy_into xs a s) (\<lambda>ys. rbind (copy_into ys a' t) g) = rbind (copy_into xs a (s @ t)) g"
  by (simp add: copy_into_append [symmetric] rbind_assoc)

lemma fill_header:
  assumes "builder_wf b" and "length h = k" and "k + length out \<le> room b"
  defines "ret \<equiv> put (b\<lparr>b_pos := b_pos b + k\<rparr>) out"
  shows "rbind (copy_into (b_data ret) (b_pos b) h) (\<lambda>data. Ok (ret\<lparr>b_data := data\<rparr>)) =
    Ok (put b (h @ out))"
  using assms(1,2,3)
  by (simp add: ret_def copy_into_def builder_wf_def room_def put_def min_absorb1 min_absorb2
      add.assoc) linarith

lemma emits_push_struct:
  assumes "emits f I s n"
  shows "emits (push_struct f) (struct_img s I) (8 + s) (8 + n)"
proof -
  have "\<exists>out. struct_img s I out \<and> push_struct f b = Ok (put b out)"
    if wf: "builder_wf b" and space: "8 + n \<le> room b" for b
  proof -
    let ?b = "b\<lparr>b_pos := b_pos b + 8\<rparr>"
    let ?h = "u32_bytes (of_nat s) @ u32_bytes (type_u32 Type_Struct)"
    have "builder_wf ?b" "n \<le> room ?b"
      using wf space by (simp_all add: reserve_wf)
    then obtain out where out: "I out" "f ?b = Ok (put ?b out)" "length out = s" "s \<le> n"
      using assms by (auto simp: emits_def)
    have "b_error b = None" "8 \<le> length (b_data b)"
      using wf space by (auto simp: builder_wf_def room_def)
    moreover have "b_error (put ?b out) = b_error b" "b_pos (put ?b out) = b_pos b + (8 + s)"
      using out(3) by (simp_all add: put_def)
    ultimately have "push_struct f b = rbind (copy_into (b_data (put ?b out)) (b_pos b) ?h)
        (\<lambda>data. Ok ((put ?b out)\<lparr>b_data := data\<rparr>))"
      using out by (simp add: push_struct_def copy_into_append_bind Let_def)
    also have "\<dots> = Ok (put b (?h @ out))"
      using wf space out by (intro fill_header) simp_all
    finally show ?thesis
      using out by (intro exI [of _ "?h @ out"]) (auto simp: struct_img_def)
  qed
  moreover have "length out = 8 + s" if "struct_img s I out" for out
    using that assms by (auto simp: struct_img_def emits_def)
  ultimately show ?thesis
    using assms by (simp add: emits_def)
qed

lemma emits_push_object:
  assumes "emits f I s n"
  shows "emits (push_object typ ident f) (object_img typ ident s I) (16 + s) (16 + n)"
proof -
  have "\<exists>out. object_img typ ident s I out \<and> push_object typ ident f b = Ok (put b out)"
    if wf: "builder_wf b" and space: "16 + n \<le> room b" for b
  proof -
    let ?b = "b\<lparr>b_pos := b_pos b + 16\<rparr>"
    let ?h = "u32_bytes (of_nat (8 + s)) @ u32_bytes (type_u32 Type_Object) @
      u32_bytes (object_type_u32 typ) @ u32_bytes ident"
    have "builder_wf ?b" "n \<le> room ?b"
      using wf space by (simp_all add: reserve_wf)
    then obtain out where out: "I out" "f ?b = Ok (put ?b out)" "length out = s" "s \<le> n"
      using assms by (auto simp: emits_def)
    have "b_error b = None" "16 \<le> length (b_data b)"
      using wf space by (auto simp: builder_wf_def room_def)
    moreover have "b_error (put ?b out) = b_error b" "b_pos (put ?b out) = b_pos b + (16 + s)"
      using out(3) by (simp_all add: put_def)
    ultimately have "push_object typ ident f b =
        rbind (copy_into (b_data (put ?b out)) (b_pos b) ?h)
        (\<lambda>data. Ok ((put ?b out)\<lparr>b_data := data\<rparr>))"
      using out by (simp add: push_object_def copy_into_append_bind Let_def)
    also have "\<dots> = Ok (put b (?h @ out))"
      using wf space out by (intro fill_header) simp_all
    finally show ?thesis
      using out by (intro exI [of _ "?h @ out"]) (auto simp: object_img_def)
  qed
  moreover have "length out = 16 + s" if "object_img typ ident s I out" for out
    using that assms by (auto simp: object_img_def emits_def)
  ultimately show ?thesis
    using assms by (simp add: emits_def)
qed

text \<open>
  A struct or object at the start of a buffer reports a short buffer as \<open>NoSpace\<close>. Behind other
  data that fills the buffer it does not: see \<open>push_struct_full\<close>.
\<close>

definition start_no_space :: "push \<Rightarrow> nat \<Rightarrow> bool" where
  "start_no_space f n \<longleftrightarrow>
     (\<forall>data. length data < n \<longrightarrow>
       (\<exists>b'. f (builder_new data) = Ok b' \<and> b_error b' = Some NoSpace))"

lemma start_no_space_struct:
  assumes "no_space_ok f n"
  shows "start_no_space (push_struct f) (8 + n)"
proof -
  have "\<exists>b'. push_struct f (builder_new data) = Ok b' \<and> b_error b' = Some NoSpace"
    if "length data < 8 + n" for data
  proof (cases "length data < 8")
    case False
    let ?b = "(builder_new data)\<lparr>b_pos := 8\<rparr>"
    have "builder_wf ?b" "room ?b < n"
      using that False by (auto simp: builder_wf_def builder_new_def room_def)
    then obtain b' where "f ?b = Ok b'" "b_error b' = Some NoSpace"
      using assms by (auto simp: no_space_ok_def)
    with False show ?thesis
      by (auto simp: push_struct_def builder_new_def)
  qed (simp add: push_struct_def builder_new_def)
  then show ?thesis
    by (simp add: start_no_space_def)
qed

lemma push_struct_full:
  assumes "b_error b = None" and "8 \<le> length (b_data b)" and "room b < 8"
    and "b_pos b \<le> length (b_data b)"
  shows "push_struct (push_seq (push_pod C v) g) b = Panic"
  using assms by (auto simp add: push_struct_def push_seq_def push_pod_def room_def slice_from_def Let_def)

text \<open>A built buffer holds exactly the image.\<close>

lemma build_start:
  assumes "emits f I s n" and "n \<le> length data"
  shows "\<exists>out. I out \<and> rbind (f (builder_new data)) build = Ok out"
proof -
  have "builder_wf (builder_new data)" "n \<le> room (builder_new data)"
    using assms(2) by (simp_all add: builder_wf_def room_def builder_new_def)
  then obtain out where out: "I out" "f (builder_new data) = Ok (put (builder_new data) out)"
    using assms(1) by (auto simp: emits_def)
  moreover have "length out \<le> length data"
    using assms out(1) by (auto simp: emits_def)
  ultimately show ?thesis
    by (auto simp: build_def put_def builder_new_def subslice_def)
qed

lemma emits_all:
  assumes "\<And>x. x \<in> set xs \<Longrightarrow> emits (f x) (I x) (s x) (s x)"
  shows "emits (push_all f xs) (foldr (\<lambda>x. app_img (I x)) xs nil_img)
    (sum_list (map s xs)) (sum_list (map s xs))"
  using assms
proof (induction xs)
  case Nil
  then show ?case
    by (simp add: emits_nothing)
next
  case (Cons x xs)
  have "emits (push_all f xs) (foldr (\<lambda>x. app_img (I x)) xs nil_img)
      (sum_list (map s xs)) (sum_list (map s xs))"
    using Cons by simp
  from emits_seq [OF Cons.prems [of x] this] show ?case
    by simp
qed

end
