(* ===== verification/Pod_Parser.thy ===== *)
theory Pod_Parser
  imports Pod_Builder
begin

text \<open>
  \<^verbatim>\<open>spa/src/pod/parser.rs\<close>. A parser borrows a buffer and holds a read position. Its methods take
  \<open>&mut self\<close> and return a \<open>Result\<close>: they are functions from a parser to a result and the
  parser they leave behind, also on the error paths. \<open>ObjectParser\<close> and \<open>ObjectParserRaw\<close>
  have the same two fields and share the record.
\<close>

record parser =
  p_data :: "byte list"
  p_pos :: nat

type_synonym 'a parse = "parser \<Rightarrow> 'a pod_result \<times> parser"

text \<open>The \<open>?\<close> operator between calls on one parser, and a result that leaves it alone.\<close>

definition pbind :: "'a parse \<Rightarrow> ('a \<Rightarrow> 'b parse) \<Rightarrow> 'b parse" where
  "pbind f g p = (case f p of
       (Ok x, p') \<Rightarrow> g x p'
     | (Err e, p') \<Rightarrow> (Err e, p')
     | (Panic, p') \<Rightarrow> (Panic, p'))"

definition lift_result :: "'a pod_result \<Rightarrow> 'a parse" where
  "lift_result r p = (r, p)"

abbreviation preturn :: "'a \<Rightarrow> 'a parse" where
  "preturn x \<equiv> lift_result (Ok x)"

definition advance :: "nat \<Rightarrow> unit parse" where
  "advance n p = (Ok (), p\<lparr>p_pos := p_pos p + n\<rparr>)"

definition parser_new :: "byte list \<Rightarrow> parser" where
  "parser_new data = \<lparr>p_data = data, p_pos = 0\<rparr>"

definition available :: "parser \<Rightarrow> nat" where
  "available p = length (p_data p) - p_pos p"

definition pop_pod :: "('a, 'd) pod \<Rightarrow> 'd parse" where
  "pop_pod C p =
     pbind (lift_result (rbind (slice_from (p_data p) (p_pos p)) (\<lambda>d.
       rbind (decode C d) (\<lambda>(res, size).
       if size > available p then Err (Invalid Decoded_pod_exceeds_available_data)
       else rbind (ok_or (checked_add_usize (p_pos p) size) (Invalid Parser_position_overflow))
         (\<lambda>pos. Ok (res, pos))))))
     (\<lambda>(res, pos) p. (Ok res, p\<lparr>p_pos := pos\<rparr>)) p"

definition pop_none :: "unit parse" where
  "pop_none = pop_pod (pod_prim prim_unit)"

definition pop_bool :: "bool parse" where
  "pop_bool = pop_pod (pod_prim prim_bool)"

definition pop_id :: "('t \<Rightarrow> u32) \<Rightarrow> (u32 \<Rightarrow> 't option) \<Rightarrow> 't id parse" where
  "pop_id into try_from = pop_pod (pod_prim (prim_id into try_from))"

definition pop_int :: "i32 parse" where
  "pop_int = pop_pod (pod_prim prim_i32)"

definition pop_long :: "i64 parse" where
  "pop_long = pop_pod (pod_prim prim_i64)"

definition pop_float :: "u32 parse" where
  "pop_float = pop_pod (pod_prim prim_f32)"

definition pop_double :: "u64 parse" where
  "pop_double = pop_pod (pod_prim prim_f64)"

definition pop_string :: "byte list parse" where
  "pop_string = pop_pod pod_string"

definition pop_bytes :: "byte list parse" where
  "pop_bytes = pop_pod pod_bytes"

definition pop_pointer :: "pointer parse" where
  "pop_pointer = pop_pod pod_pointer"

definition pop_fd :: "fd parse" where
  "pop_fd = pop_pod (pod_prim prim_fd)"

definition pop_rectangle :: "rectangle parse" where
  "pop_rectangle = pop_pod (pod_prim prim_rectangle)"

definition pop_fraction :: "fraction parse" where
  "pop_fraction = pop_pod (pod_prim prim_fraction)"

definition pop_array :: "'a primitive \<Rightarrow> 'a list parse" where
  "pop_array P = pop_pod (pod_array P)"

definition pop_choice :: "'a primitive \<Rightarrow> 'a choice parse" where
  "pop_choice P = pop_pod (pod_choice P)"

text \<open>
  The closures of the raw array and choice parsers are \<open>FnMut\<close> and \<open>FnOnce\<close>: they take the
  variables they capture as a state and return it, also when they fail.
\<close>

definition array_raw_header :: "parser \<Rightarrow> (nat \<times> nat \<times> pod_type \<times> byte list) pod_result" where
  "array_raw_header p =
     (if available p < 16 then Err (Invalid (Not_enough_data S_array))
      else rbind (u32_at (p_data p) (p_pos p)) (\<lambda>sz. let size = unat sz in
        if size < 8 then Err (Invalid (Body_smaller_than_header Type_Array))
        else rbind (pod_total_size size) (\<lambda>total_size.
          if available p < total_size then Err (Invalid (Not_enough_data S_struct))
          else rbind (u32_at (p_data p) (p_pos p + 4)) (\<lambda>t.
            if t \<noteq> type_u32 Type_Array then Err (Invalid (Type_is_not t Type_Array))
            else rbind (u32_at (p_data p) (p_pos p + 8)) (\<lambda>cs. let child_size = unat cs in
              if child_size = 0 then Err (Invalid (Child_size_is_zero Type_Array))
              else rbind (u32_at (p_data p) (p_pos p + 12)) (\<lambda>ct.
                rbind (ok_or (type_try_from ct) (Invalid Could_not_parse_child_type)) (\<lambda>child_type.
                let elements_size = size - 8; body_start = p_pos p + 16 in
                if elements_size mod child_size \<noteq> 0 then Err (Invalid (Partial_child Type_Array))
                else rbind (subslice (p_data p) body_start (body_start + elements_size)) (\<lambda>body.
                  Ok (total_size, child_size, child_type, body)))))))))"

fun parse_items ::
    "(pod_type \<Rightarrow> byte list \<Rightarrow> 's \<Rightarrow> unit pod_result \<times> 's) \<Rightarrow> pod_type \<Rightarrow> byte list list \<Rightarrow> 's
      \<Rightarrow> unit pod_result \<times> 's" where
  "parse_items parse_item typ [] s = (Ok (), s)"
| "parse_items parse_item typ (body # bodies) s =
     (case parse_item typ body s of
        (Ok _, s') \<Rightarrow> parse_items parse_item typ bodies s'
      | (Err e, s') \<Rightarrow> (Err e, s')
      | (Panic, s') \<Rightarrow> (Panic, s'))"

definition pop_array_raw ::
    "(pod_type \<Rightarrow> byte list \<Rightarrow> 's \<Rightarrow> unit pod_result \<times> 's) \<Rightarrow> 's \<Rightarrow> parser
      \<Rightarrow> (nat pod_result \<times> parser) \<times> 's" where
  "pop_array_raw parse_item s p =
     (case rbind (array_raw_header p) (\<lambda>(total_size, child_size, child_type, body).
         rbind (chunks_exact child_size body) (\<lambda>bodies. Ok (total_size, child_type, bodies))) of
        Ok (total_size, child_type, bodies) \<Rightarrow>
          (case parse_items parse_item child_type bodies s of
             (r, s') \<Rightarrow> (pbind (lift_result r) (\<lambda>_. pbind (advance total_size)
               (\<lambda>_. preturn total_size)) p, s'))
      | Err e \<Rightarrow> ((Err e, p), s)
      | Panic \<Rightarrow> ((Panic, p), s))"

definition choice_raw_header :: "byte list \<Rightarrow> (nat \<times> pod_type \<times> byte list choice) pod_result" where
  "choice_raw_header data =
     (if length data < 24 then Err (Invalid (Not_enough_data S_choice))
      else rbind (u32_at data 0) (\<lambda>sz. let size = unat sz in
        if size < 16 then Err (Invalid (Body_smaller_than_header Type_Choice))
        else rbind (pod_total_size size) (\<lambda>total_size.
          if length data < total_size then Err (Invalid (Not_enough_data S_choice))
          else rbind (u32_at data 4) (\<lambda>t.
            if t \<noteq> type_u32 Type_Choice then Err (Invalid (Type_is_not t Type_Choice))
            else rbind (u32_at data 8) (\<lambda>choice_type.
              rbind (u32_at data 16) (\<lambda>cs. let child_size = unat cs in
              if child_size = 0 then Err (Invalid (Child_size_is_zero Type_Choice))
              else rbind (u32_at data 20) (\<lambda>ct.
                rbind (ok_or (type_try_from ct) (Invalid Invalid_child_type_in_choice)) (\<lambda>child_type.
                let children_size = size - 16 in
                if children_size mod child_size \<noteq> 0 then Err (Invalid (Partial_child Type_Choice))
                else rbind (choice_match Ok data child_size (children_size div child_size) choice_type)
                  (\<lambda>choice. Ok (total_size, child_type, choice))))))))))"

definition pop_choice_raw ::
    "(pod_type \<Rightarrow> byte list choice \<Rightarrow> 's \<Rightarrow> unit pod_result \<times> 's) \<Rightarrow> 's \<Rightarrow> parser
      \<Rightarrow> (nat pod_result \<times> parser) \<times> 's" where
  "pop_choice_raw parse_choice s p =
     (case rbind (slice_from (p_data p) (p_pos p)) choice_raw_header of
        Ok (total_size, child_type, choice) \<Rightarrow>
          (case parse_choice child_type choice s of
             (r, s') \<Rightarrow> (pbind (lift_result r) (\<lambda>_. pbind (advance total_size)
               (\<lambda>_. preturn total_size)) p, s'))
      | Err e \<Rightarrow> ((Err e, p), s)
      | Panic \<Rightarrow> ((Panic, p), s))"

text \<open>A struct is parsed by a fresh parser on its body.\<close>

definition struct_header :: "parser \<Rightarrow> (nat \<times> byte list) pod_result" where
  "struct_header p =
     (if available p < 8 then Err (Invalid (Not_enough_data S_struct))
      else rbind (u32_at (p_data p) (p_pos p)) (\<lambda>sz. let size = unat sz in
        rbind (pod_total_size size) (\<lambda>total_size.
          if available p < total_size then Err (Invalid (Not_enough_data S_struct))
          else rbind (u32_at (p_data p) (p_pos p + 4)) (\<lambda>t.
            if t \<noteq> type_u32 Type_Struct then Err (Invalid (Type_is_not t Type_Struct))
            else rbind (subslice (p_data p) (p_pos p + 8) (p_pos p + 8 + size)) (\<lambda>body.
              Ok (total_size, body))))))"

definition pop_struct :: "'a parse \<Rightarrow> ('a \<times> nat) parse" where
  "pop_struct parse_struct p =
     pbind (lift_result (struct_header p)) (\<lambda>(total_size, body).
     pbind (lift_result (fst (parse_struct (parser_new body)))) (\<lambda>ret.
     pbind (advance total_size) (\<lambda>_. preturn (ret, total_size)))) p"

text \<open>
  An object parser moves past the 16 byte header before it calls the closure: when the closure
  fails, the position stays there.
\<close>

definition object_header :: "(u32 \<Rightarrow> 'i option) \<Rightarrow> parser \<Rightarrow> (nat \<times> nat \<times> object_type \<times> 'i) pod_result" where
  "object_header id_try_from p =
     (if available p < 16 then Err (Invalid (Not_enough_data S_object))
      else rbind (u32_at (p_data p) (p_pos p)) (\<lambda>sz. let size = unat sz in
        if size < 8 then Err (Invalid (Body_smaller_than_header Type_Object))
        else rbind (pod_total_size size) (\<lambda>total_size.
          if available p < total_size then Err (Invalid (Not_enough_data S_object))
          else rbind (u32_at (p_data p) (p_pos p + 4)) (\<lambda>t.
            if t \<noteq> type_u32 Type_Object then Err (Invalid (Type_is_not t Type_Object))
            else rbind (u32_at (p_data p) (p_pos p + 8)) (\<lambda>ot.
              rbind (ok_or (object_type_try_from ot) (Invalid Could_not_decode_object_type)) (\<lambda>object_type.
              rbind (u32_at (p_data p) (p_pos p + 12)) (\<lambda>i.
              rbind (ok_or (id_try_from i) (Invalid Could_not_decode_id)) (\<lambda>ident.
              Ok (size, total_size, object_type, ident)))))))))"

definition object_body :: "nat \<Rightarrow> nat \<Rightarrow> 'a parse \<Rightarrow> ('a \<times> nat) parse" where
  "object_body body_size total_size parse_object =
     pbind (advance 16) (\<lambda>_ p.
     pbind (lift_result (subslice (p_data p) (p_pos p) (p_pos p + body_size - 8))) (\<lambda>body.
     pbind (lift_result (fst (parse_object (parser_new body)))) (\<lambda>ret.
     pbind (advance (body_size - 8 + pad_8 body_size)) (\<lambda>_. preturn (ret, total_size)))) p)"

definition pop_object ::
    "object_type \<Rightarrow> (u32 \<Rightarrow> 'i option) \<Rightarrow> ('i \<Rightarrow> 'a parse) \<Rightarrow> ('a \<times> nat) parse" where
  "pop_object k_type id_try_from parse_object p =
     pbind (lift_result (object_header id_try_from p)) (\<lambda>(body_size, total_size, object_type, ident).
       if object_type \<noteq> k_type then lift_result (Err (Invalid (Unexpected_object_type object_type)))
       else object_body body_size total_size (parse_object ident)) p"

definition pop_object_raw ::
    "(u32 \<Rightarrow> 'i option) \<Rightarrow> (object_type \<Rightarrow> 'i \<Rightarrow> 'a parse) \<Rightarrow> ('a \<times> nat) parse" where
  "pop_object_raw id_try_from parse_object p =
     pbind (lift_result (object_header id_try_from p)) (\<lambda>(body_size, total_size, object_type, ident).
       object_body body_size total_size (parse_object object_type ident)) p"

definition pop_raw_pod :: "raw_pod parse" where
  "pop_raw_pod p =
     pbind (lift_result (rbind (slice_from (p_data p) (p_pos p)) raw_pod_wrap)) (\<lambda>res.
     pbind (advance (rp_size res)) (\<lambda>_. preturn res)) p"

text \<open>Properties of an object; \<open>from_bits\<close> is \<open>PropertyFlags::from_bits\<close>.\<close>

definition property_value :: "raw_pod parse" where
  "property_value =
     pbind (advance 8) (\<lambda>_ p.
     pbind (lift_result (rbind (slice_from (p_data p) (p_pos p)) raw_pod_wrap)) (\<lambda>data.
     pbind (advance (rp_size data)) (\<lambda>_. preturn data)) p)"

definition pop_property ::
    "(u32 \<Rightarrow> 'k option) \<Rightarrow> (u32 \<Rightarrow> 'f option) \<Rightarrow> ('k \<times> 'f \<times> raw_pod) option parse" where
  "pop_property k_try_from from_bits p =
     (if available p = 0 then (Ok None, p)
      else if available p < 16 then (Err (Invalid (Not_enough_data S_object_property)), p)
      else pbind (lift_result (rbind (u32_at (p_data p) (p_pos p)) (\<lambda>k.
          ok_or (k_try_from k) (Invalid Could_not_decode_key)))) (\<lambda>key.
        pbind (lift_result (rbind (u32_at (p_data p) (p_pos p + 4)) (\<lambda>f.
          ok_or (from_bits f) (Invalid Could_not_decode_flags)))) (\<lambda>flags.
        pbind property_value (\<lambda>data. preturn (Some (key, flags, data))))) p)"

definition pop_property_raw :: "(u32 \<Rightarrow> 'f option) \<Rightarrow> (u32 \<times> 'f \<times> raw_pod) option parse" where
  "pop_property_raw from_bits p =
     (if available p = 0 then (Ok None, p)
      else if available p < 16 then (Err (Invalid (Not_enough_data S_object_property)), p)
      else pbind (lift_result (u32_at (p_data p) (p_pos p))) (\<lambda>key.
        pbind (lift_result (rbind (u32_at (p_data p) (p_pos p + 4)) (\<lambda>f.
          ok_or (from_bits f) (Invalid Could_not_decode_flags)))) (\<lambda>flags.
        pbind property_value (\<lambda>data. preturn (Some (key, flags, data))))) p)"

text \<open>\<open>Iterator::next\<close>: an error ends the iteration like the end of the data.\<close>

definition next_item :: "'a option parse \<Rightarrow> 'a option parse" where
  "next_item pop p =
     (case pop p of (Err e, p') \<Rightarrow> (Ok None, p') | res \<Rightarrow> res)"

section \<open>Parsing never panics and never leaves the buffer\<close>

definition parser_wf :: "parser \<Rightarrow> bool" where
  "parser_wf p \<longleftrightarrow> p_pos p \<le> length (p_data p)"

definition stays :: "parser \<Rightarrow> 'a pod_result \<times> parser \<Rightarrow> bool" where
  "stays p res \<longleftrightarrow> (case res of (r, p') \<Rightarrow>
     r \<noteq> Panic \<and> parser_wf p' \<and> p_data p' = p_data p \<and> p_pos p \<le> p_pos p')"

definition parse_safe :: "'a parse \<Rightarrow> bool" where
  "parse_safe f \<longleftrightarrow> (\<forall>p. parser_wf p \<longrightarrow> stays p (f p))"

named_theorems safe_intros \<open>operations that are safe for every parser\<close>

lemma parse_safeD: "parse_safe f \<Longrightarrow> parser_wf p \<Longrightarrow> stays p (f p)"
  by (simp add: parse_safe_def)

lemma pbind_lift [simp]: "pbind (lift_result (Ok x)) g p = g x p"
  by (simp add: pbind_def lift_result_def)

lemma pbind_advance: "pbind (advance n) g p = g () (p\<lparr>p_pos := p_pos p + n\<rparr>)"
  by (simp add: pbind_def advance_def)

lemma pbind_result:
  "pbind (lift_result r) g p = (case r of Ok x \<Rightarrow> g x p | Err e \<Rightarrow> (Err e, p) | Panic \<Rightarrow> (Panic, p))"
  by (simp add: pbind_def lift_result_def split: result.splits)

lemma stays_pbind:
  assumes "stays p (f p)" and "\<And>x p'. f p = (Ok x, p') \<Longrightarrow> stays p (g x p')"
  shows "stays p (pbind f g p)"
  using assms by (cases "f p"; cases "fst (f p)") (auto simp: pbind_def stays_def)

lemma stays_trans:
  "stays p (r, p') \<Longrightarrow> stays p' res \<Longrightarrow> stays p res"
  by (auto simp: stays_def)

lemma safe_pbind [safe_intros]:
  assumes "parse_safe f" and "\<And>x. parse_safe (g x)"
  shows "parse_safe (pbind f g)"
  unfolding parse_safe_def
proof (intro allI impI stays_pbind)
  fix p assume wf: "parser_wf p"
  show first: "stays p (f p)"
    by (rule parse_safeD [OF assms(1) wf])
  fix x p' assume f: "f p = (Ok x, p')"
  with first have "parser_wf p'"
    by (simp add: stays_def)
  with first f show "stays p (g x p')"
    using parse_safeD [OF assms(2)] by (auto intro: stays_trans)
qed

lemma safe_lift [safe_intros]: "r \<noteq> Panic \<Longrightarrow> parse_safe (lift_result r)"
  by (simp add: parse_safe_def lift_result_def stays_def)

lemma safe_if [safe_intros]: "parse_safe f \<Longrightarrow> parse_safe g \<Longrightarrow> parse_safe (if b then f else g)"
  by simp

lemma stays_advance:
  "parser_wf p \<Longrightarrow> n \<le> available p \<Longrightarrow> stays p (preturn x (p\<lparr>p_pos := p_pos p + n\<rparr>))"
  by (auto simp: stays_def parser_wf_def available_def lift_result_def)

lemma stays_error: "parser_wf p \<Longrightarrow> stays p (lift_result (Err e) p)"
  by (simp add: stays_def lift_result_def)

text \<open>An operation that reads its own position: a total result, then a move inside the buffer.\<close>

lemma safe_move:
  assumes "\<And>p. f p = pbind (lift_result (r p)) g p"
    and "\<And>p. parser_wf p \<Longrightarrow> r p \<noteq> Panic"
    and "\<And>p x. parser_wf p \<Longrightarrow> r p = Ok x \<Longrightarrow> stays p (g x p)"
  shows "parse_safe f"
  using assms by (auto simp: parse_safe_def pbind_result stays_def split: result.splits)

lemma parser_new_wf [simp]: "parser_wf (parser_new d)"
  by (simp add: parser_wf_def parser_new_def)

lemma safe_new: "parse_safe f \<Longrightarrow> fst (f (parser_new d)) \<noteq> Panic"
  using parse_safeD [of f "parser_new d"] by (auto simp: stays_def)

lemma stays_inner:
  assumes "parse_safe f" and "parser_wf p" and "n \<le> available p"
  shows "stays p (pbind (lift_result (fst (f (parser_new d)))) (\<lambda>x.
    pbind (advance n) (\<lambda>_. preturn (g x))) p)"
  using safe_new [OF assms(1), of d] assms(2,3)
  by (cases "fst (f (parser_new d))") (simp_all add: pbind_result pbind_advance stays_advance, simp_all add: stays_def)

context pod_codec
begin

lemma safe_pop_pod: "parse_safe (pop_pod C)"
  by (rule safe_move [OF pop_pod_def])
    (auto simp: panic_simps ok_simps parser_wf_def decode_total available_def ok_or_def stays_def
      checked_add_usize_def dest: decode_consumes split: if_splits option.splits prod.splits)

end

lemma raw_wrap_size: "raw_pod_wrap d = Ok v \<Longrightarrow> rp_size v \<le> length d \<and> 8 \<le> rp_size v"
  using raw_owned_wrap_Ok(2,3) [of d v] by (simp add: raw_wrap_agree)

lemma raw_wrap_total: "raw_pod_wrap d \<noteq> Panic"
  using raw_owned_wrap_total [of d] by (simp add: raw_wrap_agree)

lemma safe_raw_step:
  assumes "parser_wf p"
  shows "stays p (pbind (lift_result (rbind (slice_from (p_data p) (p_pos p)) raw_pod_wrap)) (\<lambda>res.
     pbind (advance (rp_size res)) (\<lambda>_. preturn res)) p)"
  using assms raw_wrap_total [of "drop (p_pos p) (p_data p)"]
    raw_wrap_size [of "drop (p_pos p) (p_data p)"]
  by (cases "raw_pod_wrap (drop (p_pos p) (p_data p))")
    (auto simp: pbind_result pbind_advance parser_wf_def slice_from_def stays_def lift_result_def
      available_def split: result.splits)

lemma safe_pop_raw_pod [safe_intros]: "parse_safe pop_raw_pod"
  by (simp add: parse_safe_def pop_raw_pod_def safe_raw_step)

lemma struct_header_total: "parser_wf p \<Longrightarrow> struct_header p \<noteq> Panic"
  by (auto simp: struct_header_def Let_def panic_simps ok_simps available_def parser_wf_def
      split: if_splits)

lemma struct_header_bounds: "struct_header p = Ok (n, body) \<Longrightarrow> 8 \<le> n \<and> n \<le> available p"
  by (auto simp: struct_header_def Let_def ok_simps split: if_splits)

lemma safe_pop_struct [safe_intros]: "parse_safe f \<Longrightarrow> parse_safe (pop_struct f)"
  by (rule safe_move [OF pop_struct_def])
    (auto simp: struct_header_total intro!: stays_inner dest: struct_header_bounds)

lemma object_header_total: "parser_wf p \<Longrightarrow> object_header i p \<noteq> Panic"
  by (auto simp: object_header_def Let_def panic_simps ok_simps available_def parser_wf_def
      split: if_splits)

lemma object_header_bounds:
  assumes "object_header i p = Ok (n, tot, t, ident)"
  shows "8 \<le> n" and "tot = 8 + n + pad_8 n" and "8 + n + pad_8 n \<le> available p"
  using assms by (auto simp: object_header_def Let_def ok_simps split: if_splits)

lemma object_body_safe:
  assumes "parse_safe f" and "parser_wf p" and "8 \<le> n" and "8 + n + pad_8 n \<le> available p"
  shows "stays p (object_body n tot f p)"
proof -
  let ?p = "p\<lparr>p_pos := p_pos p + 16\<rparr>"
  have wf: "parser_wf ?p" "n - 8 + pad_8 n \<le> available ?p"
    using assms(2,3,4) by (auto simp: parser_wf_def available_def)
  have "p_pos p + 16 + n - 8 \<le> length (p_data p)"
    using assms(2,3,4) by (auto simp: parser_wf_def available_def)
  then have "object_body n tot f p = pbind (lift_result (fst (f (parser_new
      (take (n - 8) (drop (p_pos p + 16) (p_data p))))))) (\<lambda>ret.
      pbind (advance (n - 8 + pad_8 n)) (\<lambda>_. preturn (ret, tot))) ?p"
    using assms(3) by (simp add: object_body_def subslice_Ok pbind_advance [of 16])
  moreover have "stays p (Ok (), ?p)"
    using wf by (simp add: stays_def)
  ultimately show ?thesis
    using stays_inner [OF assms(1) wf, of _ "\<lambda>ret. (ret, tot)"] by (auto intro: stays_trans)
qed

lemma safe_pop_object [safe_intros]:
  "(\<And>i. parse_safe (f i)) \<Longrightarrow> parse_safe (pop_object k id_try_from f)"
  by (rule safe_move [OF pop_object_def])
    (auto simp: object_header_total object_header_bounds stays_error intro!: object_body_safe)

lemma safe_pop_object_raw [safe_intros]:
  "(\<And>t i. parse_safe (f t i)) \<Longrightarrow> parse_safe (pop_object_raw id_try_from f)"
  by (rule safe_move [OF pop_object_raw_def])
    (auto simp: object_header_total object_header_bounds intro!: object_body_safe)

lemma property_value_safe:
  assumes "parser_wf p" and "8 \<le> available p"
  shows "stays p (property_value p)"
proof -
  let ?p = "p\<lparr>p_pos := p_pos p + 8\<rparr>"
  have "parser_wf ?p"
    using assms by (auto simp: parser_wf_def available_def)
  then have "stays ?p (property_value p)"
    using safe_raw_step [of ?p] by (simp add: property_value_def pbind_advance [of 8])
  moreover have "stays p (Ok (), ?p)"
    using \<open>parser_wf ?p\<close> by (simp add: stays_def)
  ultimately show ?thesis
    by (rule stays_trans [rotated])
qed

lemma stays_lift:
  "parser_wf p \<Longrightarrow> r \<noteq> Panic \<Longrightarrow> (\<And>x. r = Ok x \<Longrightarrow> stays p (g x p)) \<Longrightarrow>
    stays p (pbind (lift_result r) g p)"
  by (cases r) (simp_all add: pbind_result stays_def)

lemma stays_property_value:
  assumes "parser_wf p" and "8 \<le> available p"
  shows "stays p (pbind property_value (\<lambda>data. preturn (g data)) p)"
  using property_value_safe [OF assms]
  by (rule stays_pbind) (use property_value_safe [OF assms] in \<open>simp add: stays_def lift_result_def\<close>)

lemma property_header_total:
  assumes "\<not> available p < 16"
  shows "rbind (u32_at (p_data p) (p_pos p)) (\<lambda>k. ok_or (f k) e) \<noteq> Panic"
    and "rbind (u32_at (p_data p) (p_pos p + 4)) (\<lambda>k. ok_or (f k) e) \<noteq> Panic"
    and "u32_at (p_data p) (p_pos p) \<noteq> Panic"
  using assms by (auto simp: panic_simps available_def)

lemma safe_pop_property [safe_intros]: "parse_safe (pop_property k_try_from from_bits)"
proof -
  have "stays p (pop_property k_try_from from_bits p)" if "parser_wf p" for p
    using that
    by (auto simp: pop_property_def property_header_total stays_def [of p "(Ok None, p)"]
        stays_def [of p "(Err _, p)"] intro!: stays_lift stays_property_value)
  then show ?thesis
    by (simp add: parse_safe_def)
qed

lemma safe_pop_property_raw [safe_intros]: "parse_safe (pop_property_raw from_bits)"
proof -
  have "stays p (pop_property_raw from_bits p)" if "parser_wf p" for p
    using that
    by (auto simp: pop_property_raw_def property_header_total stays_def [of p "(Ok None, p)"]
        stays_def [of p "(Err _, p)"] intro!: stays_lift stays_property_value)
  then show ?thesis
    by (simp add: parse_safe_def)
qed

lemma safe_next_item [safe_intros]:
  assumes "parse_safe f"
  shows "parse_safe (next_item f)"
proof -
  have "stays p (next_item f p)" if "parser_wf p" for p
    using parse_safeD [OF assms that]
    by (cases "f p"; cases "fst (f p)") (simp_all add: next_item_def stays_def)
  then show ?thesis
    by (simp add: parse_safe_def)
qed

text \<open>Every property consumes at least 16 bytes, so the iteration over an object ends.\<close>

lemma property_value_advances:
  assumes "property_value p = (Ok v, p')"
  shows "p_pos p + 16 \<le> p_pos p'"
proof -
  let ?r = "rbind (slice_from (p_data p) (p_pos p + 8)) raw_pod_wrap"
  have "property_value p = (case ?r of
      Ok v \<Rightarrow> (Ok v, p\<lparr>p_pos := p_pos p + 8 + rp_size v\<rparr>)
    | Err e \<Rightarrow> (Err e, p\<lparr>p_pos := p_pos p + 8\<rparr>) | Panic \<Rightarrow> (Panic, p\<lparr>p_pos := p_pos p + 8\<rparr>))"
    by (simp add: property_value_def pbind_result pbind_advance lift_result_def split: result.splits)
  with assms have "?r = Ok v" "p' = p\<lparr>p_pos := p_pos p + 8 + rp_size v\<rparr>"
    by (simp_all split: result.splits)
  then show ?thesis
    using raw_wrap_size [of _ v] by (auto simp: rbind_eq_Ok_iff)
qed

lemma pop_property_advances:
  assumes "pop_property k from_bits p = (Ok (Some x), p')"
  shows "p_pos p + 16 \<le> p_pos p'"
  using assms
  by (auto simp: pop_property_def pbind_result lift_result_def pbind_def [of property_value]
      dest!: property_value_advances split: if_splits result.splits prod.splits)

lemma array_raw_header_total: "parser_wf p \<Longrightarrow> array_raw_header p \<noteq> Panic"
  by (auto simp: array_raw_header_def Let_def panic_simps ok_simps available_def parser_wf_def
      split: if_splits)

lemma array_raw_header_bounds:
  assumes "array_raw_header p = Ok (n, child_size, t, body)"
  shows "n \<le> available p" and "child_size \<noteq> 0"
  using assms by (auto simp: array_raw_header_def Let_def ok_simps split: if_splits)

lemma parse_items_total:
  "(\<And>body s. body \<in> set bodies \<Longrightarrow> fst (f t body s) \<noteq> Panic) \<Longrightarrow> fst (parse_items f t bodies s) \<noteq> Panic"
proof (induction bodies arbitrary: s)
  case (Cons body bodies)
  then have "fst (f t body s) \<noteq> Panic" "\<And>s. fst (parse_items f t bodies s) \<noteq> Panic"
    by simp_all
  then show ?case
    by (auto split: prod.splits result.splits)
qed simp

lemma pop_array_raw_safe:
  assumes "\<And>t body s. fst (f t body s) \<noteq> Panic" and "parser_wf p"
  shows "stays p (fst (pop_array_raw f s p))"
proof (cases "array_raw_header p")
  case (Ok x)
  obtain n child_size t body where x: "x = (n, child_size, t, body)"
    by (cases x)
  obtain r s' where items: "parse_items f t (chunks_list child_size body) s = (r, s')"
    by (cases "parse_items f t (chunks_list child_size body) s")
  with parse_items_total [of _ f t s] assms(1) have "r \<noteq> Panic"
    by (metis fst_conv)
  with Ok x items array_raw_header_bounds [of p n child_size t body] assms(2) show ?thesis
    by (simp add: pop_array_raw_def chunks_exact_def stays_lift pbind_advance stays_advance)
qed (use assms(2) array_raw_header_total [of p] in \<open>simp_all add: pop_array_raw_def stays_def\<close>)

lemma choice_raw_header_total: "choice_raw_header data \<noteq> Panic"
proof -
  have "choice_match Ok data n (k div n) ct \<noteq> Panic" if "24 + k \<le> length data" for n k ct
  proof (rule choice_match_total)
    show "24 + k div n * n \<le> length data"
      using that div_times_less_eq_dividend [of k n] by linarith
  qed simp
  then show ?thesis
    by (auto simp: choice_raw_header_def Let_def panic_simps ok_simps split: if_splits)
qed

lemma choice_raw_header_bounds: "choice_raw_header data = Ok (n, t, c) \<Longrightarrow> n \<le> length data"
  by (auto simp: choice_raw_header_def Let_def ok_simps split: if_splits)

lemma pop_choice_raw_safe:
  assumes "\<And>t c s. fst (f t c s) \<noteq> Panic" and "parser_wf p"
  shows "stays p (fst (pop_choice_raw f s p))"
proof (cases "choice_raw_header (drop (p_pos p) (p_data p))")
  case (Ok x)
  obtain n t c where x: "x = (n, t, c)"
    by (cases x)
  obtain r s' where "f t c s = (r, s')"
    by (cases "f t c s")
  moreover have "n \<le> available p"
    using choice_raw_header_bounds [of "drop (p_pos p) (p_data p)" n t c] Ok x
    by (simp add: available_def)
  moreover have "p_pos p \<le> length (p_data p)"
    using assms(2) by (simp add: parser_wf_def)
  ultimately show ?thesis
    using Ok x assms(1) [of t c s] assms(2)
    by (simp add: pop_choice_raw_def stays_lift pbind_advance stays_advance slice_from_Ok)
qed (use assms(2) choice_raw_header_total in
    \<open>simp_all add: pop_choice_raw_def stays_def slice_from_Ok parser_wf_def\<close>)

lemmas safe_pop_typed [safe_intros] =
  unit.as_pod.safe_pop_pod [folded pop_none_def]
  bool.as_pod.safe_pop_pod [folded pop_bool_def]
  i32.as_pod.safe_pop_pod [folded pop_int_def]
  i64.as_pod.safe_pop_pod [folded pop_long_def]
  f32.as_pod.safe_pop_pod [folded pop_float_def]
  f64.as_pod.safe_pop_pod [folded pop_double_def]
  fd.as_pod.safe_pop_pod [folded pop_fd_def]
  rectangle.as_pod.safe_pop_pod [folded pop_rectangle_def]
  fraction.as_pod.safe_pop_pod [folded pop_fraction_def]
  string.safe_pop_pod [folded pop_string_def]
  bytes.safe_pop_pod [folded pop_bytes_def]
  pointer.safe_pop_pod [folded pop_pointer_def]

section \<open>Parsing what a builder wrote\<close>

text \<open>
  \<open>parses f I v\<close>: wherever an image out of \<open>I\<close> stands in a buffer, \<open>f\<close> reads \<open>v\<close> and stops
  right behind it.
\<close>

definition parses :: "'a parse \<Rightarrow> (byte list \<Rightarrow> bool) \<Rightarrow> 'a \<Rightarrow> bool" where
  "parses f I v \<longleftrightarrow>
     (\<forall>pre out post. I out \<longrightarrow> length (pre @ out @ post) < usize_limit \<longrightarrow>
        f \<lparr>p_data = pre @ out @ post, p_pos = length pre\<rparr> =
          (Ok v, \<lparr>p_data = pre @ out @ post, p_pos = length pre + length out\<rparr>))"

lemma parsesD:
  "parses f I v \<Longrightarrow> I out \<Longrightarrow> length (pre @ out @ post) < usize_limit \<Longrightarrow>
    f \<lparr>p_data = pre @ out @ post, p_pos = length pre\<rparr> =
      (Ok v, \<lparr>p_data = pre @ out @ post, p_pos = length pre + length out\<rparr>)"
  by (simp add: parses_def)

named_theorems parses_intros \<open>what the parser reads from an image\<close>

lemma parses_pbind [parses_intros]:
  assumes "parses f I a" and "parses (g a) J b"
  shows "parses (pbind f g) (app_img I J) b"
proof -
  have "pbind f g \<lparr>p_data = pre @ (x @ y) @ post, p_pos = length pre\<rparr> =
      (Ok b, \<lparr>p_data = pre @ (x @ y) @ post, p_pos = length pre + length (x @ y)\<rparr>)"
    if "I x" "J y" "length (pre @ (x @ y) @ post) < usize_limit" for pre x y post
  proof -
    have "f \<lparr>p_data = pre @ x @ (y @ post), p_pos = length pre\<rparr> =
        (Ok a, \<lparr>p_data = pre @ x @ (y @ post), p_pos = length pre + length x\<rparr>)"
      using assms(1) that by (simp add: parses_def)
    moreover have "g a \<lparr>p_data = (pre @ x) @ y @ post, p_pos = length (pre @ x)\<rparr> =
        (Ok b, \<lparr>p_data = (pre @ x) @ y @ post, p_pos = length (pre @ x) + length y\<rparr>)"
      using assms(2) that unfolding parses_def by (metis append.assoc)
    ultimately show ?thesis
      by (simp add: pbind_def add.assoc)
  qed
  then show ?thesis
    by (auto simp: parses_def app_img_def)
qed

lemma parses_return [parses_intros]: "parses (preturn v) nil_img v"
  by (simp add: parses_def nil_img_def lift_result_def)

lemma parses_pbind_return:
  assumes "parses f I a" and "g a = preturn b"
  shows "parses (pbind f g) I b"
  using assms by (simp add: parses_def pbind_def lift_result_def)

lemma parses_start:
  assumes "parses f I v" and "I out" and "length out < usize_limit"
  shows "f (parser_new out) = (Ok v, \<lparr>p_data = out, p_pos = length out\<rparr>)"
  using parsesD [OF assms(1,2), of "[]" "[]"] assms(3) by (simp add: parser_new_def)

context pod_codec
begin

lemma parses_pop_pod:
  assumes "fits v"
  shows "parses (pop_pod C) (img v) (view v)"
  using assms img_size
  by (auto simp: parses_def pop_pod_def slice_from_def decode_img available_def ok_or_def
      checked_add_usize_def)

end

lemma parses_pop_raw_pod:
  assumes "raw_pod_wf v"
  shows "parses pop_raw_pod (\<lambda>out. out = rp_data v) v"
  using assms raw_owned_wrap_prefix [of "rp_data v" v] raw_pod_wf_length [of v]
  by (simp add: parses_def pop_raw_pod_def slice_from_def raw_wrap_agree raw_pod_wf_def
      pbind_advance lift_result_def)

lemma struct_header_image:
  assumes "length body < 2 ^ 32" and "8 dvd length body"
  shows "struct_header \<lparr>p_data = pre @ (u32_bytes (of_nat (length body)) @
      u32_bytes (type_u32 Type_Struct) @ body) @ post, p_pos = length pre\<rparr> =
    Ok (8 + length body, body)"
proof -
  have "unat (of_nat (length body) :: u32) = length body"
    using assms(1) by (rule unat_of_nat_u32)
  moreover have "pad_8 (length body) = 0"
    using assms(2) by (simp add: pad_8_def)
  ultimately show ?thesis
    by (simp add: struct_header_def available_def codec_simps subslice_def Let_def)
qed

lemma parses_pop_struct:
  assumes "parses f I v" and "\<And>out. I out \<Longrightarrow> length out = s" and "s < 2 ^ 32" and "8 dvd s"
  shows "parses (pop_struct f) (struct_img s I) (v, 8 + s)"
proof -
  have "fst (f (parser_new body)) = Ok v" if "I body" for body
    using parses_start [OF assms(1) that] assms(2) [OF that] assms(3) by (simp add: usize_limit_eq)
  then have "pop_struct f \<lparr>p_data = pre @ (u32_bytes (of_nat s) @ u32_bytes (type_u32 Type_Struct) @
        body) @ post, p_pos = length pre\<rparr> =
      (Ok (v, 8 + s), \<lparr>p_data = pre @ (u32_bytes (of_nat s) @ u32_bytes (type_u32 Type_Struct) @
        body) @ post, p_pos = length pre + (8 + s)\<rparr>)" if "I body" for pre body post
    using that struct_header_image [of body pre post] assms(2-4)
    by (simp add: pop_struct_def pbind_advance lift_result_def del: append_assoc)
  then show ?thesis
    using assms(2) by (auto simp: parses_def struct_img_def)
qed

end
