(* ===== verification/Params.thy ===== *)
theory Params
  imports Pod_Containers
begin

text \<open>
  \<^verbatim>\<open>spa/src/param/\<close>: the parameter types, the keys of the objects that carry them, and the media
  types. Every enum derives \<open>EnumU32\<close>; its variants are listed with the discriminants the source
  writes down, and the derived conversions are those of \<open>enum_u32\<close>.
\<close>

datatype (plugins only: code size) param_type =
    PT_Invalid | PT_PropInfo | PT_Props | PT_EnumFormat | PT_Format | PT_Buffers | PT_Meta |
    PT_IO | PT_EnumProfile | PT_Profile | PT_EnumPortConfig | PT_PortConfig | PT_EnumRoute |
    PT_Route | PT_Control | PT_Latency | PT_ProcessLatency | PT_Tag

definition param_type_variants :: "(param_type \<times> u32 option) list" where
  "param_type_variants =
     [(PT_Invalid, None), (PT_PropInfo, None), (PT_Props, None), (PT_EnumFormat, None),
      (PT_Format, None), (PT_Buffers, None), (PT_Meta, None), (PT_IO, None),
      (PT_EnumProfile, None), (PT_Profile, None), (PT_EnumPortConfig, None),
      (PT_PortConfig, None), (PT_EnumRoute, None), (PT_Route, None), (PT_Control, None),
      (PT_Latency, None), (PT_ProcessLatency, None), (PT_Tag, None)]"

datatype (plugins only: code size) prop_info =
    PI_Start | PI_Id | PI_Name | PI_Type | PI_Labels | PI_Container | PI_Params | PI_Description

definition prop_info_variants :: "(prop_info \<times> u32 option) list" where
  "prop_info_variants =
     [(PI_Start, None), (PI_Id, None), (PI_Name, None), (PI_Type, None), (PI_Labels, None),
      (PI_Container, None), (PI_Params, None), (PI_Description, None)]"

datatype (plugins only: code size) prop_key =
    Prop_Start | Prop_Unknown | Prop_StartDevice | Prop_Device | Prop_DeviceName |
    Prop_DeviceFd | Prop_Card | Prop_CardName | Prop_MinLatency | Prop_MaxLatency |
    Prop_Periods | Prop_PeriodSize | Prop_PeriodEvent | Prop_Live | Prop_Rate | Prop_Quality |
    Prop_BluetoothAudioCodec | Prop_BluetoothOffloadActive | Prop_StartAudio | Prop_WaveType |
    Prop_Frequency | Prop_Volume | Prop_Mute | Prop_PatternType | Prop_DitherType |
    Prop_Truncate | Prop_ChannelVolumes | Prop_VolumeBase | Prop_VolumeStep | Prop_ChannelMap |
    Prop_MonitorMute | Prop_MonitorVolumes | Prop_LatencyOffsetNsec | Prop_SoftMute |
    Prop_SoftVolumes | Prop_Iec958Codecs | Prop_VolumeRampSamples |
    Prop_VolumeRampStepSamples | Prop_VolumeRampTime | Prop_VolumeRampStepTime |
    Prop_VolumeRampScale | Prop_StartVideo | Prop_Brightness | Prop_Contrast |
    Prop_Saturation | Prop_Hue | Prop_Gamma | Prop_Exposure | Prop_Gain | Prop_Sharpness |
    Prop_StartOther | Prop_Params | Prop_StartCustom

definition prop_key_variants :: "(prop_key \<times> u32 option) list" where
  "prop_key_variants =
     [(Prop_Start, None), (Prop_Unknown, None), (Prop_StartDevice, Some 0x100),
      (Prop_Device, None), (Prop_DeviceName, None), (Prop_DeviceFd, None), (Prop_Card, None),
      (Prop_CardName, None), (Prop_MinLatency, None), (Prop_MaxLatency, None),
      (Prop_Periods, None), (Prop_PeriodSize, None), (Prop_PeriodEvent, None),
      (Prop_Live, None), (Prop_Rate, None), (Prop_Quality, None),
      (Prop_BluetoothAudioCodec, None), (Prop_BluetoothOffloadActive, None),
      (Prop_StartAudio, Some 0x10000), (Prop_WaveType, None), (Prop_Frequency, None),
      (Prop_Volume, None), (Prop_Mute, None), (Prop_PatternType, None),
      (Prop_DitherType, None), (Prop_Truncate, None), (Prop_ChannelVolumes, None),
      (Prop_VolumeBase, None), (Prop_VolumeStep, None), (Prop_ChannelMap, None),
      (Prop_MonitorMute, None), (Prop_MonitorVolumes, None), (Prop_LatencyOffsetNsec, None),
      (Prop_SoftMute, None), (Prop_SoftVolumes, None), (Prop_Iec958Codecs, None),
      (Prop_VolumeRampSamples, None), (Prop_VolumeRampStepSamples, None),
      (Prop_VolumeRampTime, None), (Prop_VolumeRampStepTime, None),
      (Prop_VolumeRampScale, None), (Prop_StartVideo, Some 0x20000), (Prop_Brightness, None),
      (Prop_Contrast, None), (Prop_Saturation, None), (Prop_Hue, None), (Prop_Gamma, None),
      (Prop_Exposure, None), (Prop_Gain, None), (Prop_Sharpness, None),
      (Prop_StartOther, Some 0x80000), (Prop_Params, None), (Prop_StartCustom, Some 0x1000000)]"

datatype (plugins only: code size) media_type =
    MT_Unknown | MT_Audio | MT_Video | MT_Image | MT_Binary | MT_Stream | MT_Application

definition media_type_variants :: "(media_type \<times> u32 option) list" where
  "media_type_variants =
     [(MT_Unknown, None), (MT_Audio, None), (MT_Video, None), (MT_Image, None),
      (MT_Binary, None), (MT_Stream, None), (MT_Application, None)]"

datatype (plugins only: code size) media_subtype =
    MS_Unknown | MS_Raw | MS_Dsp | MS_Iec958 | MS_Dsd | MS_StartAudio | MS_Mp3 | MS_Aac |
    MS_Vorbis | MS_Wma | MS_Ra | MS_Sbc | MS_Adpcm | MS_G723 | MS_G726 | MS_G729 | MS_Amr |
    MS_Gsm | MS_Alac | MS_Flac | MS_Ape | MS_Opus | MS_StartVideo | MS_H264 | MS_Mjpg | MS_Dv |
    MS_Mpegts | MS_H263 | MS_Mpeg1 | MS_Mpeg2 | MS_Mpeg4 | MS_Xvid | MS_Vc1 | MS_Vp8 | MS_Vp9 |
    MS_Bayer | MS_H265 | MS_StartImage | MS_Jpeg | MS_StartBinary | MS_StartStream | MS_Midi |
    MS_StartApplication | MS_Control

definition media_subtype_variants :: "(media_subtype \<times> u32 option) list" where
  "media_subtype_variants =
     [(MS_Unknown, None), (MS_Raw, None), (MS_Dsp, None), (MS_Iec958, None), (MS_Dsd, None),
      (MS_StartAudio, Some 0x10000), (MS_Mp3, None), (MS_Aac, None), (MS_Vorbis, None),
      (MS_Wma, None), (MS_Ra, None), (MS_Sbc, None), (MS_Adpcm, None), (MS_G723, None),
      (MS_G726, None), (MS_G729, None), (MS_Amr, None), (MS_Gsm, None), (MS_Alac, None),
      (MS_Flac, None), (MS_Ape, None), (MS_Opus, None), (MS_StartVideo, Some 0x20000),
      (MS_H264, None), (MS_Mjpg, None), (MS_Dv, None), (MS_Mpegts, None), (MS_H263, None),
      (MS_Mpeg1, None), (MS_Mpeg2, None), (MS_Mpeg4, None), (MS_Xvid, None), (MS_Vc1, None),
      (MS_Vp8, None), (MS_Vp9, None), (MS_Bayer, None), (MS_H265, None),
      (MS_StartImage, Some 0x30000), (MS_Jpeg, None), (MS_StartBinary, Some 0x40000),
      (MS_StartStream, Some 0x50000), (MS_Midi, None), (MS_StartApplication, Some 0x60000),
      (MS_Control, None)]"

datatype (plugins only: code size) format_key =
    Fmt_Start | Fmt_MediaType | Fmt_MediaSubtype | Fmt_StartAudio | Fmt_AudioFormat |
    Fmt_AudioFlags | Fmt_AudioRate | Fmt_AudioChannels | Fmt_AudioPosition |
    Fmt_AudioIec958Codec | Fmt_AudioBitorder | Fmt_AudioInterleave | Fmt_AudioBitrate |
    Fmt_AudioBlockAlign | Fmt_AudioAacStreamFormat | Fmt_AudioWmaProfile |
    Fmt_AudioAmrBandMode | Fmt_StartVideo | Fmt_VideoFormat | Fmt_VideoModifier |
    Fmt_VideoSize | Fmt_VideoFramerate | Fmt_VideoMaxFramerate | Fmt_VideoViews |
    Fmt_VideoInterlaceMode | Fmt_VideoPixelAspectRatio | Fmt_VideoMultiviewMode |
    Fmt_VideoMultiviewFlags | Fmt_VideoChromaSite | Fmt_VideoColorRange |
    Fmt_VideoColorMatrix | Fmt_VideoTransferFunction | Fmt_VideoColorPrimaries |
    Fmt_VideoProfile | Fmt_VideoLevel | Fmt_VideoH264StreamFormat | Fmt_VideoH264Alignment |
    Fmt_VideoH265StreamFormat | Fmt_VideoH265Alignment | Fmt_StartImage | Fmt_StartBinary |
    Fmt_StartStream | Fmt_StartApplication | Fmt_ControlTypes

definition format_key_variants :: "(format_key \<times> u32 option) list" where
  "format_key_variants =
     [(Fmt_Start, None), (Fmt_MediaType, None), (Fmt_MediaSubtype, None),
      (Fmt_StartAudio, Some 0x10000), (Fmt_AudioFormat, None), (Fmt_AudioFlags, None),
      (Fmt_AudioRate, None), (Fmt_AudioChannels, None), (Fmt_AudioPosition, None),
      (Fmt_AudioIec958Codec, None), (Fmt_AudioBitorder, None), (Fmt_AudioInterleave, None),
      (Fmt_AudioBitrate, None), (Fmt_AudioBlockAlign, None), (Fmt_AudioAacStreamFormat, None),
      (Fmt_AudioWmaProfile, None), (Fmt_AudioAmrBandMode, None),
      (Fmt_StartVideo, Some 0x20000), (Fmt_VideoFormat, None), (Fmt_VideoModifier, None),
      (Fmt_VideoSize, None), (Fmt_VideoFramerate, None), (Fmt_VideoMaxFramerate, None),
      (Fmt_VideoViews, None), (Fmt_VideoInterlaceMode, None),
      (Fmt_VideoPixelAspectRatio, None), (Fmt_VideoMultiviewMode, None),
      (Fmt_VideoMultiviewFlags, None), (Fmt_VideoChromaSite, None),
      (Fmt_VideoColorRange, None), (Fmt_VideoColorMatrix, None),
      (Fmt_VideoTransferFunction, None), (Fmt_VideoColorPrimaries, None),
      (Fmt_VideoProfile, None), (Fmt_VideoLevel, None), (Fmt_VideoH264StreamFormat, None),
      (Fmt_VideoH264Alignment, None), (Fmt_VideoH265StreamFormat, None),
      (Fmt_VideoH265Alignment, None), (Fmt_StartImage, Some 0x30000),
      (Fmt_StartBinary, Some 0x40000), (Fmt_StartStream, Some 0x50000),
      (Fmt_StartApplication, Some 0x60000), (Fmt_ControlTypes, None)]"

datatype (plugins only: code size) buffers =
    Buf_Start | Buf_Buffers | Buf_Blocks | Buf_Size | Buf_Stride | Buf_Align | Buf_DataType |
    Buf_MetaType

definition buffers_variants :: "(buffers \<times> u32 option) list" where
  "buffers_variants =
     [(Buf_Start, None), (Buf_Buffers, None), (Buf_Blocks, None), (Buf_Size, None),
      (Buf_Stride, None), (Buf_Align, None), (Buf_DataType, None), (Buf_MetaType, None)]"

datatype (plugins only: code size) meta =
    Meta_Start | Meta_Type | Meta_Size

definition meta_variants :: "(meta \<times> u32 option) list" where
  "meta_variants =
     [(Meta_Start, None), (Meta_Type, None), (Meta_Size, None)]"

datatype (plugins only: code size) io =
    Io_Start | Io_Id | Io_Size

definition io_variants :: "(io \<times> u32 option) list" where
  "io_variants =
     [(Io_Start, None), (Io_Id, None), (Io_Size, None)]"

datatype (plugins only: code size) profile =
    Prf_Start | Prf_Index | Prf_Name | Prf_Description | Prf_Priority | Prf_Available |
    Prf_Info | Prf_Classes | Prf_Save

definition profile_variants :: "(profile \<times> u32 option) list" where
  "profile_variants =
     [(Prf_Start, None), (Prf_Index, None), (Prf_Name, None), (Prf_Description, None),
      (Prf_Priority, None), (Prf_Available, None), (Prf_Info, None), (Prf_Classes, None),
      (Prf_Save, None)]"

datatype (plugins only: code size) profiler =
    Prr_Start | Prr_StartDriver | Prr_Info | Prr_Clock | Prr_DriverBlock | Prr_StartFollower |
    Prr_FollowerBlock | Prr_FollowerClock | Prr_StartCustom

definition profiler_variants :: "(profiler \<times> u32 option) list" where
  "profiler_variants =
     [(Prr_Start, None), (Prr_StartDriver, Some 0x10000), (Prr_Info, None), (Prr_Clock, None),
      (Prr_DriverBlock, None), (Prr_StartFollower, Some 0x20000), (Prr_FollowerBlock, None),
      (Prr_FollowerClock, None), (Prr_StartCustom, Some 0x1000000)]"

datatype (plugins only: code size) route =
    Rt_Start | Rt_Index | Rt_Direction | Rt_Device | Rt_Name | Rt_Description | Rt_Priority |
    Rt_Available | Rt_Info | Rt_Profiles | Rt_Props | Rt_Devices | Rt_Profile | Rt_Save

definition route_variants :: "(route \<times> u32 option) list" where
  "route_variants =
     [(Rt_Start, None), (Rt_Index, None), (Rt_Direction, None), (Rt_Device, None),
      (Rt_Name, None), (Rt_Description, None), (Rt_Priority, None), (Rt_Available, None),
      (Rt_Info, None), (Rt_Profiles, None), (Rt_Props, None), (Rt_Devices, None),
      (Rt_Profile, None), (Rt_Save, None)]"

text \<open>\<open>ParamType::object_type\<close> and the \<open>ParamObject::TYPE\<close> constants of the key types.\<close>

fun param_object_type :: "param_type \<Rightarrow> object_type option" where
  "param_object_type PT_Invalid = None"
| "param_object_type PT_PropInfo = Some OT_PropInfo"
| "param_object_type PT_Props = Some OT_Props"
| "param_object_type PT_EnumFormat = Some OT_Format"
| "param_object_type PT_Format = Some OT_Format"
| "param_object_type PT_Buffers = Some OT_ParamBuffers"
| "param_object_type PT_Meta = Some OT_ParamMeta"
| "param_object_type PT_IO = Some OT_ParamIo"
| "param_object_type PT_EnumProfile = Some OT_ParamProfile"
| "param_object_type PT_Profile = Some OT_ParamProfile"
| "param_object_type PT_EnumPortConfig = Some OT_ParamPortConfig"
| "param_object_type PT_PortConfig = Some OT_ParamPortConfig"
| "param_object_type PT_EnumRoute = Some OT_ParamRoute"
| "param_object_type PT_Route = Some OT_ParamRoute"
| "param_object_type PT_Control = None"
| "param_object_type PT_Latency = Some OT_ParamLatency"
| "param_object_type PT_ProcessLatency = Some OT_ParamProcessLatency"
| "param_object_type PT_Tag = Some OT_ParamTag"

definition prop_info_TYPE :: object_type where "prop_info_TYPE = OT_PropInfo"
definition prop_key_TYPE :: object_type where "prop_key_TYPE = OT_Props"
definition format_key_TYPE :: object_type where "format_key_TYPE = OT_Format"
definition buffers_TYPE :: object_type where "buffers_TYPE = OT_ParamBuffers"
definition meta_TYPE :: object_type where "meta_TYPE = OT_ParamMeta"
definition io_TYPE :: object_type where "io_TYPE = OT_ParamIo"
definition profile_TYPE :: object_type where "profile_TYPE = OT_ParamProfile"
definition profiler_TYPE :: object_type where "profiler_TYPE = OT_Profiler"
definition route_TYPE :: object_type where "route_TYPE = OT_ParamRoute"

section \<open>The derived conversions\<close>

lemma param_type_values:
  "enum_values None param_type_variants =
     [(PT_Invalid, 0), (PT_PropInfo, 1), (PT_Props, 2), (PT_EnumFormat, 3), (PT_Format, 4),
      (PT_Buffers, 5), (PT_Meta, 6), (PT_IO, 7), (PT_EnumProfile, 8), (PT_Profile, 9),
      (PT_EnumPortConfig, 10), (PT_PortConfig, 11), (PT_EnumRoute, 12), (PT_Route, 13),
      (PT_Control, 14), (PT_Latency, 15), (PT_ProcessLatency, 16), (PT_Tag, 17)]"
  by (simp add: param_type_variants_def)

interpretation param_type: enum_u32 param_type_variants
proof
  show "v \<in> fst ` set (enum_values None param_type_variants)" for v
    by (cases v; simp only: param_type_values list.set image_insert fst_conv;
        (rule insertI1 | rule insertI2)+)
qed (simp_all add: param_type_values)

lemma prop_info_values:
  "enum_values None prop_info_variants =
     [(PI_Start, 0), (PI_Id, 1), (PI_Name, 2), (PI_Type, 3), (PI_Labels, 4), (PI_Container, 5),
      (PI_Params, 6), (PI_Description, 7)]"
  by (simp add: prop_info_variants_def)

interpretation prop_info: enum_u32 prop_info_variants
proof
  show "v \<in> fst ` set (enum_values None prop_info_variants)" for v
    by (cases v; simp only: prop_info_values list.set image_insert fst_conv;
        (rule insertI1 | rule insertI2)+)
qed (simp_all add: prop_info_values)

lemma prop_key_values:
  "enum_values None prop_key_variants =
     [(Prop_Start, 0), (Prop_Unknown, 1), (Prop_StartDevice, 0x100), (Prop_Device, 0x101),
      (Prop_DeviceName, 0x102), (Prop_DeviceFd, 0x103), (Prop_Card, 0x104),
      (Prop_CardName, 0x105), (Prop_MinLatency, 0x106), (Prop_MaxLatency, 0x107),
      (Prop_Periods, 0x108), (Prop_PeriodSize, 0x109), (Prop_PeriodEvent, 0x10a),
      (Prop_Live, 0x10b), (Prop_Rate, 0x10c), (Prop_Quality, 0x10d),
      (Prop_BluetoothAudioCodec, 0x10e), (Prop_BluetoothOffloadActive, 0x10f),
      (Prop_StartAudio, 0x10000), (Prop_WaveType, 0x10001), (Prop_Frequency, 0x10002),
      (Prop_Volume, 0x10003), (Prop_Mute, 0x10004), (Prop_PatternType, 0x10005),
      (Prop_DitherType, 0x10006), (Prop_Truncate, 0x10007), (Prop_ChannelVolumes, 0x10008),
      (Prop_VolumeBase, 0x10009), (Prop_VolumeStep, 0x1000a), (Prop_ChannelMap, 0x1000b),
      (Prop_MonitorMute, 0x1000c), (Prop_MonitorVolumes, 0x1000d),
      (Prop_LatencyOffsetNsec, 0x1000e), (Prop_SoftMute, 0x1000f), (Prop_SoftVolumes, 0x10010),
      (Prop_Iec958Codecs, 0x10011), (Prop_VolumeRampSamples, 0x10012),
      (Prop_VolumeRampStepSamples, 0x10013), (Prop_VolumeRampTime, 0x10014),
      (Prop_VolumeRampStepTime, 0x10015), (Prop_VolumeRampScale, 0x10016),
      (Prop_StartVideo, 0x20000), (Prop_Brightness, 0x20001), (Prop_Contrast, 0x20002),
      (Prop_Saturation, 0x20003), (Prop_Hue, 0x20004), (Prop_Gamma, 0x20005),
      (Prop_Exposure, 0x20006), (Prop_Gain, 0x20007), (Prop_Sharpness, 0x20008),
      (Prop_StartOther, 0x80000), (Prop_Params, 0x80001), (Prop_StartCustom, 0x1000000)]"
  by (simp add: prop_key_variants_def)

interpretation prop_key: enum_u32 prop_key_variants
proof
  show "v \<in> fst ` set (enum_values None prop_key_variants)" for v
    by (cases v; simp only: prop_key_values list.set image_insert fst_conv;
        (rule insertI1 | rule insertI2)+)
qed (simp_all add: prop_key_values)

lemma media_type_values:
  "enum_values None media_type_variants =
     [(MT_Unknown, 0), (MT_Audio, 1), (MT_Video, 2), (MT_Image, 3), (MT_Binary, 4),
      (MT_Stream, 5), (MT_Application, 6)]"
  by (simp add: media_type_variants_def)

interpretation media_type: enum_u32 media_type_variants
proof
  show "v \<in> fst ` set (enum_values None media_type_variants)" for v
    by (cases v; simp only: media_type_values list.set image_insert fst_conv;
        (rule insertI1 | rule insertI2)+)
qed (simp_all add: media_type_values)

lemma media_subtype_values:
  "enum_values None media_subtype_variants =
     [(MS_Unknown, 0), (MS_Raw, 1), (MS_Dsp, 2), (MS_Iec958, 3), (MS_Dsd, 4),
      (MS_StartAudio, 0x10000), (MS_Mp3, 0x10001), (MS_Aac, 0x10002), (MS_Vorbis, 0x10003),
      (MS_Wma, 0x10004), (MS_Ra, 0x10005), (MS_Sbc, 0x10006), (MS_Adpcm, 0x10007),
      (MS_G723, 0x10008), (MS_G726, 0x10009), (MS_G729, 0x1000a), (MS_Amr, 0x1000b),
      (MS_Gsm, 0x1000c), (MS_Alac, 0x1000d), (MS_Flac, 0x1000e), (MS_Ape, 0x1000f),
      (MS_Opus, 0x10010), (MS_StartVideo, 0x20000), (MS_H264, 0x20001), (MS_Mjpg, 0x20002),
      (MS_Dv, 0x20003), (MS_Mpegts, 0x20004), (MS_H263, 0x20005), (MS_Mpeg1, 0x20006),
      (MS_Mpeg2, 0x20007), (MS_Mpeg4, 0x20008), (MS_Xvid, 0x20009), (MS_Vc1, 0x2000a),
      (MS_Vp8, 0x2000b), (MS_Vp9, 0x2000c), (MS_Bayer, 0x2000d), (MS_H265, 0x2000e),
      (MS_StartImage, 0x30000), (MS_Jpeg, 0x30001), (MS_StartBinary, 0x40000),
      (MS_StartStream, 0x50000), (MS_Midi, 0x50001), (MS_StartApplication, 0x60000),
      (MS_Control, 0x60001)]"
  by (simp add: media_subtype_variants_def)

interpretation media_subtype: enum_u32 media_subtype_variants
proof
  show "v \<in> fst ` set (enum_values None media_subtype_variants)" for v
    by (cases v; simp only: media_subtype_values list.set image_insert fst_conv;
        (rule insertI1 | rule insertI2)+)
qed (simp_all add: media_subtype_values)

lemma format_key_values:
  "enum_values None format_key_variants =
     [(Fmt_Start, 0), (Fmt_MediaType, 1), (Fmt_MediaSubtype, 2), (Fmt_StartAudio, 0x10000),
      (Fmt_AudioFormat, 0x10001), (Fmt_AudioFlags, 0x10002), (Fmt_AudioRate, 0x10003),
      (Fmt_AudioChannels, 0x10004), (Fmt_AudioPosition, 0x10005),
      (Fmt_AudioIec958Codec, 0x10006), (Fmt_AudioBitorder, 0x10007),
      (Fmt_AudioInterleave, 0x10008), (Fmt_AudioBitrate, 0x10009),
      (Fmt_AudioBlockAlign, 0x1000a), (Fmt_AudioAacStreamFormat, 0x1000b),
      (Fmt_AudioWmaProfile, 0x1000c), (Fmt_AudioAmrBandMode, 0x1000d),
      (Fmt_StartVideo, 0x20000), (Fmt_VideoFormat, 0x20001), (Fmt_VideoModifier, 0x20002),
      (Fmt_VideoSize, 0x20003), (Fmt_VideoFramerate, 0x20004),
      (Fmt_VideoMaxFramerate, 0x20005), (Fmt_VideoViews, 0x20006),
      (Fmt_VideoInterlaceMode, 0x20007), (Fmt_VideoPixelAspectRatio, 0x20008),
      (Fmt_VideoMultiviewMode, 0x20009), (Fmt_VideoMultiviewFlags, 0x2000a),
      (Fmt_VideoChromaSite, 0x2000b), (Fmt_VideoColorRange, 0x2000c),
      (Fmt_VideoColorMatrix, 0x2000d), (Fmt_VideoTransferFunction, 0x2000e),
      (Fmt_VideoColorPrimaries, 0x2000f), (Fmt_VideoProfile, 0x20010),
      (Fmt_VideoLevel, 0x20011), (Fmt_VideoH264StreamFormat, 0x20012),
      (Fmt_VideoH264Alignment, 0x20013), (Fmt_VideoH265StreamFormat, 0x20014),
      (Fmt_VideoH265Alignment, 0x20015), (Fmt_StartImage, 0x30000), (Fmt_StartBinary, 0x40000),
      (Fmt_StartStream, 0x50000), (Fmt_StartApplication, 0x60000), (Fmt_ControlTypes, 0x60001)]"
  by (simp add: format_key_variants_def)

interpretation format_key: enum_u32 format_key_variants
proof
  show "v \<in> fst ` set (enum_values None format_key_variants)" for v
    by (cases v; simp only: format_key_values list.set image_insert fst_conv;
        (rule insertI1 | rule insertI2)+)
qed (simp_all add: format_key_values)

lemma buffers_values:
  "enum_values None buffers_variants =
     [(Buf_Start, 0), (Buf_Buffers, 1), (Buf_Blocks, 2), (Buf_Size, 3), (Buf_Stride, 4),
      (Buf_Align, 5), (Buf_DataType, 6), (Buf_MetaType, 7)]"
  by (simp add: buffers_variants_def)

interpretation buffers: enum_u32 buffers_variants
proof
  show "v \<in> fst ` set (enum_values None buffers_variants)" for v
    by (cases v; simp only: buffers_values list.set image_insert fst_conv;
        (rule insertI1 | rule insertI2)+)
qed (simp_all add: buffers_values)

lemma meta_values:
  "enum_values None meta_variants =
     [(Meta_Start, 0), (Meta_Type, 1), (Meta_Size, 2)]"
  by (simp add: meta_variants_def)

interpretation meta: enum_u32 meta_variants
proof
  show "v \<in> fst ` set (enum_values None meta_variants)" for v
    by (cases v; simp only: meta_values list.set image_insert fst_conv;
        (rule insertI1 | rule insertI2)+)
qed (simp_all add: meta_values)

lemma io_values:
  "enum_values None io_variants =
     [(Io_Start, 0), (Io_Id, 1), (Io_Size, 2)]"
  by (simp add: io_variants_def)

interpretation io: enum_u32 io_variants
proof
  show "v \<in> fst ` set (enum_values None io_variants)" for v
    by (cases v; simp only: io_values list.set image_insert fst_conv;
        (rule insertI1 | rule insertI2)+)
qed (simp_all add: io_values)

lemma profile_values:
  "enum_values None profile_variants =
     [(Prf_Start, 0), (Prf_Index, 1), (Prf_Name, 2), (Prf_Description, 3), (Prf_Priority, 4),
      (Prf_Available, 5), (Prf_Info, 6), (Prf_Classes, 7), (Prf_Save, 8)]"
  by (simp add: profile_variants_def)

interpretation profile: enum_u32 profile_variants
proof
  show "v \<in> fst ` set (enum_values None profile_variants)" for v
    by (cases v; simp only: profile_values list.set image_insert fst_conv;
        (rule insertI1 | rule insertI2)+)
qed (simp_all add: profile_values)

lemma profiler_values:
  "enum_values None profiler_variants =
     [(Prr_Start, 0), (Prr_StartDriver, 0x10000), (Prr_Info, 0x10001), (Prr_Clock, 0x10002),
      (Prr_DriverBlock, 0x10003), (Prr_StartFollower, 0x20000), (Prr_FollowerBlock, 0x20001),
      (Prr_FollowerClock, 0x20002), (Prr_StartCustom, 0x1000000)]"
  by (simp add: profiler_variants_def)

interpretation profiler: enum_u32 profiler_variants
proof
  show "v \<in> fst ` set (enum_values None profiler_variants)" for v
    by (cases v; simp only: profiler_values list.set image_insert fst_conv;
        (rule insertI1 | rule insertI2)+)
qed (simp_all add: profiler_values)

lemma route_values:
  "enum_values None route_variants =
     [(Rt_Start, 0), (Rt_Index, 1), (Rt_Direction, 2), (Rt_Device, 3), (Rt_Name, 4),
      (Rt_Description, 5), (Rt_Priority, 6), (Rt_Available, 7), (Rt_Info, 8), (Rt_Profiles, 9),
      (Rt_Props, 10), (Rt_Devices, 11), (Rt_Profile, 12), (Rt_Save, 13)]"
  by (simp add: route_variants_def)

interpretation route: enum_u32 route_variants
proof
  show "v \<in> fst ` set (enum_values None route_variants)" for v
    by (cases v; simp only: route_values list.set image_insert fst_conv;
        (rule insertI1 | rule insertI2)+)
qed (simp_all add: route_values)

end
