(* ===== verification/Pod_Robustness.thy ===== *)
theory Pod_Robustness
  imports Pod_Parser Params
begin

text \<open>
  \<^verbatim>\<open>fuzz/fuzz_targets/pod_decode.rs\<close>: the fuzz target that runs every decoder and every parser
  method on arbitrary input. A call \<open>let _ = f(data)\<close> drops the result; only a panic is visible.
\<close>

definition discard :: "'a pod_result \<Rightarrow> unit pod_result" where
  "discard r = (case r of Panic \<Rightarrow> Panic | _ \<Rightarrow> Ok ())"

definition MAX_INPUT_SIZE :: nat where
  "MAX_INPUT_SIZE = 64 * 1024"

lemma discard_Ok [simp]: "discard r = Ok () \<longleftrightarrow> r \<noteq> Panic"
  by (simp add: discard_def split: result.splits)

lemma discard_total [simp]: "r \<noteq> Panic \<Longrightarrow> discard r = Ok ()"
  by simp

lemma pop_raw_pod_shrinks:
  assumes "pop_raw_pod p = (Ok v, p')" and "available p \<noteq> 0"
  shows "available p' < available p"
  using assms raw_wrap_size [of "drop (p_pos p) (p_data p)" v]
  by (auto simp: pop_raw_pod_def pbind_result pbind_advance lift_result_def slice_from_def
      available_def split: result.splits if_splits)

lemma property_value_data: "p_data (snd (property_value p)) = p_data p"
  by (simp add: property_value_def pbind_result pbind_advance lift_result_def split: result.splits)

lemma pop_property_shrinks:
  assumes "pop_property k from_bits p = (Ok (Some x), p')" and "available p \<noteq> 0"
  shows "available p' < available p"
proof -
  have "p_data p' = p_data p"
    using assms(1) property_value_data [of p]
    by (auto simp: pop_property_def pbind_result pbind_def [of property_value] lift_result_def
        split: if_splits result.splits prod.splits)
  then show ?thesis
    using pop_property_advances [OF assms(1)] assms(2) by (simp add: available_def)
qed

lemma pop_property_raw_eq: "pop_property_raw from_bits = pop_property Some from_bits"
proof
  fix p
  have "rbind m Ok = m" for m :: "u32 pod_result"
    by (cases m) simp_all
  then show "pop_property_raw from_bits p = pop_property Some from_bits p"
    by (simp add: pop_property_raw_def pop_property_def)
qed

function drain_raw_pods :: "unit parse" where
  "drain_raw_pods p =
     (if available p = 0 then (Ok (), p)
      else case pop_raw_pod p of
        (Ok _, p') \<Rightarrow> drain_raw_pods p'
      | (Err _, p') \<Rightarrow> (Ok (), p')
      | (Panic, p') \<Rightarrow> (Panic, p'))"
  by pat_completeness auto
termination
  by (relation "measure available") (auto dest: pop_raw_pod_shrinks [OF sym])

text \<open>The two loops over the properties of an object, with the typed and with the raw parser.\<close>

function drain_properties :: "(u32 \<Rightarrow> 'k option) \<Rightarrow> (u32 \<Rightarrow> 'f option) \<Rightarrow> unit parse" where
  "drain_properties k_try_from from_bits p =
     (if available p = 0 then (Ok (), p)
      else case pop_property k_try_from from_bits p of
        (Ok None, p') \<Rightarrow> (Ok (), p')
      | (Ok (Some _), p') \<Rightarrow> drain_properties k_try_from from_bits p'
      | (Err e, p') \<Rightarrow> (Err e, p')
      | (Panic, p') \<Rightarrow> (Panic, p'))"
  by pat_completeness auto
termination
  by (relation "measure (\<lambda>(k, f, p). available p)") (auto dest: pop_property_shrinks [OF sym])

function drain_properties_raw :: "(u32 \<Rightarrow> 'f option) \<Rightarrow> unit parse" where
  "drain_properties_raw from_bits p =
     (if available p = 0 then (Ok (), p)
      else case pop_property_raw from_bits p of
        (Ok None, p') \<Rightarrow> (Ok (), p')
      | (Ok (Some _), p') \<Rightarrow> drain_properties_raw from_bits p'
      | (Err e, p') \<Rightarrow> (Err e, p')
      | (Panic, p') \<Rightarrow> (Panic, p'))"
  by pat_completeness auto
termination
  by (relation "measure (\<lambda>(f, p). available p)")
    (auto simp: pop_property_raw_eq dest: pop_property_shrinks [OF sym])

declare drain_raw_pods.simps [simp del] drain_properties.simps [simp del]
  drain_properties_raw.simps [simp del]

definition exercise_typed_decoders :: "byte list \<Rightarrow> unit pod_result" where
  "exercise_typed_decoders data =
     rbind (discard (decode (pod_prim prim_unit) data)) (\<lambda>_.
     rbind (discard (decode (pod_prim prim_bool) data)) (\<lambda>_.
     rbind (discard (decode (pod_prim (prim_id (enum_into_u32 param_type_variants)
       (enum_try_from param_type_variants))) data)) (\<lambda>_.
     rbind (discard (decode (pod_prim prim_i32) data)) (\<lambda>_.
     rbind (discard (decode (pod_prim prim_i64) data)) (\<lambda>_.
     rbind (discard (decode (pod_prim prim_f32) data)) (\<lambda>_.
     rbind (discard (decode (pod_prim prim_f64) data)) (\<lambda>_.
     rbind (discard (decode pod_string data)) (\<lambda>_.
     rbind (discard (decode pod_bytes data)) (\<lambda>_.
     rbind (discard (decode pod_pointer data)) (\<lambda>_.
     rbind (discard (decode (pod_prim prim_fd) data)) (\<lambda>_.
     rbind (discard (decode (pod_prim prim_rectangle) data)) (\<lambda>_.
     rbind (discard (decode (pod_prim prim_fraction) data)) (\<lambda>_.
     rbind (discard (decode (pod_array prim_i32) data)) (\<lambda>_.
     rbind (discard (decode (pod_choice prim_i32) data)) (\<lambda>_.
     discard (decode (pod_option (pod_prim prim_i32)) data))))))))))))))))"

definition run_parse :: "'a parse \<Rightarrow> byte list \<Rightarrow> unit pod_result" where
  "run_parse f data = discard (fst (f (parser_new data)))"

definition exercise_typed_parser :: "(u32 \<Rightarrow> u32 option) \<Rightarrow> byte list \<Rightarrow> unit pod_result" where
  "exercise_typed_parser from_bits data =
     rbind (run_parse pop_none data) (\<lambda>_.
     rbind (run_parse pop_bool data) (\<lambda>_.
     rbind (run_parse (pop_id (enum_into_u32 param_type_variants)
       (enum_try_from param_type_variants)) data) (\<lambda>_.
     rbind (run_parse pop_int data) (\<lambda>_.
     rbind (run_parse pop_long data) (\<lambda>_.
     rbind (run_parse pop_float data) (\<lambda>_.
     rbind (run_parse pop_double data) (\<lambda>_.
     rbind (run_parse pop_string data) (\<lambda>_.
     rbind (run_parse pop_bytes data) (\<lambda>_.
     rbind (run_parse pop_pointer data) (\<lambda>_.
     rbind (run_parse pop_fd data) (\<lambda>_.
     rbind (run_parse pop_rectangle data) (\<lambda>_.
     rbind (run_parse pop_fraction data) (\<lambda>_.
     rbind (run_parse (pop_array prim_i32) data) (\<lambda>_.
     rbind (run_parse (pop_choice prim_i32) data) (\<lambda>_.
     rbind (run_parse (pop_struct (pbind drain_raw_pods (\<lambda>_. preturn ()))) data) (\<lambda>_.
     run_parse (pop_object prop_info_TYPE (enum_try_from param_type_variants)
       (\<lambda>_. drain_properties (enum_try_from prop_info_variants) from_bits)) data))))))))))))))))"

definition exercise_raw_parser :: "(u32 \<Rightarrow> u32 option) \<Rightarrow> byte list \<Rightarrow> unit pod_result" where
  "exercise_raw_parser from_bits data =
     rbind (discard (raw_pod_wrap data)) (\<lambda>_.
     rbind (discard (raw_pod_owned_wrap data)) (\<lambda>_.
     rbind (run_parse pop_raw_pod data) (\<lambda>_.
     rbind (run_parse (\<lambda>p. fst (pop_array_raw (\<lambda>_ _ s. (Ok (), s)) () p)) data) (\<lambda>_.
     rbind (run_parse (\<lambda>p. fst (pop_choice_raw (\<lambda>_ _ s. (Ok (), s)) () p)) data) (\<lambda>_.
     run_parse (pop_object_raw Some (\<lambda>_ (_ :: u32). drain_properties_raw from_bits)) data)))))"

definition fuzz_pod_decode :: "(u32 \<Rightarrow> u32 option) \<Rightarrow> byte list \<Rightarrow> unit pod_result" where
  "fuzz_pod_decode from_bits input =
     rbind (subslice input 0 (min (length input) MAX_INPUT_SIZE)) (\<lambda>data.
     rbind (exercise_typed_decoders data) (\<lambda>_.
     rbind (exercise_typed_parser from_bits data) (\<lambda>_.
     exercise_raw_parser from_bits data)))"

section \<open>No input makes a decoder panic\<close>

lemma safe_drain_raw_pods [safe_intros]: "parse_safe drain_raw_pods"
proof -
  have "stays p (drain_raw_pods p)" if "parser_wf p" for p
    using that
  proof (induction p rule: drain_raw_pods.induct)
    case (1 p)
    have first: "stays p (pop_raw_pod p)"
      by (rule parse_safeD [OF safe_pop_raw_pod "1.prems"])
    obtain r p' where pop: "pop_raw_pod p = (r, p')"
      by (cases "pop_raw_pod p")
    show ?case
    proof (cases "available p = 0")
      case False
      have "stays p' (drain_raw_pods p')" if "r = Ok v" for v
        using "1.IH" [OF False pop [symmetric] that] first pop by (simp add: stays_def)
      then show ?thesis
        using first pop False
        by (cases r) (auto simp: drain_raw_pods.simps [of p] stays_def intro: stays_trans)
    qed (use "1.prems" in \<open>simp add: drain_raw_pods.simps [of p] stays_def\<close>)
  qed
  then show ?thesis
    by (simp add: parse_safe_def)
qed

lemma safe_drain_properties [safe_intros]: "parse_safe (drain_properties k_try_from from_bits)"
proof -
  have "stays p (drain_properties k_try_from from_bits p)" if "parser_wf p" for p
    using that
  proof (induction k_try_from from_bits p rule: drain_properties.induct)
    case (1 k_try_from from_bits p)
    have first: "stays p (pop_property k_try_from from_bits p)"
      by (rule parse_safeD [OF safe_pop_property "1.prems"])
    obtain r p' where pop: "pop_property k_try_from from_bits p = (r, p')"
      by (cases "pop_property k_try_from from_bits p")
    show ?case
    proof (cases "available p = 0")
      case False
      have "stays p' (drain_properties k_try_from from_bits p')" if "r = Ok (Some v)" for v
        using "1.IH" [OF False pop [symmetric] that] first pop by (simp add: stays_def)
      then show ?thesis
        using first pop False
        by (cases r)
          (auto simp: drain_properties.simps [of k_try_from from_bits p] stays_def
            intro: stays_trans split: option.splits)
    qed (use "1.prems" in \<open>simp add: drain_properties.simps [of k_try_from from_bits p] stays_def\<close>)
  qed
  then show ?thesis
    by (simp add: parse_safe_def)
qed

lemma drain_properties_raw_eq:
  "drain_properties_raw from_bits p = drain_properties Some from_bits p"
  by (induction from_bits p rule: drain_properties_raw.induct)
    (simp add: drain_properties_raw.simps drain_properties.simps [of Some] pop_property_raw_eq
      split: prod.splits result.splits option.splits)

lemma run_parse_safe: "parse_safe f \<Longrightarrow> run_parse f data = Ok ()"
  by (simp add: run_parse_def safe_new)

context u32_conv
begin

lemma safe_pop_id: "parse_safe (pop_id into try_from)"
  unfolding pop_id_def by (rule id.as_pod.safe_pop_pod)

end

context primitive_codec
begin

lemma safe_pop_array: "parse_safe (pop_array P)"
  unfolding pop_array_def by (rule as_array.safe_pop_pod)

lemma safe_pop_choice: "parse_safe (pop_choice P)"
  unfolding pop_choice_def by (rule as_choice.safe_pop_pod)

end

lemma exercise_typed_decoders_Ok: "exercise_typed_decoders data = Ok ()"
  by (simp add: exercise_typed_decoders_def unit.as_pod.decode_total bool.as_pod.decode_total
      param_type.id.as_pod.decode_total i32.as_pod.decode_total i64.as_pod.decode_total
      f32.as_pod.decode_total f64.as_pod.decode_total string.decode_total bytes.decode_total
      pointer.decode_total fd.as_pod.decode_total rectangle.as_pod.decode_total
      fraction.as_pod.decode_total i32.as_array.decode_total i32.as_choice.decode_total
      opt_i32.as_option.decode_total)

lemma exercise_typed_parser_Ok: "exercise_typed_parser from_bits data = Ok ()"
  by (simp add: exercise_typed_parser_def run_parse_safe safe_intros param_type.safe_pop_id
      i32.safe_pop_array i32.safe_pop_choice)

lemma exercise_raw_parser_Ok: "exercise_raw_parser from_bits data = Ok ()"
proof -
  have "parse_safe (\<lambda>p. fst (pop_array_raw (\<lambda>_ _ s. (Ok (), s)) () p))"
    "parse_safe (\<lambda>p. fst (pop_choice_raw (\<lambda>_ _ s. (Ok (), s)) () p))"
    by (simp_all add: parse_safe_def pop_array_raw_safe pop_choice_raw_safe)
  moreover have "drain_properties_raw from_bits = drain_properties Some from_bits"
    by (rule ext) (rule drain_properties_raw_eq)
  ultimately show ?thesis
    by (simp add: exercise_raw_parser_def run_parse_safe safe_intros raw_wrap_total
        raw_owned_wrap_total)
qed

lemma fuzz_pod_decode_Ok: "fuzz_pod_decode from_bits input = Ok ()"
  by (simp add: fuzz_pod_decode_def subslice_def exercise_typed_decoders_Ok exercise_typed_parser_Ok
      exercise_raw_parser_Ok)

end
