(* ===== verification/Pod_Claims.thy ===== *)
theory Pod_Claims
  imports Pod_Robustness
begin

text \<open>
  What the POD layer promises to its users: no input makes a decoder or parser panic, and what
  the encoders write is what the decoders read.
\<close>

text \<open>
  C11. No byte string makes the POD decoders or parsers panic: the fuzz target, which runs every
  typed decoder, every parser method and the raw wrappers on the input, always returns, whatever
  \<open>PropertyFlags::from_bits\<close> accepts.
\<close>

theorem fuzz_target_never_panics: "fuzz_pod_decode from_bits input = Ok ()"
  by (rule fuzz_pod_decode_Ok)

text \<open>
  C36. Every primitive value, in every buffer: a buffer of 8 bytes for the unit and of 16 bytes for
  any other primitive is enough and necessary, the bytes behind the pod stay as they were, and
  decoding gives the value back with the number of bytes that were written.
\<close>

theorem primitives_round_trip:
  "round_trip (pod_prim prim_unit) () () 8 \<and>
   round_trip (pod_prim prim_bool) b b 16 \<and>
   round_trip (pod_prim (prim_id (enum_into_u32 param_type_variants)
     (enum_try_from param_type_variants))) i i 16 \<and>
   round_trip (pod_prim prim_i32) n n 16 \<and>
   round_trip (pod_prim prim_i64) l l 16 \<and>
   round_trip (pod_prim prim_f32) x x 16 \<and>
   round_trip (pod_prim prim_f64) y y 16 \<and>
   round_trip (pod_prim prim_fd) f f 16 \<and>
   round_trip (pod_prim prim_rectangle) r r 16 \<and>
   round_trip (pod_prim prim_fraction) q q 16"
  using unit.as_pod.round_trip_fits bool.as_pod.round_trip_fits [of b]
    param_type.id.as_pod.round_trip_fits [of i] i32.as_pod.round_trip_fits [of n]
    i64.as_pod.round_trip_fits [of l] f32.as_pod.round_trip_fits [of x]
    f64.as_pod.round_trip_fits [of y] fd.as_pod.round_trip_fits [of f]
    rectangle.as_pod.round_trip_fits [of r] fraction.as_pod.round_trip_fits [of q]
  by (simp add: prim_unit_def prim_bool_def prim_id_def prim_i32_def prim_i64_def prim_f32_def
      prim_f64_def prim_fd_def prim_rectangle_def prim_fraction_def pad_8_def)

text \<open>
  C37. A string of up to 4 GiB that is UTF-8 (every Rust \<open>&str\<close> is) and a byte array of less than
  4 GiB survive encoding and decoding, and take the padded size the format prescribes.
\<close>

theorem string_bytes_round_trip:
  assumes "valid_utf8 s" and "length s + 1 < 2 ^ 32" and "length bs < 2 ^ 32"
  shows "round_trip pod_string s s (8 + (length s + 1) + pad_8 (length s + 1)) \<and>
    round_trip pod_bytes bs bs (8 + length bs + pad_8 (length bs))"
  using string.round_trip_fits [of s] bytes.round_trip_fits [of bs] assms
  by (simp add: string_need_def bytes_need_def)

theorem string_bytes_round_trip_witness:
  "round_trip pod_string [0x68, 0x69] [0x68, 0x69] 16 \<and> round_trip pod_bytes [1, 2, 3] [1, 2, 3] 16"
proof -
  have "valid_utf8 [0x68, 0x69]"
    by code_simp
  then show ?thesis
    using string_bytes_round_trip [of "[0x68, 0x69]" "[1, 2, 3]"] by (simp add: pad_8_def)
qed

text \<open>
  C38. Arrays and choices of 32-bit integers come back element by element, in order, for every
  choice type (none, range, step, enumeration, flags).
\<close>

theorem containers_round_trip:
  assumes "8 + 4 * length vs < 2 ^ 32" and "16 + 4 * length (choice_children c) < 2 ^ 32"
  shows "round_trip (pod_array prim_i32) vs vs (array_need prim_i32 vs) \<and>
    round_trip (pod_choice prim_i32) c c (16 + choice_size prim_i32 c)"
  using i32.as_array.round_trip_fits [of vs] i32.as_choice.round_trip_fits [of c] assms
  by (simp add: prim_i32_def)

theorem containers_round_trip_witness:
  "round_trip (pod_array prim_i32) [1, 2, 3] [1, 2, 3] 32 \<and>
   round_trip (pod_choice prim_i32) (Choice_Range 48000 1 192000) (Choice_Range 48000 1 192000) 56"
  using containers_round_trip [of "[1, 2, 3]" "Choice_Range 48000 1 192000"]
  by (simp add: array_need_def choice_size_def prim_i32_def pad_8_def)

text \<open>
  A decoded string is always UTF-8, also when the bytes on the wire are not.
\<close>

theorem decoded_string_is_utf8:
  assumes "decode pod_string data = Ok (s, n)"
  shows "valid_utf8 s"
  using assms by (rule string_decode_utf8)

theorem decoded_string_is_utf8_witness:
  "valid_utf8 [0xEF, 0xBF, 0xBD]"
proof -
  have "from_utf8_lossy [0xFF] = [0xEF, 0xBF, 0xBD]"
    by code_simp
  moreover have "pod_total_size 2 = Ok 16"
    by (simp add: pod_total_size_def checked_add_usize_def pad_8_def usize_limit_eq)
  ultimately have "decode pod_string [2, 0, 0, 0, 8, 0, 0, 0, 0xFF, 0, 0, 0, 0, 0, 0, 0] =
      Ok ([0xEF, 0xBF, 0xBD], 16)"
    by (simp add: pod_string_def string_decode_def u32_at_def subslice_def index_at_def
        u32_of_bytes_def)
  then show ?thesis
    by (rule decoded_string_is_utf8)
qed

text \<open>
  C40. The guard against lengths beyond \<open>u32::MAX\<close> compares an already truncated length and never
  fires: a string of \<open>2 ^ 32 - 1\<close> bytes is encoded with the size field 0.
\<close>

theorem string_size_field_wraps:
  assumes "length s + 1 = 2 ^ 32" and "8 + length s + 1 \<le> length data"
  shows "\<exists>data' n. encode pod_string s data = Ok (data', n) \<and> u32_at data' 0 = (Ok 0 :: u32 pod_result)"
proof -
  have "string_need s = 8 + length s + 1"
    using assms(1) by (simp add: string_need_def pad_8_def)
  with assms have "encode pod_string s data = Ok (string_image s @ drop (string_need s) data, string_need s)"
    by (simp add: pod_string_def string_encode_eq)
  moreover have "(of_nat (length s + 1) :: u32) = 0"
    unfolding assms(1) by simp
  then have "u32_at (string_image s @ drop (string_need s) data) 0 = (Ok 0 :: u32 pod_result)"
    by (simp add: string_image_def codec_simps del: of_nat_Suc of_nat_add)
  ultimately show ?thesis
    by blast
qed

theorem string_size_field_wraps_witness:
  "\<exists>data' n. encode pod_string (replicate (2 ^ 32 - 1) 0x61) (replicate (8 + 2 ^ 32) 0) =
     Ok (data', n) \<and> u32_at data' 0 = (Ok 0 :: u32 pod_result)"
  by (rule string_size_field_wraps) (simp_all only: length_replicate, simp_all)

end
