(* ===== verification/Frame_Header.thy ===== *)
theory Frame_Header
  imports Prelude
begin

text \<open>
  \<^verbatim>\<open>protocol/src/native/frame/mod.rs\<close> and \<^verbatim>\<open>header.rs\<close>: limits, errors and the 16 byte frame header
  of the native protocol. Opcode and payload length share one 32-bit word.
\<close>

unbundle bit_operations_syntax

type_synonym raw_fd = i32

definition HEADER_LEN :: nat where
  "HEADER_LEN = 16"

definition WIRE_MAX_PAYLOAD :: nat where
  "WIRE_MAX_PAYLOAD = 0xFFFFFF"

record frame_limits =
  max_payload :: nat
  max_frame_fds :: nat
  max_pending_fds :: nat
  recv_chunk_bytes :: nat
  recv_control_fds :: nat
  max_queued_bytes :: nat
  max_queued_fds :: nat

definition default_limits :: frame_limits where
  "default_limits =
     \<lparr>max_payload = WIRE_MAX_PAYLOAD, max_frame_fds = 1024, max_pending_fds = 1024,
      recv_chunk_bytes = 32 * 1024, recv_control_fds = 64,
      max_queued_bytes = WIRE_MAX_PAYLOAD * 4, max_queued_fds = 1024\<rparr>"

datatype io_error = Interrupted | Io_WouldBlock | Other_io i32 | Stream_position_overflow

datatype (plugins only: code size) frame_error =
    Io io_error
  | PayloadTooLarge nat nat
  | TooManyFrameFds nat nat
  | TooManyPendingFds nat nat
  | SendQueueFull nat nat nat
  | SendFdQueueFull nat nat nat
  | TruncatedControl
  | MalformedControl
  | MissingFds nat nat
  | UnexpectedFdsAtEof nat
  | TruncatedFrame nat nat
  | InvalidFdIndex u32 nat
  | FdAlreadyTaken u32
  | WriteZero
  | Poisoned

record header =
  object_id :: u32
  opcode :: byte
  payload_len :: u32
  seq :: u32
  n_fds :: u32

definition header_decode :: "byte list \<Rightarrow> (header, frame_error) result" where
  "header_decode bytes =
     rbind (u32_at bytes 0) (\<lambda>object_id.
     rbind (u32_at bytes 4) (\<lambda>opcode_size.
     rbind (u32_at bytes 8) (\<lambda>seq.
     rbind (u32_at bytes 12) (\<lambda>n_fds.
     Ok \<lparr>object_id = object_id, opcode = ucast (drop_bit 24 opcode_size),
         payload_len = opcode_size AND of_nat WIRE_MAX_PAYLOAD, seq = seq, n_fds = n_fds\<rparr>))))"

definition header_encode :: "header \<Rightarrow> (byte list, frame_error) result" where
  "header_encode h =
     (let len = unat (payload_len h) in
      if len > WIRE_MAX_PAYLOAD then Err (PayloadTooLarge len WIRE_MAX_PAYLOAD)
      else rbind (copy_into (replicate HEADER_LEN 0) 0 (u32_bytes (object_id h))) (\<lambda>bytes.
        rbind (copy_into bytes 4 (u32_bytes (push_bit 24 (ucast (opcode h)) OR payload_len h))) (\<lambda>bytes.
        rbind (copy_into bytes 8 (u32_bytes (seq h))) (\<lambda>bytes.
        copy_into bytes 12 (u32_bytes (n_fds h))))))"

text \<open>Descriptors of a received frame, taken by index, each at most once.\<close>

type_synonym frame_fds = "raw_fd option list"

definition fds_get :: "frame_fds \<Rightarrow> u32 \<Rightarrow> (raw_fd, frame_error) result" where
  "fds_get fds index =
     (if unat index < length fds
      then ok_or (fds ! unat index) (FdAlreadyTaken index)
      else Err (InvalidFdIndex index (length fds)))"

definition fds_take :: "frame_fds \<Rightarrow> u32 \<Rightarrow> (raw_fd, frame_error) result \<times> frame_fds" where
  "fds_take fds index =
     (if unat index < length fds
      then (ok_or (fds ! unat index) (FdAlreadyTaken index), fds[unat index := None])
      else (Err (InvalidFdIndex index (length fds)), fds))"

section \<open>Header round trips\<close>

lemma mask24: "(0xFFFFFF :: u32) = mask 24" by (simp add: mask_eq_exp_minus_1)
lemma header_word_split:
  fixes w :: u32
  shows "push_bit 24 (ucast (ucast (drop_bit 24 w) :: byte)) OR (w AND 0xFFFFFF) = w"
  unfolding mask24
  by (rule bit_word_eqI) (auto simp: bit_simps)

lemma header_word_join:
  fixes op :: byte and len :: u32
  assumes "unat len \<le> 0xFFFFFF"
  shows "ucast (drop_bit 24 (push_bit 24 (ucast op) OR len)) = op"
    and "(push_bit 24 (ucast op) OR len) AND 0xFFFFFF = len"
proof -
  have len: "take_bit 24 len = len"
    using assms by (intro unsigned_word_eqI [where 'a = nat]) (simp add: unsigned_take_bit_eq take_bit_nat_eq_self)
  then have high: "\<not> bit len n" if "24 \<le> n" for n
    using that by (metis bit_take_bit_iff leD)
  show "ucast (drop_bit 24 (push_bit 24 (ucast op) OR len)) = op"
    by (rule bit_word_eqI) (auto simp: bit_simps high)
  show "(push_bit 24 (ucast op) OR len) AND 0xFFFFFF = len"
    unfolding mask24 by (rule bit_word_eqI) (auto simp: bit_simps high not_le dest: high [THEN notE, rotated])
qed

definition header_image :: "header \<Rightarrow> byte list" where
  "header_image h = u32_bytes (object_id h) @
     u32_bytes (push_bit 24 (ucast (opcode h)) OR payload_len h) @ u32_bytes (seq h) @ u32_bytes (n_fds h)"

lemma length_header_image [simp]: "length (header_image h) = HEADER_LEN"
  by (simp add: header_image_def HEADER_LEN_def)

lemma header_encode_eq:
  "unat (payload_len h) \<le> WIRE_MAX_PAYLOAD \<Longrightarrow> header_encode h = Ok (header_image h)"
  by (simp add: header_encode_def header_image_def HEADER_LEN_def codec_simps)

lemma header_decode_image:
  assumes "unat (payload_len h) \<le> WIRE_MAX_PAYLOAD"
  shows "header_decode (header_image h @ rest) = Ok h"
  using header_word_join [of "payload_len h" "opcode h"] assms
  by (simp add: header_decode_def header_image_def codec_simps WIRE_MAX_PAYLOAD_def)

lemma header_decode_total: "HEADER_LEN \<le> length bytes \<Longrightarrow> \<exists>h. header_decode bytes = Ok h"
  by (simp add: header_decode_def u32_at_def subslice_def HEADER_LEN_def)

lemma header_decode_len:
  assumes "header_decode bytes = Ok h"
  shows "unat (payload_len h) \<le> WIRE_MAX_PAYLOAD"
proof -
  have "unat (w AND 0xFFFFFF :: u32) \<le> 0xFFFFFF" for w
    using word_and_le1 [of w "0xFFFFFF"] by (simp add: word_le_nat_alt)
  then show ?thesis
    using assms by (auto simp: header_decode_def ok_simps WIRE_MAX_PAYLOAD_def)
qed

lemma header_image_decode:
  assumes "header_decode bytes = Ok h"
  shows "header_image h = take HEADER_LEN bytes"
proof -
  have "take HEADER_LEN bytes = take 4 bytes @ take 4 (drop 4 bytes) @ take 4 (drop 8 bytes) @
      take 4 (drop 12 bytes)"
    by (simp add: HEADER_LEN_def take_add [of 4 4, simplified] take_add [of 8 4, simplified]
        take_add [of 12 4, simplified])
  then show ?thesis
    using assms
    by (auto simp: header_decode_def header_image_def ok_simps header_word_split WIRE_MAX_PAYLOAD_def
        u32_bytes_of_bytes)
qed

end
