(* ===== verification/Frame_Control.thy ===== *)
theory Frame_Control
  imports Frame_Header
begin

text \<open>
  Ancillary data: \<open>parse_control\<close> of \<^verbatim>\<open>recv.rs\<close> and the control buffer \<open>send_once\<close> of \<^verbatim>\<open>send.rs\<close>
  builds. A \<open>cmsghdr\<close> is a 64-bit length, a 32-bit level and a 32-bit type, 16 bytes aligned to 8
  (x86_64-unknown-linux-gnu). The constants of \<^verbatim>\<open>libc\<close> are parameters.
\<close>

record abi =
  sol_socket :: i32
  scm_rights :: i32
  msg_ctrunc :: i32

definition sizeof_cmsghdr :: nat where
  "sizeof_cmsghdr = 16"

definition sizeof_raw_fd :: nat where
  "sizeof_raw_fd = 4"

definition cmsg_align :: "nat \<Rightarrow> nat option" where
  "cmsg_align v = map_option (\<lambda>v. v div 8 * 8) (checked_add_usize v 7)"

definition align_up :: "nat \<Rightarrow> nat" where
  "align_up v = (v + 7) div 8 * 8"

text \<open>
  The descriptors of one \<open>SCM_RIGHTS\<close> record, up to the first negative one; the flag tells
  whether there was one. Every descriptor in the first component is owned by the caller.
\<close>

fun adopt_fds :: "byte list \<Rightarrow> nat \<Rightarrow> nat \<Rightarrow> raw_fd list \<times> bool" where
  "adopt_fds control start 0 = ([], False)"
| "adopt_fds control start (Suc n) =
     (let fd = u32_of_bytes (take 4 (drop start control)) in
      if sint fd < 0 then ([], True)
      else case adopt_fds control (start + sizeof_raw_fd) n of (fds, bad) \<Rightarrow> (fd # fds, bad))"

definition rights_of :: "byte list \<Rightarrow> nat \<Rightarrow> nat \<Rightarrow> raw_fd list \<times> bool" where
  "rights_of control offset len =
     (let visible = length control;
          data_start = checked_add_usize offset sizeof_cmsghdr;
          data_end = min (case checked_add_usize offset len of Some e \<Rightarrow> e | None \<Rightarrow> visible) visible;
          data_len = (case data_start of
              Some start \<Rightarrow> if start \<le> data_end then data_end - start else 0 | None \<Rightarrow> 0) in
      case adopt_fds control (case data_start of Some start \<Rightarrow> start | None \<Rightarrow> 0)
             (data_len div sizeof_raw_fd) of
        (fds, bad) \<Rightarrow> (fds, bad \<or> data_len mod sizeof_raw_fd \<noteq> 0))"

text \<open>
  One record after the other. The result is what has been adopted so far and the error, if any;
  on an error the adopted descriptors are closed by the caller.
\<close>

function parse_cmsgs :: "abi \<Rightarrow> byte list \<Rightarrow> nat \<Rightarrow> raw_fd list \<Rightarrow> raw_fd list \<times> frame_error option" where
  "parse_cmsgs abi control offset owned =
     (if offset < length control then
        if length control - offset < sizeof_cmsghdr then (owned, Some MalformedControl)
        else let len = unat (u64_of_bytes (take 8 (drop offset control)));
                 level = u32_of_bytes (take 4 (drop (offset + 8) control));
                 typ = u32_of_bytes (take 4 (drop (offset + 12) control));
                 (fds, bad) = (if level = sol_socket abi \<and> typ = scm_rights abi
                               then rights_of control offset len else ([], False));
                 owned = owned @ fds in
          if bad then (owned, Some MalformedControl)
          else if len < sizeof_cmsghdr \<or> len > length control - offset
          then (owned, Some MalformedControl)
          else (case Option.bind (cmsg_align len) (checked_add_usize offset) of
              None \<Rightarrow> (owned, Some MalformedControl)
            | Some next \<Rightarrow>
                if next \<le> offset then (owned, Some MalformedControl)
                else parse_cmsgs abi control next owned)
      else (owned, None))"
  by pat_completeness auto
termination
  by (relation "measure (\<lambda>(abi, control, offset, owned). length control - offset)") auto

declare parse_cmsgs.simps [simp del]

definition parse_control :: "abi \<Rightarrow> byte list \<Rightarrow> i32 \<Rightarrow> raw_fd list \<times> frame_error option" where
  "parse_control abi control flags =
     (case parse_cmsgs abi control 0 [] of
        (owned, Some e) \<Rightarrow> (owned, Some e)
      | (owned, None) \<Rightarrow>
          (owned, if flags AND msg_ctrunc abi \<noteq> 0 then Some TruncatedControl else None))"

text \<open>
  The control buffer of \<open>send_once\<close>: zeroed words, into which the header and then the
  descriptors are written through raw pointers.
\<close>

definition poke :: "byte list \<Rightarrow> nat \<Rightarrow> byte list \<Rightarrow> byte list" where
  "poke xs a bs = take a xs @ bs @ drop (a + length bs) xs"

fun poke_fds :: "byte list \<Rightarrow> nat \<Rightarrow> raw_fd list \<Rightarrow> byte list" where
  "poke_fds control start [] = control"
| "poke_fds control start (fd # fds) =
     poke_fds (poke control start (u32_bytes fd)) (start + sizeof_raw_fd) fds"

definition build_control :: "abi \<Rightarrow> raw_fd list \<Rightarrow> byte list" where
  "build_control abi fds =
     (let data_offset = align_up sizeof_cmsghdr;
          control_len = align_up (data_offset + sizeof_raw_fd * length fds);
          control = replicate ((control_len + 7) div 8 * 8) 0;
          header = u64_bytes (of_nat (data_offset + sizeof_raw_fd * length fds)) @
            u32_bytes (sol_socket abi) @ u32_bytes (scm_rights abi) in
      poke_fds (poke control 0 header) data_offset fds)"

section \<open>What is sent is what is adopted\<close>

lemma poke_fds_eq:
  "start + 4 * length fds \<le> length xs \<Longrightarrow>
    poke_fds xs start fds = take start xs @ concat (map u32_bytes fds) @ drop (start + 4 * length fds) xs"
proof (induction fds arbitrary: xs start)
  case (Cons fd fds)
  then show ?case
    by (simp add: sizeof_raw_fd_def poke_def min_absorb2 algebra_simps)
qed simp

lemma length_concat_u32: "length (concat (map u32_bytes fds)) = 4 * length fds"
  by (induction fds) simp_all

lemma adopt_fds_image:
  assumes "\<forall>fd\<in>set fds. 0 \<le> sint fd"
  shows "adopt_fds (pre @ concat (map u32_bytes fds) @ post) (length pre) (length fds) = (fds, False)"
  using assms
proof (induction fds arbitrary: pre)
  case (Cons fd fds)
  then show ?case
    using Cons.IH [of "pre @ u32_bytes fd"] by (simp add: sizeof_raw_fd_def)
qed simp

definition control_image :: "abi \<Rightarrow> raw_fd list \<Rightarrow> byte list" where
  "control_image abi fds =
     u64_bytes (of_nat (16 + 4 * length fds)) @ u32_bytes (sol_socket abi) @ u32_bytes (scm_rights abi) @
     concat (map u32_bytes fds) @ replicate (align_up (4 * length fds) - 4 * length fds) 0"

lemma align_up_ge: "v \<le> align_up v"
  by (simp add: align_up_def)

lemma align_up_16: "align_up (16 + v) = 16 + align_up v"
  unfolding align_up_def by presburger

lemma build_control_eq: "build_control abi fds = control_image abi fds"
proof -
  let ?n = "length fds"
  let ?h = "u64_bytes (of_nat (16 + 4 * ?n)) @ u32_bytes (sol_socket abi) @ u32_bytes (scm_rights abi)"
  have len: "align_up (16 + 4 * ?n) = 16 + align_up (4 * ?n)" "align_up 16 = 16"
      "(16 + align_up (4 * ?n) + 7) div 8 * 8 = 16 + align_up (4 * ?n)"
    by (simp_all add: align_up_16) (simp_all add: align_up_def)
  have "poke (replicate (16 + align_up (4 * ?n)) 0) 0 ?h = ?h @ replicate (align_up (4 * ?n)) 0"
    by (simp add: poke_def)
  moreover have "poke_fds (?h @ replicate (align_up (4 * ?n)) 0) 16 fds =
      ?h @ concat (map u32_bytes fds) @ replicate (align_up (4 * ?n) - 4 * ?n) 0"
    using align_up_ge [of "4 * ?n"] by (subst poke_fds_eq) simp_all
  ultimately show ?thesis
    by (simp only: build_control_def control_image_def sizeof_cmsghdr_def sizeof_raw_fd_def Let_def len
        append.assoc)
qed

lemma length_control_image: "length (control_image abi fds) = 16 + align_up (4 * length fds)"
  using align_up_ge [of "4 * length fds"] by (simp add: control_image_def length_concat_u32)

lemma rights_of_start:
  assumes "16 + 4 * n \<le> length control" and "n < 2 ^ 32" and "adopt_fds control 16 n = (fds, False)"
  shows "rights_of control 0 (16 + 4 * n) = (fds, False)"
  using assms
  by (simp add: rights_of_def checked_add_usize_def usize_limit_eq sizeof_cmsghdr_def
      sizeof_raw_fd_def min_absorb1)

text \<open>The kernel hands the record over with the padding or without it.\<close>

lemma parse_cmsgs_image:
  assumes "\<forall>fd\<in>set fds. 0 \<le> sint fd" and "length fds < 2 ^ 32"
    and "16 + 4 * length fds \<le> visible"
  shows "parse_cmsgs abi (take visible (control_image abi fds)) 0 [] = (fds, None)"
proof -
  let ?n = "length fds"
  let ?c = "take visible (control_image abi fds)"
  obtain pad where c: "?c = (u64_bytes (of_nat (16 + 4 * ?n)) @ u32_bytes (sol_socket abi) @
      u32_bytes (scm_rights abi)) @ concat (map u32_bytes fds) @ pad" and pad: "length pad < 8"
  proof
    show "?c = (u64_bytes (of_nat (16 + 4 * ?n)) @ u32_bytes (sol_socket abi) @
      u32_bytes (scm_rights abi)) @ concat (map u32_bytes fds) @
        take (visible - 16 - 4 * ?n) (replicate (align_up (4 * ?n) - 4 * ?n) 0)"
      using assms(3) by (simp add: control_image_def length_concat_u32)
    show "length (take (visible - 16 - 4 * ?n) (replicate (align_up (4 * ?n) - 4 * ?n) (0 :: byte))) < 8"
      by (simp add: align_up_def)
  qed
  have len: "unat (of_nat (16 + 4 * ?n) :: u64) = 16 + 4 * ?n"
    using assms(2) by (simp add: unat_of_nat del: of_nat_add)
  have total: "length ?c = 16 + 4 * ?n + length pad"
    unfolding c by (simp add: length_concat_u32)
  have adopt: "adopt_fds ?c 16 ?n = (fds, False)"
    using adopt_fds_image [OF assms(1), of "u64_bytes (of_nat (16 + 4 * ?n)) @ u32_bytes (sol_socket abi) @
      u32_bytes (scm_rights abi)" pad] unfolding c by simp
  have "rights_of ?c 0 (16 + 4 * ?n) = (fds, False)"
    using assms(2) adopt total by (intro rights_of_start) simp_all
  moreover have "Option.bind (cmsg_align (16 + 4 * ?n)) (checked_add_usize 0) = Some (align_up (16 + 4 * ?n))"
    using assms(2) by (simp add: cmsg_align_def checked_add_usize_def usize_limit_eq align_up_def)
  moreover have "length ?c \<le> align_up (16 + 4 * ?n)"
    using length_control_image [of abi fds] align_up_16 [of "4 * ?n"] by simp
  moreover have "u64_of_bytes (take 8 ?c) = of_nat (16 + 4 * ?n)"
      "u32_of_bytes (take 4 (drop 8 ?c)) = sol_socket abi" "u32_of_bytes (take 4 (drop 12 ?c)) = scm_rights abi"
    unfolding c by simp_all
  ultimately show ?thesis
    using len total
    by (simp add: parse_cmsgs.simps [of abi ?c 0] parse_cmsgs.simps [of abi ?c "align_up _"]
        sizeof_cmsghdr_def)
qed

lemma parse_control_image:
  assumes "\<forall>fd\<in>set fds. 0 \<le> sint fd" and "length fds < 2 ^ 32"
    and "16 + 4 * length fds \<le> visible" and "flags AND msg_ctrunc abi = 0"
  shows "parse_control abi (take visible (build_control abi fds)) flags = (fds, None)"
  using parse_cmsgs_image [OF assms(1,2,3), of abi] assms(4)
  by (simp add: parse_control_def build_control_eq)

lemma parse_control_empty: "flags AND msg_ctrunc abi = 0 \<Longrightarrow> parse_control abi [] flags = ([], None)"
  by (simp add: parse_control_def parse_cmsgs.simps)

lemma parse_control_truncated:
  assumes "flags AND msg_ctrunc abi \<noteq> 0"
  shows "snd (parse_control abi control flags) \<noteq> None"
  using assms by (auto simp: parse_control_def split: prod.splits option.splits)

text \<open>Only non-negative descriptors are ever adopted.\<close>

lemma adopt_fds_nonneg: "adopt_fds control start n = (fds, bad) \<Longrightarrow> \<forall>fd\<in>set fds. 0 \<le> sint fd"
  by (induction n arbitrary: start fds bad) (auto simp: Let_def split: if_splits prod.splits)

lemma rights_of_nonneg: "rights_of control offset len = (fds, bad) \<Longrightarrow> \<forall>fd\<in>set fds. 0 \<le> sint fd"
  unfolding rights_of_def Let_def by (auto split: prod.splits dest!: adopt_fds_nonneg)

lemma parse_cmsgs_nonneg:
  assumes "\<forall>fd\<in>set owned. 0 \<le> sint fd"
  shows "\<forall>fd\<in>set (fst (parse_cmsgs abi control offset owned)). 0 \<le> sint fd"
  using assms
proof (induction abi control offset owned rule: parse_cmsgs.induct)
  case (1 abi control offset owned)
  let ?len = "unat (u64_of_bytes (take 8 (drop offset control)))"
  define rights where "rights = (if u32_of_bytes (take 4 (drop (offset + 8) control)) = sol_socket abi \<and>
      u32_of_bytes (take 4 (drop (offset + 12) control)) = scm_rights abi
    then rights_of control offset ?len else ([], False))"
  obtain fds bad where fds: "rights = (fds, bad)"
    by (cases rights)
  then have nonneg: "\<forall>fd\<in>set (owned @ fds). 0 \<le> sint fd"
    using "1.prems" rights_of_nonneg by (auto simp: rights_def split: if_splits)
  show ?case
  proof (cases "Option.bind (cmsg_align ?len) (checked_add_usize offset)")
    case None
    with nonneg fds "1.prems" show ?thesis
      by (subst parse_cmsgs.simps) (simp add: rights_def Let_def)
  next
    case (Some pos)
    with nonneg fds "1.prems" "1.IH" show ?thesis
      by (subst parse_cmsgs.simps) (simp add: rights_def Let_def)
  qed
qed

end
