(* ===== verification/Frame_Receiver.thy ===== *)
theory Frame_Receiver
  imports Frame_Control
begin

text \<open>
  \<^verbatim>\<open>protocol/src/native/frame/recv.rs\<close>: reassembly of frames and their descriptors from a stream
  socket. The kernel is a script of \<open>recvmsg\<close> results: each call consumes one event, and a call
  past the end of the script would block. An event of more bytes than the buffer that is passed
  fills the buffer. \<open>receive\<close> also returns, as a ghost value, the chunks of bytes and descriptors
  it took over; nothing in the model reads it. Arithmetic and assertions are those of a debug
  build: an overflow or a failed \<open>debug_assert\<close> is a panic.
\<close>

record received_frame =
  rf_header :: header
  rf_payload :: "byte list"
  rf_fds :: frame_fds

datatype receive_outcome = Frame received_frame | Recv_WouldBlock | Closed

datatype recv_state =
    RS_Header
  | RS_Payload header nat nat
  | RS_Eof
  | RS_Failed

type_synonym fd_batch = "nat \<times> raw_fd list"

record frame_receiver =
  rx_limits :: frame_limits
  rx_state :: recv_state
  rx_bytes :: "byte list"
  rx_byte_base :: nat
  rx_stream_end :: nat
  rx_batches :: "fd_batch list"

datatype recv_event = Recv_msg "byte list" "byte list" i32 | Recv_error io_error

type_synonym chunk = "byte list \<times> raw_fd list"

definition receiver_new :: "frame_limits \<Rightarrow> frame_receiver" where
  "receiver_new limits =
     \<lparr>rx_limits = limits, rx_state = RS_Header, rx_bytes = [], rx_byte_base = 0, rx_stream_end = 0,
      rx_batches = []\<rparr>"

definition buffered_bytes :: "frame_receiver \<Rightarrow> nat" where
  "buffered_bytes rx = length (rx_bytes rx)"

definition pending_fds :: "frame_receiver \<Rightarrow> nat" where
  "pending_fds rx = sum_list (map (\<lambda>b. length (snd b)) (rx_batches rx))"

definition receiver_clear :: "frame_receiver \<Rightarrow> frame_receiver" where
  "receiver_clear rx =
     rx\<lparr>rx_bytes := [], rx_batches := [], rx_byte_base := rx_stream_end rx,
        rx_state := (case rx_state rx of
            RS_Failed \<Rightarrow> RS_Failed | RS_Eof \<Rightarrow> RS_Eof | _ \<Rightarrow> RS_Header)\<rparr>"

definition rx_fail :: "frame_receiver \<Rightarrow> frame_error \<Rightarrow> (receive_outcome, frame_error) result \<times> frame_receiver" where
  "rx_fail rx e = (Err e, rx\<lparr>rx_bytes := [], rx_batches := [], rx_state := RS_Failed\<rparr>)"

text \<open>The parts of one iteration: \<open>Inl\<close> is an early return, \<open>Inr\<close> goes on.\<close>

definition header_step ::
    "frame_receiver \<Rightarrow> ((receive_outcome, frame_error) result \<times> frame_receiver) + frame_receiver" where
  "header_step rx =
     (if rx_state rx = RS_Header \<and> HEADER_LEN \<le> length (rx_bytes rx) then
        case header_decode (take HEADER_LEN (rx_bytes rx)) of
          Ok header \<Rightarrow>
            let payload = unat (payload_len header);
                limit = min (max_payload (rx_limits rx)) WIRE_MAX_PAYLOAD in
            if payload > limit then Inl (rx_fail rx (PayloadTooLarge payload limit))
            else let fds = unat (n_fds header) in
              if fds > max_frame_fds (rx_limits rx)
              then Inl (rx_fail rx (TooManyFrameFds fds (max_frame_fds (rx_limits rx))))
              else let frame_start = rx_byte_base rx in
                (case checked_add_usize HEADER_LEN payload of
                   None \<Rightarrow> Inl (Err (PayloadTooLarge payload (max_payload (rx_limits rx))), rx)
                 | Some frame_len \<Rightarrow>
                     (case checked_add_usize frame_start frame_len of
                        None \<Rightarrow> Inl (rx_fail rx (TruncatedFrame (length (rx_bytes rx)) frame_len))
                      | Some frame_end \<Rightarrow>
                          Inr (rx\<lparr>rx_state := RS_Payload header frame_start frame_end\<rparr>)))
        | Err e \<Rightarrow> Inl (Err e, rx)
        | Panic \<Rightarrow> Inl (Panic, rx)
      else Inr rx)"

text \<open>The descriptors of a frame come from the front batches; a drained batch is removed.\<close>

fun take_fds :: "nat \<Rightarrow> nat \<Rightarrow> fd_batch list \<Rightarrow> (raw_fd list \<times> fd_batch list, frame_error) result" where
  "take_fds frame_end 0 batches = Ok ([], batches)"
| "take_fds frame_end (Suc n) [] = Panic"
| "take_fds frame_end (Suc n) ((at, fds) # batches) =
     (if at \<ge> frame_end then Panic
      else if length fds \<le> Suc n then
        rbind (take_fds frame_end (Suc n - length fds) batches) (\<lambda>(more, rest). Ok (fds @ more, rest))
      else Ok (take (Suc n) fds, (at, drop (Suc n) fds) # batches))"

definition eligible :: "nat \<Rightarrow> fd_batch list \<Rightarrow> nat" where
  "eligible frame_end batches =
     sum_list (map (\<lambda>b. length (snd b)) (filter (\<lambda>b. fst b < frame_end) batches))"

definition payload_step ::
    "frame_receiver \<Rightarrow> ((receive_outcome, frame_error) result \<times> frame_receiver) + frame_receiver" where
  "payload_step rx =
     (case rx_state rx of
        RS_Payload header frame_start frame_end \<Rightarrow>
          if frame_end < frame_start then Inl (Panic, rx)
          else if frame_end - frame_start \<le> length (rx_bytes rx) then
            let available = eligible frame_end (rx_batches rx); declared = unat (n_fds header) in
            if available < declared then Inl (rx_fail rx (MissingFds declared available))
            else if length (rx_bytes rx) < HEADER_LEN + unat (payload_len header) then Inl (Panic, rx)
            else let tail = drop HEADER_LEN (rx_bytes rx) in
              (case take_fds frame_end declared (rx_batches rx) of
                 Ok (fds, batches) \<Rightarrow>
                   Inl (Ok (Frame \<lparr>rf_header = header,
                                  rf_payload = take (unat (payload_len header)) tail,
                                  rf_fds = map Some fds\<rparr>),
                        rx\<lparr>rx_bytes := drop (unat (payload_len header)) tail,
                           rx_byte_base := frame_end, rx_batches := batches, rx_state := RS_Header\<rparr>)
               | Err e \<Rightarrow> Inl (Err e, rx)
               | Panic \<Rightarrow> Inl (Panic, rx))
          else Inr rx
      | _ \<Rightarrow> Inr rx)"

definition saturating_mul_usize :: "nat \<Rightarrow> nat \<Rightarrow> nat" where
  "saturating_mul_usize a b = min (a * b) (usize_limit - 1)"

fun recvmsg :: "recv_event list \<Rightarrow> (byte list \<times> byte list \<times> i32, frame_error) result \<times> recv_event list" where
  "recvmsg [] = (Err (Io Io_WouldBlock), [])"
| "recvmsg (Recv_error Interrupted # events) = recvmsg events"
| "recvmsg (Recv_error e # events) = (Err (Io e), events)"
| "recvmsg (Recv_msg bytes control flags # events) = (Ok (bytes, control, flags), events)"

definition control_space :: "nat \<Rightarrow> (nat, frame_error) result" where
  "control_space control_fds =
     rbind (ok_or (cmsg_align sizeof_cmsghdr) MalformedControl) (\<lambda>data_offset.
     rbind (ok_or (checked_add_usize data_offset (saturating_mul_usize control_fds sizeof_raw_fd))
       MalformedControl) (\<lambda>n.
     rbind (ok_or (cmsg_align n) MalformedControl) (\<lambda>control_len.
     Ok ((control_len + 7) div 8 * 8))))"

definition recv_once ::
    "abi \<Rightarrow> nat \<Rightarrow> nat \<Rightarrow> recv_event list \<Rightarrow> (chunk, frame_error) result \<times> recv_event list" where
  "recv_once abi chunk_len control_fds events =
     (case control_space control_fds of
        Ok space \<Rightarrow>
          (case recvmsg events of
             (Ok (bytes, control, flags), events') \<Rightarrow>
               (case parse_control abi (take space control) flags of
                  (owned, None) \<Rightarrow> (Ok (take chunk_len bytes, owned), events')
                | (owned, Some e) \<Rightarrow> (Err e, events'))
           | (Err e, events') \<Rightarrow> (Err e, events')
           | (Panic, events') \<Rightarrow> (Panic, events'))
      | Err e \<Rightarrow> (Err e, events)
      | Panic \<Rightarrow> (Panic, events))"

definition recv_chunk_len :: "frame_receiver \<Rightarrow> nat" where
  "recv_chunk_len rx =
     (let max_buffer = saturating_add_usize HEADER_LEN (max_payload (rx_limits rx));
          room = max_buffer - length (rx_bytes rx) in
      min (max (recv_chunk_bytes (rx_limits rx)) 1) (max room 1))"

definition eof_step :: "frame_receiver \<Rightarrow> (receive_outcome, frame_error) result \<times> frame_receiver" where
  "eof_step rx =
     (if rx_bytes rx \<noteq> [] then
        rx_fail rx (TruncatedFrame (length (rx_bytes rx))
          (case rx_state rx of RS_Payload h s e \<Rightarrow> e - s | _ \<Rightarrow> HEADER_LEN))
      else if pending_fds rx \<noteq> 0 then rx_fail rx (UnexpectedFdsAtEof (pending_fds rx))
      else (Ok Closed, rx\<lparr>rx_state := RS_Eof\<rparr>))"

definition data_step ::
    "frame_receiver \<Rightarrow> byte list \<Rightarrow> raw_fd list
      \<Rightarrow> ((receive_outcome, frame_error) result \<times> frame_receiver) + frame_receiver" where
  "data_step rx bytes fds =
     (let pending = pending_fds rx in
      if saturating_add_usize pending (length fds) > max_pending_fds (rx_limits rx)
      then Inl (rx_fail rx (TooManyPendingFds (pending + length fds) (max_pending_fds (rx_limits rx))))
      else let at = rx_stream_end rx in
        (case checked_add_usize at (length bytes) of
           None \<Rightarrow> Inl (rx_fail rx (Io Stream_position_overflow))
         | Some stream_end \<Rightarrow>
             Inr (rx\<lparr>rx_stream_end := stream_end, rx_bytes := rx_bytes rx @ bytes,
                     rx_batches := rx_batches rx @ (if fds \<noteq> [] then [(at, fds)] else [])\<rparr>)))"

lemma recvmsg_shorter: "recvmsg events = (Ok x, events') \<Longrightarrow> length events' < length events"
  by (induction events rule: recvmsg.induct) auto

lemma recv_once_shorter:
  "recv_once abi n m events = (Ok x, events') \<Longrightarrow> length events' < length events"
  by (auto simp: recv_once_def dest: recvmsg_shorter split: result.splits prod.splits option.splits)

function receive_loop ::
    "abi \<Rightarrow> frame_receiver \<Rightarrow> recv_event list \<Rightarrow> chunk list
      \<Rightarrow> ((receive_outcome, frame_error) result \<times> frame_receiver) \<times> recv_event list \<times> chunk list" where
  "receive_loop abi rx events got =
     (case header_step rx of
        Inl ret \<Rightarrow> (ret, events, got)
      | Inr rx \<Rightarrow>
          (case payload_step rx of
             Inl ret \<Rightarrow> (ret, events, got)
           | Inr rx \<Rightarrow>
               (case recv_once abi (recv_chunk_len rx) (recv_control_fds (rx_limits rx)) events of
                  (Ok (bytes, fds), events') \<Rightarrow>
                    if bytes = [] then
                      (if fds \<noteq> [] then ((Panic, rx), events', got) else (eof_step rx, events', got))
                    else (case data_step rx bytes fds of
                        Inl ret \<Rightarrow> (ret, events', got)
                      | Inr rx \<Rightarrow> receive_loop abi rx events' (got @ [(bytes, fds)]))
                | (Err e, events') \<Rightarrow>
                    (if e = Io Io_WouldBlock then (Ok Recv_WouldBlock, rx) else rx_fail rx e, events', got)
                | (Panic, events') \<Rightarrow> ((Panic, rx), events', got))))"
  by pat_completeness auto
termination
  by (relation "measure (\<lambda>(abi, rx, events, got). length events)")
    (auto dest: recv_once_shorter [OF sym])

declare receive_loop.simps [simp del]

definition receive ::
    "abi \<Rightarrow> frame_receiver \<Rightarrow> recv_event list
      \<Rightarrow> ((receive_outcome, frame_error) result \<times> frame_receiver) \<times> recv_event list \<times> chunk list" where
  "receive abi rx events =
     (if rx_state rx = RS_Failed then ((Err Poisoned, rx), events, [])
      else if rx_state rx = RS_Eof then ((Ok Closed, rx), events, [])
      else receive_loop abi rx events [])"

section \<open>The state of a live receiver\<close>

definition frame_bytes :: "received_frame \<Rightarrow> byte list" where
  "frame_bytes f = header_image (rf_header f) @ rf_payload f"

definition frame_ok :: "frame_limits \<Rightarrow> received_frame \<Rightarrow> bool" where
  "frame_ok limits f \<longleftrightarrow>
     unat (payload_len (rf_header f)) = length (rf_payload f) \<and>
     length (rf_payload f) \<le> min (max_payload limits) WIRE_MAX_PAYLOAD \<and>
     unat (n_fds (rf_header f)) = length (rf_fds f) \<and> length (rf_fds f) \<le> max_frame_fds limits \<and>
     None \<notin> set (rf_fds f)"

definition batch_fds :: "fd_batch list \<Rightarrow> raw_fd list" where
  "batch_fds batches = concat (map snd batches)"

definition state_ok :: "frame_receiver \<Rightarrow> bool" where
  "state_ok rx \<longleftrightarrow> (case rx_state rx of
       RS_Header \<Rightarrow> True
     | RS_Payload h s e \<Rightarrow>
         s = rx_byte_base rx \<and> e = s + (HEADER_LEN + unat (payload_len h)) \<and>
         HEADER_LEN \<le> length (rx_bytes rx) \<and> header_decode (take HEADER_LEN (rx_bytes rx)) = Ok h \<and>
         unat (payload_len h) \<le> min (max_payload (rx_limits rx)) WIRE_MAX_PAYLOAD \<and>
         unat (n_fds h) \<le> max_frame_fds (rx_limits rx)
     | _ \<Rightarrow> False)"

definition batches_ok :: "nat \<Rightarrow> fd_batch list \<Rightarrow> bool" where
  "batches_ok stream_end batches \<longleftrightarrow>
     sorted_wrt (\<lambda>a b. fst a < fst b) batches \<and>
     (\<forall>b\<in>set batches. fst b < stream_end \<and> snd b \<noteq> [])"

text \<open>A limit below the largest \<open>usize\<close>, so that the saturating sum of the check cannot reach it.\<close>

definition limits_ok :: "frame_limits \<Rightarrow> bool" where
  "limits_ok limits \<longleftrightarrow> max_pending_fds limits < usize_limit - 1"

definition rx_live :: "frame_receiver \<Rightarrow> bool" where
  "rx_live rx \<longleftrightarrow>
     rx_byte_base rx + length (rx_bytes rx) = rx_stream_end rx \<and>
     batches_ok (rx_stream_end rx) (rx_batches rx) \<and>
     pending_fds rx \<le> max_pending_fds (rx_limits rx) \<and> limits_ok (rx_limits rx) \<and>
     length (rx_bytes rx) \<le> HEADER_LEN + max_payload (rx_limits rx) \<and>
     state_ok rx"

definition rx_failed :: "frame_receiver \<Rightarrow> bool" where
  "rx_failed rx \<longleftrightarrow> rx_state rx = RS_Failed \<and> rx_bytes rx = [] \<and> rx_batches rx = []"

text \<open>No complete frame is buffered.\<close>

definition incomplete :: "frame_receiver \<Rightarrow> bool" where
  "incomplete rx \<longleftrightarrow> (case rx_state rx of
       RS_Header \<Rightarrow> length (rx_bytes rx) < HEADER_LEN
     | RS_Payload h s e \<Rightarrow> length (rx_bytes rx) < HEADER_LEN + unat (payload_len h)
     | _ \<Rightarrow> False)"

lemma pending_fds_batch: "pending_fds rx = length (batch_fds (rx_batches rx))"
  by (simp add: pending_fds_def batch_fds_def length_concat comp_def)

lemma rx_fail_failed [simp]: "rx_fail rx e = (Err e, rx') \<Longrightarrow> rx_failed rx'"
  by (auto simp: rx_fail_def rx_failed_def)

lemma fst_rx_fail [simp]: "fst (rx_fail rx e) = Err e" "rx_failed (snd (rx_fail rx e))"
  by (simp_all add: rx_fail_def rx_failed_def)

lemma receiver_new_live: "limits_ok limits \<Longrightarrow> rx_live (receiver_new limits)"
  by (simp add: rx_live_def receiver_new_def pending_fds_def state_ok_def batches_ok_def)

lemma header_step_Inl:
  assumes "rx_live rx" and "header_step rx = Inl ret"
  shows "\<exists>e. fst ret = Err e \<and> rx_failed (snd ret)"
proof -
  have len: "HEADER_LEN \<le> length (rx_bytes rx)" "rx_state rx = RS_Header"
    using assms(2) by (auto simp: header_step_def split: if_splits)
  then obtain h where h: "header_decode (take HEADER_LEN (rx_bytes rx)) = Ok h"
    using header_decode_total [of "take HEADER_LEN (rx_bytes rx)"] by auto
  have "unat (payload_len h) \<le> WIRE_MAX_PAYLOAD"
    by (rule header_decode_len [OF h])
  then have "checked_add_usize HEADER_LEN (unat (payload_len h)) = Some (HEADER_LEN + unat (payload_len h))"
    by (simp add: checked_add_usize_def usize_limit_eq HEADER_LEN_def WIRE_MAX_PAYLOAD_def)
  with assms(2) len h show ?thesis
    by (auto simp: header_step_def Let_def rx_fail_def rx_failed_def split: if_splits option.splits)
qed

lemma header_step_Inr:
  assumes "rx_live rx" and "header_step rx = Inr rx'"
  shows "rx_live rx'" and "rx_bytes rx' = rx_bytes rx" and "rx_batches rx' = rx_batches rx"
    and "rx_limits rx' = rx_limits rx" and "rx_state rx' = RS_Header \<Longrightarrow> length (rx_bytes rx') < HEADER_LEN"
proof -
  have "rx' = rx \<and> (rx_state rx = RS_Header \<longrightarrow> length (rx_bytes rx) < HEADER_LEN) \<or>
    (\<exists>h. rx' = rx\<lparr>rx_state := RS_Payload h (rx_byte_base rx)
        (rx_byte_base rx + (HEADER_LEN + unat (payload_len h)))\<rparr> \<and>
      HEADER_LEN \<le> length (rx_bytes rx) \<and> header_decode (take HEADER_LEN (rx_bytes rx)) = Ok h \<and>
      unat (payload_len h) \<le> min (max_payload (rx_limits rx)) WIRE_MAX_PAYLOAD \<and>
      unat (n_fds h) \<le> max_frame_fds (rx_limits rx))"
    using assms(2)
    by (auto simp: header_step_def Let_def checked_add_usize_def
        split: if_splits result.splits option.splits)
  then show "rx_live rx'" "rx_bytes rx' = rx_bytes rx" "rx_batches rx' = rx_batches rx"
    "rx_limits rx' = rx_limits rx" "rx_state rx' = RS_Header \<Longrightarrow> length (rx_bytes rx') < HEADER_LEN"
    using assms(1) by (auto simp: rx_live_def state_ok_def pending_fds_def)
qed

lemma take_fds_ok:
  assumes "batches_ok m batches" and "n \<le> eligible frame_end batches"
  shows "\<exists>fds rest. take_fds frame_end n batches = Ok (fds, rest) \<and> length fds = n \<and>
    batch_fds batches = fds @ batch_fds rest"
  using assms
proof (induction frame_end n batches rule: take_fds.induct)
  case (2 frame_end n)
  then show ?case
    by (simp add: eligible_def)
next
  case (3 frame_end n at fds batches)
  have at: "at < frame_end"
  proof (rule ccontr)
    assume "\<not> at < frame_end"
    then have "filter (\<lambda>b. fst b < frame_end) ((at, fds) # batches) = []"
      using "3.prems"(1) by (force simp: filter_empty_conv batches_ok_def)
    with "3.prems"(2) show False
      by (simp add: eligible_def)
  qed
  show ?case
  proof (cases "length fds \<le> Suc n")
    case True
    moreover have "Suc n - length fds \<le> eligible frame_end batches"
      using "3.prems"(2) at by (simp add: eligible_def)
    ultimately obtain more rest where "take_fds frame_end (Suc n - length fds) batches = Ok (more, rest)"
        "length more = Suc n - length fds" "batch_fds batches = more @ batch_fds rest"
      using "3.IH" at "3.prems"(1) by (auto simp: batches_ok_def)
    then show ?thesis
      using at True by (simp add: batch_fds_def)
  next
    case False
    then show ?thesis
      using at by (simp add: batch_fds_def)
  qed
qed (simp add: batch_fds_def)

lemma take_fds_batches:
  assumes "take_fds frame_end n batches = Ok (fds, rest)" and "batches_ok m batches"
  shows "batches_ok m rest"
  using assms
  by (induction frame_end n batches arbitrary: fds rule: take_fds.induct)
    (auto simp: ok_simps batches_ok_def split: if_splits)

text \<open>A complete frame is delivered with its bytes and its descriptors, in order.\<close>

lemma payload_step_Inl:
  assumes live: "rx_live rx" and step: "payload_step rx = Inl ret"
  shows "(\<exists>e. fst ret = Err e) \<and> rx_failed (snd ret) \<or>
    (\<exists>f rx'. ret = (Ok (Frame f), rx') \<and> rx_live rx' \<and> rx_state rx' = RS_Header \<and>
      rx_limits rx' = rx_limits rx \<and> frame_ok (rx_limits rx) f \<and>
      rx_bytes rx = frame_bytes f @ rx_bytes rx' \<and>
      batch_fds (rx_batches rx) = map the (rf_fds f) @ batch_fds (rx_batches rx'))"
proof -
  obtain h s e where st: "rx_state rx = RS_Payload h s e"
    using step by (auto simp: payload_step_def split: recv_state.splits)
  note ok = live [unfolded rx_live_def state_ok_def st recv_state.case]
  have len: "HEADER_LEN + unat (payload_len h) \<le> length (rx_bytes rx)"
    using step ok by (auto simp: payload_step_def st split: if_splits)
  show ?thesis
  proof (cases "eligible e (rx_batches rx) < unat (n_fds h)")
    case True
    then show ?thesis
      using step ok len by (auto simp: payload_step_def st rx_fail_def rx_failed_def)
  next
    case False
    then obtain fds rest where fds: "take_fds e (unat (n_fds h)) (rx_batches rx) = Ok (fds, rest)"
        "length fds = unat (n_fds h)" "batch_fds (rx_batches rx) = fds @ batch_fds rest"
      using take_fds_ok [of "rx_stream_end rx" "rx_batches rx" "unat (n_fds h)" e] ok by auto
    let ?f = "\<lparr>rf_header = h, rf_payload = take (unat (payload_len h)) (drop HEADER_LEN (rx_bytes rx)),
      rf_fds = map Some fds\<rparr>"
    let ?rx = "rx\<lparr>rx_bytes := drop (unat (payload_len h)) (drop HEADER_LEN (rx_bytes rx)),
      rx_byte_base := e, rx_batches := rest, rx_state := RS_Header\<rparr>"
    have ret: "ret = (Ok (Frame ?f), ?rx)"
      using step ok len False fds by (simp add: payload_step_def st Let_def)
    have "header_image h = take HEADER_LEN (rx_bytes rx)"
      using header_image_decode [of "take HEADER_LEN (rx_bytes rx)" h] ok by simp
    then have "rx_bytes rx = frame_bytes ?f @ rx_bytes ?rx"
      by (simp add: frame_bytes_def del: drop_drop)
    moreover have "rx_live ?rx"
      using ok len fds take_fds_batches [OF fds(1), of "rx_stream_end rx"]
      by (auto simp: rx_live_def state_ok_def pending_fds_batch)
    moreover have "frame_ok (rx_limits rx) ?f"
      using ok len fds(2) by (auto simp: frame_ok_def)
    ultimately show ?thesis
      using ret fds(3) by (simp add: comp_def)
  qed
qed

lemma payload_step_Inr:
  assumes "rx_live rx" and "payload_step rx = Inr rx'"
    and "rx_state rx = RS_Header \<Longrightarrow> length (rx_bytes rx) < HEADER_LEN"
  shows "rx' = rx" and "incomplete rx"
  using assms
  by (auto simp: payload_step_def incomplete_def rx_live_def state_ok_def Let_def
      split: recv_state.splits if_splits result.splits)

lemma recv_chunk_fits:
  assumes "rx_live rx" and "incomplete rx"
  shows "length (rx_bytes rx) + recv_chunk_len rx \<le> HEADER_LEN + max_payload (rx_limits rx)"
proof -
  let ?buffer = "saturating_add_usize HEADER_LEN (max_payload (rx_limits rx))"
  have "length (rx_bytes rx) < HEADER_LEN + max_payload (rx_limits rx)"
    using assms by (auto simp: rx_live_def state_ok_def incomplete_def split: recv_state.splits)
  moreover have "?buffer \<le> HEADER_LEN + max_payload (rx_limits rx)"
    by (simp add: saturating_add_usize_def)
  moreover have "recv_chunk_len rx \<le> max (?buffer - length (rx_bytes rx)) 1"
    by (simp add: recv_chunk_len_def Let_def)
  ultimately show ?thesis
    by linarith
qed

lemma data_step_Inl:
  "data_step rx bytes fds = Inl ret \<Longrightarrow> \<exists>e. fst ret = Err e \<and> rx_failed (snd ret)"
  by (auto simp: data_step_def Let_def rx_fail_def rx_failed_def split: if_splits option.splits)

lemma data_step_Inr:
  assumes "rx_live rx" and "incomplete rx" and "length bytes \<le> recv_chunk_len rx" and "bytes \<noteq> []"
    and "data_step rx bytes fds = Inr rx'"
  shows "rx_live rx'" and "rx_bytes rx' = rx_bytes rx @ bytes"
    and "batch_fds (rx_batches rx') = batch_fds (rx_batches rx) @ fds"
    and "rx_limits rx' = rx_limits rx"
proof -
  let ?new = "if fds \<noteq> [] then [(rx_stream_end rx, fds)] else []"
  have rx': "rx' = rx\<lparr>rx_stream_end := rx_stream_end rx + length bytes, rx_bytes := rx_bytes rx @ bytes,
      rx_batches := rx_batches rx @ ?new\<rparr>"
    and space: "saturating_add_usize (pending_fds rx) (length fds) \<le> max_pending_fds (rx_limits rx)"
    using assms(5) by (auto simp: data_step_def Let_def checked_add_usize_def split: if_splits option.splits)
  then show "rx_bytes rx' = rx_bytes rx @ bytes" "rx_limits rx' = rx_limits rx"
    and fds: "batch_fds (rx_batches rx') = batch_fds (rx_batches rx) @ fds"
    by (auto simp: batch_fds_def)
  have "batches_ok (rx_stream_end rx + length bytes) (rx_batches rx @ ?new)"
    using assms(1,4) by (auto simp: rx_live_def batches_ok_def sorted_wrt_append)
  moreover have "state_ok rx'"
    using assms(1,2) by (auto simp: rx_live_def state_ok_def rx' incomplete_def split: recv_state.splits)
  moreover have "pending_fds rx' \<le> max_pending_fds (rx_limits rx)"
    using space assms(1) fds
    by (auto simp: pending_fds_batch saturating_add_usize_def rx_live_def limits_ok_def)
  ultimately show "rx_live rx'"
    using assms(1,3) recv_chunk_fits [OF assms(1,2)] by (simp add: rx_live_def rx')
qed

section \<open>What one call of receive does\<close>

text \<open>The end of the stream carries no ancillary data.\<close>

definition eof_without_control :: "recv_event list \<Rightarrow> bool" where
  "eof_without_control events \<longleftrightarrow> (\<forall>control flags. Recv_msg [] control flags \<in> set events \<longrightarrow> control = [])"

lemma recvmsg_subset: "recvmsg events = (r, events') \<Longrightarrow> set events' \<subseteq> set events"
  by (induction events rule: recvmsg.induct) auto

lemma recvmsg_member: "recvmsg events = (Ok (b, c, f), events') \<Longrightarrow> Recv_msg b c f \<in> set events"
  by (induction events rule: recvmsg.induct) auto

lemma recvmsg_not_Panic: "recvmsg events \<noteq> (Panic, events')"
  by (induction events rule: recvmsg.induct) auto

lemma control_space_not_Panic: "control_space n \<noteq> Panic"
  by (simp add: control_space_def panic_simps)

lemma recv_once_subset: "recv_once abi n m events = (r, events') \<Longrightarrow> set events' \<subseteq> set events"
  by (auto simp: recv_once_def dest: recvmsg_subset split: result.splits prod.splits option.splits)

lemma recv_once_not_Panic: "recv_once abi n m events \<noteq> (Panic, events')"
  using control_space_not_Panic [of m] recvmsg_not_Panic [of events]
  by (auto simp: recv_once_def split: result.splits prod.splits option.splits)

lemma recv_once_bound: "recv_once abi n m events = (Ok (bytes, fds), events') \<Longrightarrow> length bytes \<le> n"
  by (auto simp: recv_once_def split: result.splits prod.splits option.splits)

lemma recv_once_eof:
  assumes "recv_once abi n m events = (Ok ([], fds), events')" and "0 < n" and "eof_without_control events"
  shows "fds = []"
proof -
  obtain b c f where msg: "recvmsg events = (Ok (b, c, f), events')" "take n b = []"
      and fds: "\<exists>k. parse_control abi (take k c) f = (fds, None)"
    using assms(1) by (auto simp: recv_once_def split: result.splits prod.splits option.splits)
  have "b = []"
    using msg(2) assms(2) by simp
  then have "c = []"
    using recvmsg_member [OF msg(1)] assms(3) by (auto simp: eof_without_control_def)
  with fds show ?thesis
    by (auto simp: parse_control_def parse_cmsgs.simps split: if_splits)
qed

lemma recv_chunk_pos: "0 < recv_chunk_len rx"
  by (auto simp: recv_chunk_len_def Let_def max_def)

definition receive_post ::
    "frame_receiver \<Rightarrow> chunk list \<Rightarrow> (receive_outcome, frame_error) result \<Rightarrow> frame_receiver \<Rightarrow> bool" where
  "receive_post rx got r rx' \<longleftrightarrow> (case r of
       Ok (Frame f) \<Rightarrow>
         rx_live rx' \<and> rx_limits rx' = rx_limits rx \<and> frame_ok (rx_limits rx) f \<and>
         rx_bytes rx @ concat (map fst got) = frame_bytes f @ rx_bytes rx' \<and>
         batch_fds (rx_batches rx) @ concat (map snd got) = map the (rf_fds f) @ batch_fds (rx_batches rx')
     | Ok Recv_WouldBlock \<Rightarrow>
         rx_live rx' \<and> rx_limits rx' = rx_limits rx \<and> incomplete rx' \<and>
         rx_bytes rx' = rx_bytes rx @ concat (map fst got) \<and>
         batch_fds (rx_batches rx') = batch_fds (rx_batches rx) @ concat (map snd got)
     | Ok Closed \<Rightarrow>
         rx_state rx' = RS_Eof \<and> rx_bytes rx = [] \<and> batch_fds (rx_batches rx) = [] \<and> got = [] \<and>
         rx_bytes rx' = [] \<and> rx_batches rx' = []
     | Err e \<Rightarrow> rx_failed rx'
     | Panic \<Rightarrow> False)"

lemma receive_post_Err [simp]: "receive_post rx got (Err e) rx' \<longleftrightarrow> rx_failed rx'"
  by (simp add: receive_post_def)

lemma receive_post_absorb:
  assumes "receive_post rx3 got r rx'" and "bytes \<noteq> []"
    and "rx_bytes rx3 = rx_bytes rx @ bytes" and "rx_limits rx3 = rx_limits rx"
    and "batch_fds (rx_batches rx3) = batch_fds (rx_batches rx) @ fds"
  shows "receive_post rx ((bytes, fds) # got) r rx'"
  using assms
  by (auto simp: receive_post_def split: result.splits receive_outcome.splits)

lemma batches_empty: "batches_ok n batches \<Longrightarrow> batch_fds batches = [] \<Longrightarrow> batches = []"
  by (cases batches) (auto simp: batches_ok_def batch_fds_def)

lemma eof_step_post:
  assumes "rx_live rx" and "eof_step rx = (r, rx')"
  shows "receive_post rx [] r rx'"
  using assms batches_empty [of "rx_stream_end rx" "rx_batches rx"]
  by (auto simp: eof_step_def receive_post_def pending_fds_batch rx_fail_def rx_failed_def
      rx_live_def split: if_splits)

text \<open>The read at the end of an iteration; \<open>again\<close> is the claim for the next iteration.\<close>

lemma recv_branch_post:
  assumes live: "rx_live rx" "incomplete rx" and eof: "eof_without_control events"
    and once: "recv_once abi (recv_chunk_len rx) (recv_control_fds (rx_limits rx)) events = (ret, es)"
    and res: "(case ret of
        Ok (bytes, fds) \<Rightarrow>
          if bytes = [] then
            (if fds \<noteq> [] then ((Panic, rx), es, got) else (eof_step rx, es, got))
          else (case data_step rx bytes fds of
              Inl ret \<Rightarrow> (ret, es, got)
            | Inr rx \<Rightarrow> receive_loop abi rx es (got @ [(bytes, fds)]))
      | Err e \<Rightarrow>
          (if e = Io Io_WouldBlock then (Ok Recv_WouldBlock, rx) else rx_fail rx e, es, got)
      | Panic \<Rightarrow> ((Panic, rx), es, got)) = ((r, rx'), events', got')"
    and again: "\<And>bytes fds rx3. ret = Ok (bytes, fds) \<Longrightarrow> bytes \<noteq> [] \<Longrightarrow>
      data_step rx bytes fds = Inr rx3 \<Longrightarrow> rx_live rx3 \<Longrightarrow> eof_without_control es \<Longrightarrow>
      receive_loop abi rx3 es (got @ [(bytes, fds)]) = ((r, rx'), events', got') \<Longrightarrow>
      \<exists>more. got' = (got @ [(bytes, fds)]) @ more \<and> receive_post rx3 more r rx'"
  shows "\<exists>more. got' = got @ more \<and> receive_post rx more r rx'"
proof (cases ret)
  case (Ok chunk)
  obtain bytes fds where chunk: "chunk = (bytes, fds)"
    by fastforce
  consider (eof) "bytes = []" | (fail) ret' where "bytes \<noteq> []" "data_step rx bytes fds = Inl ret'"
    | (data) rx3 where "bytes \<noteq> []" "data_step rx bytes fds = Inr rx3"
    by (cases "data_step rx bytes fds") auto
  then show ?thesis
  proof cases
    case eof
    then have "fds = []"
      using recv_once_eof [OF _ recv_chunk_pos assms(3)] once Ok chunk by blast
    with eof res Ok chunk eof_step_post [OF live(1)] show ?thesis
      by auto
  next
    case fail
    with res Ok chunk data_step_Inl [OF fail(2)] show ?thesis
      by auto
  next
    case data
    note step = data_step_Inr [OF live recv_once_bound [OF once [unfolded Ok chunk]] data]
    have "eof_without_control es"
      using assms(3) recv_once_subset [OF once] by (auto simp: eof_without_control_def)
    then obtain more where "got' = (got @ [(bytes, fds)]) @ more" "receive_post rx3 more r rx'"
      using again [of bytes fds rx3] step(1) res Ok chunk data by auto
    with receive_post_absorb [OF _ data(1) step(2,4,3)] show ?thesis
      by auto
  qed
next
  case (Err e)
  with res live show ?thesis
    by (auto simp: receive_post_def rx_fail_def rx_failed_def split: if_splits)
next
  case Panic
  with once recv_once_not_Panic show ?thesis
    by metis
qed

lemma receive_loop_post:
  assumes "receive_loop abi rx events got = ((r, rx'), events', got')"
    and "rx_live rx" and "eof_without_control events"
  shows "\<exists>more. got' = got @ more \<and> receive_post rx more r rx'"
  using assms
proof (induction abi rx events got arbitrary: r rx' events' got' rule: receive_loop.induct)
  case (1 abi rx events got)
  show ?case
  proof (cases "header_step rx")
    case (Inl ret)
    with "1.prems"(1) header_step_Inl [OF "1.prems"(2) Inl] show ?thesis
      by (auto simp: receive_loop.simps [of abi rx])
  next
    case (Inr rx1)
    note h = header_step_Inr [OF "1.prems"(2) Inr]
    show ?thesis
    proof (cases "payload_step rx1")
      case (Inl ret)
      with "1.prems"(1) Inr payload_step_Inl [OF h(1) Inl] h show ?thesis
        by (auto simp: receive_loop.simps [of abi rx] receive_post_def)
    next
      case Inr': (Inr rx2)
      note p = payload_step_Inr [OF h(1) Inr' h(5)]
      have same: "rx_bytes rx2 = rx_bytes rx" "rx_batches rx2 = rx_batches rx" "rx_limits rx2 = rx_limits rx"
        using p h by simp_all
      obtain ret es where once: "recv_once abi (recv_chunk_len rx2) (recv_control_fds (rx_limits rx2))
          events = (ret, es)"
        by fastforce
      have "\<exists>more. got' = got @ more \<and> receive_post rx2 more r rx'"
      proof (rule recv_branch_post [OF _ _ "1.prems"(3) once])
        show "rx_live rx2" "incomplete rx2"
          using p h(1) by simp_all
        show "\<exists>more. got' = (got @ [(bytes, fds)]) @ more \<and> receive_post rx3 more r rx'"
          if "ret = Ok (bytes, fds)" "bytes \<noteq> []" "data_step rx2 bytes fds = Inr rx3" "rx_live rx3"
            "eof_without_control es" "receive_loop abi rx3 es (got @ [(bytes, fds)]) = ((r, rx'), events', got')"
          for bytes fds rx3
          using "1.IH" [OF Inr Inr' once [symmetric] that(1) refl that(2,3,6,4,5)] .
      qed (use "1.prems"(1) Inr Inr' once in \<open>simp add: receive_loop.simps [of abi rx]\<close>)
      then show ?thesis
        unfolding receive_post_def same .
    qed
  qed
qed

lemma receive_post_receive:
  assumes "receive abi rx events = ((r, rx'), events', got)"
    and "rx_live rx" and "eof_without_control events"
  shows "receive_post rx got r rx'"
proof -
  have "rx_state rx \<noteq> RS_Failed" "rx_state rx \<noteq> RS_Eof"
    using assms(2) by (auto simp: rx_live_def state_ok_def)
  with assms show ?thesis
    using receive_loop_post [of abi rx events "[]" r rx' events' got] by (simp add: receive_def)
qed

end
