(* ===== verification/Frame_Sender.thy ===== *)
theory Frame_Sender
  imports Frame_Control
begin

text \<open>
  \<^verbatim>\<open>protocol/src/native/frame/send.rs\<close>: the bounded queue of outgoing frames and its flush to a
  stream socket. The kernel is a script of \<open>sendmsg\<close> results: \<open>Accept n\<close> takes at most \<open>n\<close> of the
  bytes it is offered, with the descriptors that come along; a call past the end of the script
  would block. \<open>flush\<close> also returns, as a ghost value, the segments the kernel took over.
  Arithmetic is that of a debug build: an overflow is a panic.
\<close>

datatype flush_outcome = Drained | Flush_WouldBlock

record outbound_frame =
  of_header :: header
  of_bytes :: "byte list"
  of_fds :: "raw_fd list"

definition outbound_new ::
    "u32 \<Rightarrow> byte \<Rightarrow> u32 \<Rightarrow> byte list \<Rightarrow> raw_fd list \<Rightarrow> frame_limits \<Rightarrow> (outbound_frame, frame_error) result" where
  "outbound_new obj op sq payload fds limits =
     (let limit = min (max_payload limits) WIRE_MAX_PAYLOAD in
      if length payload > limit then Err (PayloadTooLarge (length payload) limit)
      else if length fds > max_frame_fds limits
      then Err (TooManyFrameFds (length fds) (max_frame_fds limits))
      else let header = \<lparr>object_id = obj, opcode = op, payload_len = of_nat (length payload),
                         seq = sq, n_fds = of_nat (length fds)\<rparr> in
        rbind (header_encode header) (\<lambda>bytes.
        Ok \<lparr>of_header = header, of_bytes = bytes @ payload, of_fds = fds\<rparr>))"

text \<open>\<open>duplicate_fds\<close>: \<open>try_clone\<close> is the duplication of one descriptor by the kernel.\<close>

fun clone_fds :: "(raw_fd \<Rightarrow> (raw_fd, io_error) result) \<Rightarrow> raw_fd list \<Rightarrow> (raw_fd list, frame_error) result" where
  "clone_fds try_clone [] = Ok []"
| "clone_fds try_clone (fd # fds) =
     rbind (map_err Io (try_clone fd)) (\<lambda>c. rbind (clone_fds try_clone fds) (\<lambda>cs. Ok (c # cs)))"

definition duplicate_fds ::
    "(raw_fd \<Rightarrow> (raw_fd, io_error) result) \<Rightarrow> u32 \<Rightarrow> byte \<Rightarrow> u32 \<Rightarrow> byte list \<Rightarrow> raw_fd list \<Rightarrow> frame_limits
      \<Rightarrow> (outbound_frame, frame_error) result" where
  "duplicate_fds try_clone oid op sq payload fds limits =
     rbind (clone_fds try_clone fds) (\<lambda>duplicates. outbound_new oid op sq payload duplicates limits)"

record send_frame =
  sf_bytes :: "byte list"
  sf_offset :: nat
  sf_fds :: "raw_fd list"
  sf_ancillary_sent :: bool

record frame_sender =
  tx_limits :: frame_limits
  tx_queue :: "send_frame list"
  tx_queued_bytes :: nat
  tx_queued_fds :: nat
  tx_failed :: bool

datatype send_event = Accept nat | Send_error io_error

definition sender_new :: "frame_limits \<Rightarrow> frame_sender" where
  "sender_new limits =
     \<lparr>tx_limits = limits, tx_queue = [], tx_queued_bytes = 0, tx_queued_fds = 0, tx_failed = False\<rparr>"

definition enqueue :: "frame_sender \<Rightarrow> outbound_frame \<Rightarrow> (unit, frame_error) result \<times> frame_sender" where
  "enqueue tx frame =
     (let limits = tx_limits tx;
          payload = unat (payload_len (of_header frame));
          payload_limit = min (max_payload limits) WIRE_MAX_PAYLOAD;
          nb = length (of_bytes frame); nf = length (of_fds frame) in
      if tx_failed tx then (Err Poisoned, tx)
      else if payload > payload_limit then (Err (PayloadTooLarge payload payload_limit), tx)
      else if nf > max_frame_fds limits then (Err (TooManyFrameFds nf (max_frame_fds limits)), tx)
      else if saturating_add_usize (tx_queued_bytes tx) nb > max_queued_bytes limits
      then (Err (SendQueueFull (tx_queued_bytes tx) nb (max_queued_bytes limits)), tx)
      else if saturating_add_usize (tx_queued_fds tx) nf > max_queued_fds limits
      then (Err (SendFdQueueFull (tx_queued_fds tx) nf (max_queued_fds limits)), tx)
      else if usize_limit \<le> tx_queued_bytes tx + nb \<or> usize_limit \<le> tx_queued_fds tx + nf then (Panic, tx)
      else (Ok (), tx\<lparr>tx_queued_bytes := tx_queued_bytes tx + nb,
                     tx_queued_fds := tx_queued_fds tx + nf,
                     tx_queue := tx_queue tx @ [\<lparr>sf_bytes = of_bytes frame, sf_offset = 0,
                       sf_fds = of_fds frame, sf_ancillary_sent = False\<rparr>]\<rparr>))"

definition sender_is_empty :: "frame_sender \<Rightarrow> bool" where
  "sender_is_empty tx \<longleftrightarrow> tx_queue tx = []"

definition sender_clear :: "frame_sender \<Rightarrow> frame_sender" where
  "sender_clear tx = tx\<lparr>tx_queue := [], tx_queued_bytes := 0, tx_queued_fds := 0\<rparr>"

definition tx_fail :: "frame_sender \<Rightarrow> frame_error \<Rightarrow> (flush_outcome, frame_error) result \<times> frame_sender" where
  "tx_fail tx e = (Err e, (sender_clear tx)\<lparr>tx_failed := True\<rparr>)"

text \<open>\<open>send_once\<close> inside the retry loop on \<open>Interrupted\<close>.\<close>

fun sendmsg :: "nat \<Rightarrow> send_event list \<Rightarrow> (nat, io_error) result \<times> send_event list" where
  "sendmsg offered [] = (Err Io_WouldBlock, [])"
| "sendmsg offered (Send_error Interrupted # events) = sendmsg offered events"
| "sendmsg offered (Send_error e # events) = (Err e, events)"
| "sendmsg offered (Accept n # events) = (Ok (min n offered), events)"

text \<open>What the loop does with the front frame after \<open>sent\<close> bytes went out.\<close>

definition sent_step :: "frame_sender \<Rightarrow> send_frame \<Rightarrow> send_frame list \<Rightarrow> nat \<Rightarrow> (frame_sender, frame_error) result" where
  "sent_step tx frame rest sent =
     (let include_fds = (\<not> sf_ancillary_sent frame \<and> sf_fds frame \<noteq> []);
          nf = length (sf_fds frame) in
      if include_fds \<and> tx_queued_fds tx < nf then Panic
      else if tx_queued_bytes tx < sent then Panic
      else let frame' = frame\<lparr>sf_offset := sf_offset frame + sent,
                 sf_fds := (if include_fds then [] else sf_fds frame),
                 sf_ancillary_sent := (sf_ancillary_sent frame \<or> include_fds)\<rparr> in
        Ok (tx\<lparr>tx_queued_fds := (if include_fds then tx_queued_fds tx - nf else tx_queued_fds tx),
               tx_queued_bytes := tx_queued_bytes tx - sent,
               tx_queue := (if sf_offset frame' = length (sf_bytes frame') then rest
                            else frame' # rest)\<rparr>))"

lemma sendmsg_shorter: "sendmsg n events = (Ok x, events') \<Longrightarrow> length events' < length events"
  by (induction n events rule: sendmsg.induct) auto

function flush_loop ::
    "frame_sender \<Rightarrow> send_event list \<Rightarrow> (byte list \<times> raw_fd list) list
      \<Rightarrow> ((flush_outcome, frame_error) result \<times> frame_sender) \<times> send_event list \<times> (byte list \<times> raw_fd list) list" where
  "flush_loop tx events wire =
     (case tx_queue tx of
        [] \<Rightarrow> ((Ok Drained, tx), events, wire)
      | frame # rest \<Rightarrow>
          if length (sf_bytes frame) < sf_offset frame then ((Panic, tx), events, wire)
          else let bytes = drop (sf_offset frame) (sf_bytes frame);
                   fds = (if \<not> sf_ancillary_sent frame \<and> sf_fds frame \<noteq> [] then sf_fds frame else []) in
            (case sendmsg (length bytes) events of
               (Ok sent, events') \<Rightarrow>
                 if sent = 0 then (tx_fail tx WriteZero, events', wire)
                 else (case sent_step tx frame rest sent of
                     Ok tx' \<Rightarrow> flush_loop tx' events' (wire @ [(take sent bytes, fds)])
                   | Err e \<Rightarrow> ((Err e, tx), events', wire)
                   | Panic \<Rightarrow> ((Panic, tx), events', wire))
             | (Err e, events') \<Rightarrow>
                 if e = Io_WouldBlock then ((Ok Flush_WouldBlock, tx), events', wire)
                 else (tx_fail tx (Io e), events', wire)
             | (Panic, events') \<Rightarrow> ((Panic, tx), events', wire)))"
  by pat_completeness auto
termination
  by (relation "measure (\<lambda>(tx, events, wire). length events)") (auto dest: sendmsg_shorter [OF sym])

declare flush_loop.simps [simp del]

definition flush ::
    "frame_sender \<Rightarrow> send_event list
      \<Rightarrow> ((flush_outcome, frame_error) result \<times> frame_sender) \<times> send_event list \<times> (byte list \<times> raw_fd list) list" where
  "flush tx events =
     (if tx_failed tx then ((Err Poisoned, tx), events, []) else flush_loop tx events [])"

section \<open>Accounting\<close>

definition unsent :: "send_frame \<Rightarrow> byte list" where
  "unsent f = drop (sf_offset f) (sf_bytes f)"

definition tx_bytes :: "frame_sender \<Rightarrow> byte list" where
  "tx_bytes tx = concat (map unsent (tx_queue tx))"

definition tx_fds :: "frame_sender \<Rightarrow> raw_fd list" where
  "tx_fds tx = concat (map sf_fds (tx_queue tx))"

text \<open>
  A queued frame has bytes left to send; its descriptors are there until the first byte goes out.
\<close>

definition send_frame_ok :: "send_frame \<Rightarrow> bool" where
  "send_frame_ok f \<longleftrightarrow> sf_offset f < length (sf_bytes f) \<and>
     (sf_ancillary_sent f \<longrightarrow> sf_fds f = []) \<and> (0 < sf_offset f \<longrightarrow> sf_fds f = [])"

definition tx_ok :: "frame_sender \<Rightarrow> bool" where
  "tx_ok tx \<longleftrightarrow>
     (\<forall>f\<in>set (tx_queue tx). send_frame_ok f) \<and>
     (\<forall>f\<in>set (tl (tx_queue tx)). sf_offset f = 0) \<and>
     tx_queued_bytes tx = length (tx_bytes tx) \<and> tx_queued_fds tx = length (tx_fds tx) \<and>
     tx_queued_bytes tx \<le> max_queued_bytes (tx_limits tx) \<and>
     tx_queued_fds tx \<le> max_queued_fds (tx_limits tx) \<and>
     (tx_failed tx \<longrightarrow> tx_queue tx = [])"

lemma sender_new_ok: "tx_ok (sender_new limits)"
  by (simp add: tx_ok_def sender_new_def tx_bytes_def tx_fds_def)

lemma sender_clear_ok: "tx_ok tx \<Longrightarrow> tx_ok (sender_clear tx)"
  by (simp add: tx_ok_def sender_clear_def tx_bytes_def tx_fds_def)

lemma tx_fail_ok: "tx_ok tx \<Longrightarrow> tx_ok (snd (tx_fail tx e))"
  by (simp add: tx_ok_def tx_fail_def sender_clear_def tx_bytes_def tx_fds_def)

definition queued :: "outbound_frame \<Rightarrow> send_frame" where
  "queued frame = \<lparr>sf_bytes = of_bytes frame, sf_offset = 0, sf_fds = of_fds frame,
     sf_ancillary_sent = False\<rparr>"

lemma enqueue_cases:
  assumes "enqueue tx frame = (r, tx')"
  obtains "tx' = tx" and "r \<noteq> Ok ()"
  | "r = Ok ()" and "\<not> tx_failed tx" and
    "tx' = tx\<lparr>tx_queued_bytes := tx_queued_bytes tx + length (of_bytes frame),
       tx_queued_fds := tx_queued_fds tx + length (of_fds frame), tx_queue := tx_queue tx @ [queued frame]\<rparr>"
    and "tx_queued_bytes tx + length (of_bytes frame) \<le> max_queued_bytes (tx_limits tx)"
    and "tx_queued_fds tx + length (of_fds frame) \<le> max_queued_fds (tx_limits tx)"
  using assms
  by (auto simp: enqueue_def Let_def queued_def saturating_add_usize_def min_def split: if_splits)

lemma enqueue_ok:
  assumes "tx_ok tx" and "of_bytes frame \<noteq> []" and "enqueue tx frame = (r, tx')"
  shows "tx_ok tx'"
  using assms(3)
proof (cases rule: enqueue_cases)
  case 2
  have "set (tl (tx_queue tx @ [queued frame])) \<subseteq> insert (queued frame) (set (tl (tx_queue tx)))"
    by (cases "tx_queue tx") auto
  moreover have "send_frame_ok (queued frame)" "sf_offset (queued frame) = 0"
    using assms(2) by (simp_all add: send_frame_ok_def queued_def)
  ultimately show ?thesis
    using 2 assms(1) by (auto simp: tx_ok_def tx_bytes_def tx_fds_def unsent_def queued_def)
qed (use assms in simp)

lemma enqueue_order:
  assumes "enqueue tx frame = (Ok (), tx')"
  shows "tx_bytes tx' = tx_bytes tx @ of_bytes frame" and "tx_fds tx' = tx_fds tx @ of_fds frame"
    and "tx_limits tx' = tx_limits tx"
  using assms
  by (cases rule: enqueue_cases; simp add: tx_bytes_def tx_fds_def unsent_def queued_def)+

text \<open>The segments the kernel took, and what is still queued, are what was queued before.\<close>

lemma sendmsg_bound: "sendmsg n events = (Ok sent, events') \<Longrightarrow> sent \<le> n"
  by (induction n events rule: sendmsg.induct) auto

lemma sendmsg_not_Panic: "sendmsg n events \<noteq> (Panic, events')"
  by (induction n events rule: sendmsg.induct) auto

lemma sent_step_ok:
  assumes ok: "tx_ok tx" and q: "tx_queue tx = frame # rest"
    and sent: "0 < sent" "sent \<le> length (unsent frame)"
  obtains tx' where "sent_step tx frame rest sent = Ok tx'" and "tx_ok tx'"
    and "tx_bytes tx = take sent (unsent frame) @ tx_bytes tx'"
    and "tx_fds tx = (if \<not> sf_ancillary_sent frame \<and> sf_fds frame \<noteq> [] then sf_fds frame else []) @ tx_fds tx'"
    and "tx_limits tx' = tx_limits tx" and "tx_failed tx' = tx_failed tx"
proof -
  let ?inc = "\<not> sf_ancillary_sent frame \<and> sf_fds frame \<noteq> []"
  have f: "send_frame_ok frame" "sf_fds frame \<noteq> [] \<Longrightarrow> \<not> sf_ancillary_sent frame"
    using ok q by (auto simp: tx_ok_def send_frame_ok_def)
  define frame' where "frame' = frame\<lparr>sf_offset := sf_offset frame + sent,
    sf_fds := (if ?inc then [] else sf_fds frame), sf_ancillary_sent := (sf_ancillary_sent frame \<or> ?inc)\<rparr>"
  define tx' where "tx' = tx\<lparr>
    tx_queued_fds := (if ?inc then tx_queued_fds tx - length (sf_fds frame) else tx_queued_fds tx),
    tx_queued_bytes := tx_queued_bytes tx - sent,
    tx_queue := (if sf_offset frame' = length (sf_bytes frame') then rest else frame' # rest)\<rparr>"
  have counts: "tx_queued_bytes tx = length (unsent frame) + length (concat (map unsent rest))"
      "tx_queued_fds tx = length (sf_fds frame) + length (concat (map sf_fds rest))"
    using ok q by (simp_all add: tx_ok_def tx_bytes_def tx_fds_def)
  have "sent_step tx frame rest sent = Ok tx'"
    using counts sent by (simp add: sent_step_def Let_def tx'_def frame'_def)
  moreover have fds': "sf_fds frame' = []"
    using f by (auto simp: frame'_def)
  moreover have un: "unsent frame = take sent (unsent frame) @ unsent frame'"
    by (simp add: unsent_def frame'_def add.commute flip: drop_drop)
  moreover have "sf_offset frame' = length (sf_bytes frame') \<Longrightarrow> unsent frame' = []"
    by (simp add: unsent_def)
  ultimately have parts: "tx_bytes tx = take sent (unsent frame) @ tx_bytes tx'"
      "tx_fds tx = (if ?inc then sf_fds frame else []) @ tx_fds tx'"
    using q f by (auto simp: tx_bytes_def tx_fds_def tx'_def)
  have "send_frame_ok frame'" if "sf_offset frame' \<noteq> length (sf_bytes frame')"
    using that sent fds' f by (auto simp: send_frame_ok_def frame'_def unsent_def)
  moreover have "\<forall>f\<in>set (tl rest). sf_offset f = 0"
    using ok q by (cases rest) (auto simp: tx_ok_def)
  ultimately have queue: "\<forall>f\<in>set (tx_queue tx'). send_frame_ok f" "\<forall>f\<in>set (tl (tx_queue tx')). sf_offset f = 0"
    using ok q by (auto simp: tx_ok_def tx'_def)
  have "length (tx_bytes tx) = sent + length (tx_bytes tx')"
    using parts(1) sent(2) by simp
  moreover have "length (tx_fds tx) = (if ?inc then length (sf_fds frame) else 0) + length (tx_fds tx')"
    using parts(2) by simp
  moreover have "tx_queued_bytes tx' = tx_queued_bytes tx - sent" "tx_limits tx' = tx_limits tx"
      "tx_queued_fds tx' = tx_queued_fds tx - (if ?inc then length (sf_fds frame) else 0)" "tx_failed tx' = tx_failed tx"
    by (simp_all add: tx'_def)
  ultimately have "tx_ok tx'"
    using ok q queue unfolding tx_ok_def by auto
  moreover have "tx_limits tx' = tx_limits tx" "tx_failed tx' = tx_failed tx"
    by (simp_all add: tx'_def)
  ultimately show thesis
    by (rule that [OF \<open>sent_step tx frame rest sent = Ok tx'\<close> _ parts])
qed

text \<open>
  \<open>flush_post\<close>: nothing is lost, duplicated or reordered between the queue and the wire; a failure
  empties the queue and poisons the sender.
\<close>

definition flush_post ::
    "frame_sender \<Rightarrow> (byte list \<times> raw_fd list) list \<Rightarrow> (flush_outcome, frame_error) result \<Rightarrow> frame_sender \<Rightarrow> bool" where
  "flush_post tx wire r tx' \<longleftrightarrow>
     tx_ok tx' \<and> tx_limits tx' = tx_limits tx \<and>
     (case r of
        Ok out \<Rightarrow>
          tx_bytes tx = concat (map fst wire) @ tx_bytes tx' \<and>
          tx_fds tx = concat (map snd wire) @ tx_fds tx' \<and>
          (out = Drained \<longleftrightarrow> tx_queue tx' = []) \<and> tx_failed tx' = tx_failed tx
      | Err e \<Rightarrow> tx_failed tx' \<and> tx_queue tx' = []
      | Panic \<Rightarrow> False)"

lemma flush_fail_post:
  "tx_ok tx \<Longrightarrow> tx_fail tx e = (r, tx') \<Longrightarrow> flush_post tx wire r tx'"
  using tx_fail_ok [of tx e] by (auto simp: flush_post_def tx_fail_def sender_clear_def)

lemma flush_post_block:
  "tx_ok tx \<Longrightarrow> tx_queue tx \<noteq> [] \<Longrightarrow> flush_post tx [] (Ok Flush_WouldBlock) tx"
  by (simp add: flush_post_def)

lemma flush_post_segment:
  assumes "flush_post tx1 wire r tx'" and "tx_bytes tx = bs @ tx_bytes tx1"
    and "tx_fds tx = fds @ tx_fds tx1" and "tx_limits tx1 = tx_limits tx" and "tx_failed tx1 = tx_failed tx"
  shows "flush_post tx ((bs, fds) # wire) r tx'"
  using assms by (auto simp: flush_post_def split: result.splits)

lemma flush_loop_post:
  assumes "flush_loop tx events wire = ((r, tx'), events', wire')" and "tx_ok tx"
  shows "\<exists>more. wire' = wire @ more \<and> flush_post tx more r tx'"
  using assms
proof (induction tx events wire arbitrary: r tx' events' wire' rule: flush_loop.induct)
  case (1 tx events wire)
  show ?case
  proof (cases "tx_queue tx")
    case Nil
    with "1.prems" show ?thesis
      by (auto simp: flush_loop.simps [of tx] flush_post_def)
  next
    case (Cons frame rest)
    have f: "\<not> length (sf_bytes frame) < sf_offset frame"
      using "1.prems"(2) Cons by (auto simp: tx_ok_def send_frame_ok_def)
    obtain ret es where send: "sendmsg (length (unsent frame)) events = (ret, es)"
      by fastforce
    note loop = "1.prems"(1) [unfolded flush_loop.simps [of tx events wire] Cons list.case Let_def
        unsent_def [symmetric] send prod.case]
    show ?thesis
    proof (cases ret)
      case (Ok sent)
      show ?thesis
      proof (cases "sent = 0")
        case True
        with loop f Ok flush_fail_post [OF "1.prems"(2)] show ?thesis
          by auto
      next
        case False
        obtain tx1 where step: "sent_step tx frame rest sent = Ok tx1" "tx_ok tx1"
            "tx_bytes tx = take sent (unsent frame) @ tx_bytes tx1"
            "tx_fds tx = (if \<not> sf_ancillary_sent frame \<and> sf_fds frame \<noteq> [] then sf_fds frame else []) @ tx_fds tx1"
            "tx_limits tx1 = tx_limits tx" "tx_failed tx1 = tx_failed tx"
          using sent_step_ok [OF "1.prems"(2) Cons] False sendmsg_bound [OF send [unfolded Ok]] by auto
        from "1.IH" [OF Cons f refl refl send [unfolded unsent_def, symmetric] Ok False step(1) _ step(2)]
          loop f Ok False step(1)
        obtain more where "wire' = (wire @ [(take sent (unsent frame), if \<not> sf_ancillary_sent frame \<and>
            sf_fds frame \<noteq> [] then sf_fds frame else [])]) @ more" "flush_post tx1 more r tx'"
          by (auto simp: unsent_def)
        with flush_post_segment [OF _ step(3-6)] show ?thesis
          by auto
      qed
    next
      case (Err e)
      with loop f Cons flush_post_block [OF "1.prems"(2)] flush_fail_post [OF "1.prems"(2)] show ?thesis
        by (auto split: if_splits)
    next
      case Panic
      with send sendmsg_not_Panic show ?thesis
        by metis
    qed
  qed
qed

lemma flush_post_flush:
  assumes "flush tx events = ((r, tx'), events', wire)" and "tx_ok tx"
  shows "flush_post tx wire r tx'"
  using assms flush_loop_post [of tx events "[]" r tx' events' wire]
  by (auto simp: flush_def flush_post_def tx_ok_def split: if_splits)

end
