(* ===== verification/Frame_Transport.thy ===== *)
theory Frame_Transport
  imports Frame_Receiver Frame_Sender
begin

text \<open>
  Sender and receiver together (\<open>FrameTransport\<close> of \<^verbatim>\<open>frame/mod.rs\<close> owns one of each). A run of the
  sender is a sequence of successful calls of \<open>enqueue\<close> and \<open>flush\<close>, a run of the receiver a
  sequence of calls of \<open>receive\<close> that do not fail. When the socket in between delivers the bytes
  and the descriptors in order, however it cuts the stream into chunks, the receiver returns the
  frames that were queued.
\<close>

record frame_transport =
  tp_receiver :: frame_receiver
  tp_sender :: frame_sender

definition transport_new :: "frame_limits \<Rightarrow> frame_transport" where
  "transport_new limits = \<lparr>tp_receiver = receiver_new limits, tp_sender = sender_new limits\<rparr>"

inductive tx_run :: "frame_sender \<Rightarrow> outbound_frame list \<Rightarrow> chunk list \<Rightarrow> frame_sender \<Rightarrow> bool" where
  tx_done: "tx_run tx [] [] tx"
| tx_enqueue: "enqueue tx f = (Ok (), tx1) \<Longrightarrow> tx_run tx1 fs wire tx2 \<Longrightarrow> tx_run tx (f # fs) wire tx2"
| tx_flush: "flush tx events = ((Ok out, tx1), events', seg) \<Longrightarrow> tx_run tx1 fs wire tx2 \<Longrightarrow>
    tx_run tx fs (seg @ wire) tx2"

inductive rx_run :: "abi \<Rightarrow> frame_receiver \<Rightarrow> chunk list \<Rightarrow> received_frame list \<Rightarrow> frame_receiver \<Rightarrow> bool"
  for abi where
  rx_done: "rx_run abi rx [] [] rx"
| rx_frame: "receive abi rx events = ((Ok (Frame f), rx1), events', got) \<Longrightarrow> eof_without_control events \<Longrightarrow>
    rx_run abi rx1 later fs rx2 \<Longrightarrow> rx_run abi rx (got @ later) (f # fs) rx2"
| rx_block: "receive abi rx events = ((Ok Recv_WouldBlock, rx1), events', got) \<Longrightarrow>
    eof_without_control events \<Longrightarrow> rx_run abi rx1 later fs rx2 \<Longrightarrow> rx_run abi rx (got @ later) fs rx2"

lemma tx_run_stream:
  assumes "tx_run tx fs wire tx'" and "tx_ok tx" and "\<forall>f\<in>set fs. of_bytes f \<noteq> []"
  shows "tx_ok tx' \<and> tx_bytes tx @ concat (map of_bytes fs) = concat (map fst wire) @ tx_bytes tx' \<and>
    tx_fds tx @ concat (map of_fds fs) = concat (map snd wire) @ tx_fds tx'"
  using assms
proof (induction rule: tx_run.induct)
  case (tx_enqueue tx f tx1 fs wire tx2)
  then have "tx_ok tx1"
    by (auto intro: enqueue_ok)
  with tx_enqueue enqueue_order [OF tx_enqueue.hyps(1)] show ?case
    by simp
next
  case (tx_flush tx events out tx1 events' seg fs wire tx2)
  with flush_post_flush [OF tx_flush.hyps(1)] show ?case
    by (auto simp: flush_post_def)
qed simp

lemma append_chain:
  assumes "a @ b = c @ d" and "d @ e = f @ g"
  shows "a @ b @ e = c @ f @ g"
proof -
  have "a @ b @ e = (c @ d) @ e"
    using assms(1) by simp
  then show ?thesis
    using assms(2) by simp
qed

lemma rx_run_stream:
  assumes "rx_run abi rx got fs rx'" and "rx_live rx"
  shows "rx_live rx' \<and> rx_limits rx' = rx_limits rx \<and> (\<forall>f\<in>set fs. frame_ok (rx_limits rx) f) \<and>
    rx_bytes rx @ concat (map fst got) = concat (map frame_bytes fs) @ rx_bytes rx' \<and>
    batch_fds (rx_batches rx) @ concat (map snd got) =
      concat (map (\<lambda>f. map the (rf_fds f)) fs) @ batch_fds (rx_batches rx')"
  using assms
proof (induction rule: rx_run.induct)
  case (rx_frame rx events f rx1 events' got later fs rx2)
  have post: "rx_live rx1" "rx_limits rx1 = rx_limits rx" "frame_ok (rx_limits rx) f"
      "rx_bytes rx @ concat (map fst got) = frame_bytes f @ rx_bytes rx1"
      "batch_fds (rx_batches rx) @ concat (map snd got) = map the (rf_fds f) @ batch_fds (rx_batches rx1)"
    using receive_post_receive [OF rx_frame.hyps(1) rx_frame.prems rx_frame.hyps(2)]
    by (simp_all add: receive_post_def)
  note IH = rx_frame.IH [OF post(1)]
  show ?case
    using post(2,3) IH append_chain [OF post(4)] append_chain [OF post(5)] by simp
next
  case (rx_block rx events rx1 events' got later fs rx2)
  from receive_post_receive [OF rx_block.hyps(1) rx_block.prems rx_block.hyps(2)] rx_block.IH
  show ?case
    by (auto simp: receive_post_def)
qed simp

lemma header_image_not_Nil [simp]: "header_image h \<noteq> []"
  using length_header_image [of h] by (auto simp: HEADER_LEN_def simp del: length_header_image)

section \<open>Frames are a prefix code\<close>

definition well_framed :: "header \<Rightarrow> byte list \<Rightarrow> bool" where
  "well_framed h payload \<longleftrightarrow> unat (payload_len h) = length payload \<and> length payload \<le> WIRE_MAX_PAYLOAD"

lemma frame_prefix:
  assumes "well_framed h p" and "well_framed h' p'"
    and "header_image h @ p @ x = header_image h' @ p' @ y"
  shows "h = h'" and "p = p'" and "x = y"
proof -
  have "header_decode (header_image h @ p @ x) = Ok h" "header_decode (header_image h' @ p' @ y) = Ok h'"
    using assms(1,2) by (simp_all only: well_framed_def header_decode_image)
  then have "Ok h = (Ok h' :: (header, frame_error) result)"
    unfolding assms(3) by (rule trans [OF sym])
  then show h: "h = h'"
    by simp
  have "p @ x = p' @ y" "length p = length p'"
    using assms h by (simp_all add: well_framed_def)
  then show "p = p'" "x = y"
    by simp_all
qed

lemma incomplete_no_frame:
  assumes "rx_live rx" and "incomplete rx" and "well_framed h p"
  shows "rx_bytes rx \<noteq> header_image h @ p @ x"
proof
  assume bytes: "rx_bytes rx = header_image h @ p @ x"
  have "header_decode (take HEADER_LEN (rx_bytes rx)) = Ok h"
    using header_decode_image [of h "[]"] assms(3) bytes by (simp add: well_framed_def)
  then show False
    using assms bytes
    by (auto simp: incomplete_def rx_live_def state_ok_def well_framed_def split: recv_state.splits)
qed

lemma frames_unique:
  assumes "concat (map frame_bytes outs) @ rx_bytes rx = concat (map of_bytes fs)"
    and "\<forall>out\<in>set outs. frame_ok limits out"
    and "\<forall>f\<in>set fs. \<exists>p. well_framed (of_header f) p \<and> of_bytes f = header_image (of_header f) @ p"
    and "rx_live rx" and "incomplete rx"
  shows "map (\<lambda>out. (rf_header out, frame_bytes out)) outs = map (\<lambda>f. (of_header f, of_bytes f)) fs"
  using assms(1-3)
proof (induction outs arbitrary: fs)
  case Nil
  show ?case
  proof (cases fs)
    case (Cons f gs)
    with Nil.prems obtain p where "well_framed (of_header f) p" "rx_bytes rx = header_image (of_header f) @ p @ concat (map of_bytes gs)"
      by auto
    with incomplete_no_frame [OF assms(4,5)] show ?thesis
      by blast
  qed simp
next
  case (Cons out outs)
  have out: "well_framed (rf_header out) (rf_payload out)"
    using Cons.prems(2) by (auto simp: well_framed_def frame_ok_def)
  show ?case
  proof (cases fs)
    case Nil
    with Cons.prems(1) show ?thesis
      by (simp add: frame_bytes_def)
  next
    case fs: (Cons f gs)
    then obtain p where p: "well_framed (of_header f) p" "of_bytes f = header_image (of_header f) @ p"
      using Cons.prems(3) by auto
    have "header_image (rf_header out) @ rf_payload out @ concat (map frame_bytes outs) @ rx_bytes rx =
        header_image (of_header f) @ p @ concat (map of_bytes gs)"
      using Cons.prems(1) fs p(2) by (simp add: frame_bytes_def [of out])
    note same = frame_prefix [OF out p(1) this]
    show ?thesis
      using Cons.IH [OF same(3)] Cons.prems(2,3) fs p(2) same(1,2) by (simp add: frame_bytes_def [of out])
  qed
qed

section \<open>From sender to receiver\<close>

text \<open>A frame as \<open>OutboundFrame::new\<close> builds it; it is the only constructor.\<close>

definition outbound_ok :: "outbound_frame \<Rightarrow> bool" where
  "outbound_ok f \<longleftrightarrow>
     (\<exists>obj op sq payload limits. outbound_new obj op sq payload (of_fds f) limits = Ok f \<and>
        length (of_fds f) < 2 ^ 32)"

lemma outbound_new_image:
  assumes "outbound_new obj op sq payload fds limits = Ok f"
  shows "well_framed (of_header f) payload" and "of_bytes f = header_image (of_header f) @ payload"
    and "of_fds f = fds" and "n_fds (of_header f) = of_nat (length fds)"
proof -
  define h where "h = \<lparr>object_id = obj, opcode = op, payload_len = of_nat (length payload), seq = sq,
    n_fds = of_nat (length fds)\<rparr>"
  have new: "rbind (header_encode h) (\<lambda>bytes. Ok \<lparr>of_header = h, of_bytes = bytes @ payload, of_fds = fds\<rparr>) = Ok f"
    and len: "length payload \<le> WIRE_MAX_PAYLOAD"
    using assms by (simp_all add: outbound_new_def Let_def h_def split: if_splits)
  have unat: "unat (payload_len h) = length payload"
    using len by (simp add: h_def unat_of_nat WIRE_MAX_PAYLOAD_def)
  with len new have f: "f = \<lparr>of_header = h, of_bytes = header_image h @ payload, of_fds = fds\<rparr>"
    by (simp add: header_encode_eq)
  show "well_framed (of_header f) payload"
    using unat len f by (simp add: well_framed_def)
  show "of_bytes f = header_image (of_header f) @ payload" "of_fds f = fds"
    "n_fds (of_header f) = of_nat (length fds)"
    by (simp_all add: f h_def)
qed

lemma outbound_okD:
  assumes "outbound_ok f"
  shows "\<exists>p. well_framed (of_header f) p \<and> of_bytes f = header_image (of_header f) @ p"
    and "unat (n_fds (of_header f)) = length (of_fds f)" and "of_bytes f \<noteq> []"
proof -
  obtain obj op sq payload limits where new: "outbound_new obj op sq payload (of_fds f) limits = Ok f"
      and fds: "length (of_fds f) < 2 ^ 32"
    using assms by (auto simp: outbound_ok_def)
  note image = outbound_new_image [OF new]
  show "\<exists>p. well_framed (of_header f) p \<and> of_bytes f = header_image (of_header f) @ p"
    using image by blast
  show "unat (n_fds (of_header f)) = length (of_fds f)"
    using image(4) fds by (simp add: unat_of_nat)
  show "of_bytes f \<noteq> []"
    using image(2) by simp
qed

text \<open>Descriptors follow: each frame takes as many as its header declares.\<close>

lemma fds_split:
  assumes "concat (map (\<lambda>out. map the (rf_fds out)) outs) @ rest = concat (map of_fds fs)"
    and "map rf_header outs = map of_header fs"
    and "\<forall>out\<in>set outs. frame_ok limits out" and "\<forall>f\<in>set fs. unat (n_fds (of_header f)) = length (of_fds f)"
  shows "map (\<lambda>out. map the (rf_fds out)) outs = map of_fds fs"
  using assms
proof (induction outs arbitrary: fs)
  case (Cons out outs)
  then obtain f gs where fs: "fs = f # gs" "rf_header out = of_header f" "map rf_header outs = map of_header gs"
    by (cases fs) auto
  have "length (map the (rf_fds out)) = length (of_fds f)"
    using Cons.prems(3,4) fs by (auto simp: frame_ok_def)
  with Cons.prems(1) fs have "map the (rf_fds out) = of_fds f"
      "concat (map (\<lambda>out. map the (rf_fds out)) outs) @ rest = concat (map of_fds gs)"
    by (simp_all add: append_eq_append_conv)
  with Cons fs show ?case
    by simp
qed simp

lemma map_triple:
  assumes "map (\<lambda>x. (a x, b x)) xs = map (\<lambda>y. (c y, d y)) ys" and "map e xs = map f ys"
  shows "map (\<lambda>x. (a x, b x, e x)) xs = map (\<lambda>y. (c y, d y, f y)) ys"
  using assms by (induction xs ys rule: list_induct2') auto

lemma map_pair_fst: "map (\<lambda>x. (a x, b x)) xs = map (\<lambda>y. (c y, d y)) ys \<Longrightarrow> map a xs = map c ys"
  by (induction xs ys rule: list_induct2') auto

lemma end_to_end_frames:
  assumes tx: "tx_run (sender_new tx_lim) fs wire tx" and drained: "tx_queue tx = []"
    and frames: "\<forall>f\<in>set fs. outbound_ok f"
    and rx: "rx_run abi (receiver_new rx_lim) got outs rx" and lim: "limits_ok rx_lim"
    and bytes: "concat (map fst got) = concat (map fst wire)"
    and fds: "concat (map snd got) = concat (map snd wire)"
    and idle: "incomplete rx"
  shows "map (\<lambda>out. (rf_header out, frame_bytes out, map the (rf_fds out))) outs =
    map (\<lambda>f. (of_header f, of_bytes f, of_fds f)) fs"
proof -
  have sent: "concat (map fst wire) = concat (map of_bytes fs)" "concat (map snd wire) = concat (map of_fds fs)"
    using tx_run_stream [OF tx sender_new_ok] frames outbound_okD(3) drained
    by (auto simp: tx_bytes_def tx_fds_def sender_new_def)
  note recvd = rx_run_stream [OF rx receiver_new_live [OF lim]]
  have "concat (map frame_bytes outs) @ rx_bytes rx = concat (map of_bytes fs)"
    using recvd bytes sent by (simp add: receiver_new_def)
  then have frames_eq: "map (\<lambda>out. (rf_header out, frame_bytes out)) outs = map (\<lambda>f. (of_header f, of_bytes f)) fs"
    using recvd frames outbound_okD(1) idle by (intro frames_unique [where limits = rx_lim]) (auto simp: receiver_new_def)
  then have headers: "map rf_header outs = map of_header fs"
    by (rule map_pair_fst)
  have "concat (map (\<lambda>out. map the (rf_fds out)) outs) @ batch_fds (rx_batches rx) = concat (map of_fds fs)"
    using recvd fds sent by (simp add: receiver_new_def batch_fds_def)
  moreover have "\<forall>out\<in>set outs. frame_ok rx_lim out"
    using recvd by (simp add: receiver_new_def)
  ultimately have "map (\<lambda>out. map the (rf_fds out)) outs = map of_fds fs"
    using headers frames outbound_okD(2) by (intro fds_split) auto
  with frames_eq show ?thesis
    by (rule map_triple)
qed

end
