(* ===== verification/Op_Sequences.thy ===== *)
theory Op_Sequences
  imports Main
begin

text \<open>
  Sequences of operations on a component. An operation is a value, \<open>step\<close> runs it on the state,
  and a client is any list of operations. \<open>op_invariant\<close> is the contract of an invariant that
  every admissible operation keeps; \<open>op_terminal\<close> adds a condition that no operation leaves (a
  poisoned stream, a closed session). The components interpret both on their own operations.
\<close>

locale op_invariant =
  fixes step :: "'s \<Rightarrow> 'o \<Rightarrow> 's"
    and admissible :: "'o \<Rightarrow> bool"
    and inv :: "'s \<Rightarrow> bool"
  assumes inv_step: "inv s \<Longrightarrow> admissible x \<Longrightarrow> inv (step s x)"
begin

lemma inv_run: "inv s \<Longrightarrow> list_all admissible xs \<Longrightarrow> inv (foldl step s xs)"
  by (induction xs arbitrary: s) (simp_all add: inv_step)

lemma inv_prefix:
  assumes "inv s" and "list_all admissible (xs @ ys)"
  shows "inv (foldl step s xs)"
  using assms by (intro inv_run) simp_all

end

locale op_terminal = op_invariant +
  fixes terminal :: "'s \<Rightarrow> bool"
  assumes terminal_step: "inv s \<Longrightarrow> terminal s \<Longrightarrow> admissible x \<Longrightarrow> terminal (step s x)"
begin

lemma terminal_run: "inv s \<Longrightarrow> terminal s \<Longrightarrow> list_all admissible xs \<Longrightarrow> terminal (foldl step s xs)"
  by (induction xs arbitrary: s) (simp_all add: inv_step terminal_step)

lemma terminal_stays:
  assumes "inv s" and "terminal (foldl step s xs)" and "list_all admissible (xs @ ys)"
  shows "terminal (foldl step s (xs @ ys))"
  using assms inv_run [of s xs] by (simp add: terminal_run)

end

end
