(* ===== verification/Frame_Claims.thy ===== *)
theory Frame_Claims
  imports Frame_Transport Op_Sequences
begin

text \<open>
  The native protocol frames as a whole: clients that call the sender and the receiver in any
  order, with any behaviour of the kernel, and the properties of the framing layer.
\<close>

section \<open>Clients of the sender and the receiver\<close>

datatype send_op = Op_enqueue outbound_frame | Op_flush "send_event list" | Op_sender_clear

definition sender_step :: "frame_sender \<Rightarrow> send_op \<Rightarrow> frame_sender" where
  "sender_step tx x = (case x of
       Op_enqueue f \<Rightarrow> snd (enqueue tx f)
     | Op_flush events \<Rightarrow> snd (fst (flush tx events))
     | Op_sender_clear \<Rightarrow> sender_clear tx)"

definition send_admissible :: "send_op \<Rightarrow> bool" where
  "send_admissible x = (case x of Op_enqueue f \<Rightarrow> of_bytes f \<noteq> [] | _ \<Rightarrow> True)"

lemma sender_step_ok:
  assumes "tx_ok tx" and "send_admissible x"
  shows "tx_ok (sender_step tx x)"
proof (cases x)
  case (Op_enqueue f)
  with assms enqueue_ok [of tx f] show ?thesis
    by (cases "enqueue tx f") (auto simp: sender_step_def send_admissible_def)
next
  case (Op_flush events)
  with flush_post_flush [of tx events] assms(1) show ?thesis
    by (cases "flush tx events") (force simp: sender_step_def flush_post_def)
qed (simp add: assms sender_step_def sender_clear_ok)

lemma sender_step_failed: "tx_failed tx \<Longrightarrow> tx_failed (sender_step tx x)"
  by (cases x) (simp_all add: sender_step_def enqueue_def flush_def sender_clear_def)

interpretation sender: op_terminal sender_step send_admissible tx_ok tx_failed
  by unfold_locales (simp_all add: sender_step_ok sender_step_failed)

datatype recv_op = Op_receive "recv_event list" | Op_receiver_clear

definition receiver_step :: "abi \<Rightarrow> frame_receiver \<Rightarrow> recv_op \<Rightarrow> frame_receiver" where
  "receiver_step abi rx x = (case x of
       Op_receive events \<Rightarrow> snd (fst (receive abi rx events))
     | Op_receiver_clear \<Rightarrow> receiver_clear rx)"

definition recv_admissible :: "recv_op \<Rightarrow> bool" where
  "recv_admissible x = (case x of Op_receive events \<Rightarrow> eof_without_control events | _ \<Rightarrow> True)"

definition rx_closed :: "frame_receiver \<Rightarrow> bool" where
  "rx_closed rx \<longleftrightarrow> rx_bytes rx = [] \<and> rx_batches rx = [] \<and> rx_state rx = RS_Eof"

definition rx_inv :: "frame_receiver \<Rightarrow> bool" where
  "rx_inv rx \<longleftrightarrow> rx_live rx \<or> rx_failed rx \<or> rx_closed rx"

lemma receive_live:
  assumes "rx_live rx" and "eof_without_control events"
  shows "fst (fst (receive abi rx events)) \<noteq> Panic" and "rx_inv (snd (fst (receive abi rx events)))"
proof -
  obtain r rx' ev got where rec: "receive abi rx events = ((r, rx'), ev, got)"
    by (metis prod.exhaust)
  from receive_post_receive [OF rec assms] have "r \<noteq> Panic" "rx_inv rx'"
    by (auto simp: receive_post_def rx_inv_def rx_closed_def split: result.splits receive_outcome.splits)
  with rec show "fst (fst (receive abi rx events)) \<noteq> Panic" "rx_inv (snd (fst (receive abi rx events)))"
    by simp_all
qed

lemma receive_terminal:
  "rx_failed rx \<Longrightarrow> receive abi rx events = ((Err Poisoned, rx), events, [])"
  "rx_closed rx \<Longrightarrow> receive abi rx events = ((Ok Closed, rx), events, [])"
  by (simp_all add: receive_def rx_failed_def rx_closed_def)

lemma receiver_clear_live: "rx_live rx \<Longrightarrow> rx_live (receiver_clear rx)"
  by (auto simp: rx_live_def receiver_clear_def state_ok_def batches_ok_def pending_fds_def
      split: recv_state.splits)

lemma receiver_clear_terminal: "rx_failed rx \<or> rx_closed rx \<Longrightarrow> rx_state (receiver_clear rx) = rx_state rx"
  by (auto simp: receiver_clear_def rx_failed_def rx_closed_def)

lemma receiver_step_inv: "rx_inv rx \<Longrightarrow> recv_admissible x \<Longrightarrow> rx_inv (receiver_step abi rx x)"
  using receive_live [of rx _ abi] receive_terminal [of rx abi] receiver_clear_live [of rx]
  by (cases x)
    (auto simp: receiver_step_def recv_admissible_def rx_inv_def rx_failed_def rx_closed_def receiver_clear_def)

lemma receiver_step_failed: "rx_failed rx \<Longrightarrow> rx_failed (receiver_step abi rx x)"
  by (cases x) (simp_all add: receiver_step_def receive_terminal, simp add: rx_failed_def receiver_clear_def)

interpretation receiver: op_terminal "receiver_step abi" recv_admissible rx_inv rx_failed for abi
  by unfold_locales (simp_all add: receiver_step_inv receiver_step_failed)

lemma rx_inv_bounds:
  assumes "rx_inv rx"
  shows "buffered_bytes rx \<le> HEADER_LEN + max_payload (rx_limits rx)"
    and "pending_fds rx \<le> max_pending_fds (rx_limits rx)"
  using assms
  by (auto simp: rx_inv_def rx_live_def rx_failed_def rx_closed_def buffered_bytes_def pending_fds_def)

lemma step_limits:
  "header_step rx = Inl (r, rx') \<Longrightarrow> rx_limits rx' = rx_limits rx"
  "header_step rx = Inr rx' \<Longrightarrow> rx_limits rx' = rx_limits rx"
  "payload_step rx = Inl (r, rx') \<Longrightarrow> rx_limits rx' = rx_limits rx"
  "payload_step rx = Inr rx' \<Longrightarrow> rx_limits rx' = rx_limits rx"
  "data_step rx bytes fds = Inl (r, rx') \<Longrightarrow> rx_limits rx' = rx_limits rx"
  "data_step rx bytes fds = Inr rx' \<Longrightarrow> rx_limits rx' = rx_limits rx"
  "eof_step rx = (r, rx') \<Longrightarrow> rx_limits rx' = rx_limits rx"
  by (auto simp: header_step_def payload_step_def data_step_def eof_step_def rx_fail_def Let_def
      split: if_splits result.splits option.splits recv_state.splits prod.splits)

lemma receive_loop_limits: "receive_loop abi rx events got = ((r, rx'), x) \<Longrightarrow> rx_limits rx' = rx_limits rx"
proof (induction "length events" arbitrary: rx events got r rx' x rule: less_induct)
  case less
  have IH: "rx_limits rx' = rx_limits rx2"
    if "receive_loop abi rx2 events2 got2 = ((r, rx'), x)"
      and "recv_once abi n m events = (Ok y, events2)" for rx2 events2 got2 n m y
    using less.hyps [OF recv_once_shorter [OF that(2)] that(1)] .
  show ?case
    using less.prems unfolding receive_loop.simps [of abi rx events got]
    by (auto simp: rx_fail_def dest!: step_limits IH split: sum.splits prod.splits result.splits if_splits)
qed

lemma receiver_step_limits: "rx_limits (receiver_step abi rx x) = rx_limits rx"
proof (cases x)
  case (Op_receive events)
  obtain r rx' y where "receive_loop abi rx events [] = ((r, rx'), y)"
    by (metis prod.exhaust)
  with Op_receive receive_loop_limits [OF this] show ?thesis
    by (simp add: receiver_step_def receive_def)
qed (simp add: receiver_step_def receiver_clear_def)

lemma receiver_run_limits: "rx_limits (foldl (receiver_step abi) rx xs) = rx_limits rx"
  by (induction xs arbitrary: rx) (simp_all add: receiver_step_limits)

section \<open>Progress of a flush\<close>

definition progress :: "send_event list \<Rightarrow> bool" where
  "progress events = list_all (\<lambda>e. case e of Accept n \<Rightarrow> 0 < n | Send_error x \<Rightarrow> x = Interrupted) events"

definition accepts :: "send_event list \<Rightarrow> nat" where
  "accepts events = length (filter (\<lambda>e. case e of Accept _ \<Rightarrow> True | _ \<Rightarrow> False) events)"

lemma sendmsg_progress:
  assumes "progress events" and "0 < accepts events" and "0 < offered"
  shows "\<exists>sent events'. sendmsg offered events = (Ok sent, events') \<and> 0 < sent \<and> progress events' \<and>
    Suc (accepts events') = accepts events"
  using assms
proof (induction events)
  case (Cons e events)
  then show ?case
    by (cases e) (auto simp: progress_def accepts_def)
qed (simp add: accepts_def)

lemma flush_loop_drains:
  assumes "tx_ok tx" and "progress events" and "length (tx_bytes tx) \<le> accepts events"
  shows "fst (fst (flush_loop tx events wire)) = Ok Drained"
  using assms
proof (induction "accepts events" arbitrary: tx events wire rule: less_induct)
  case less
  show ?case
  proof (cases "tx_queue tx")
    case Nil
    then show ?thesis
      by (simp add: flush_loop.simps [of tx])
  next
    case (Cons frame rest)
    have f: "sf_offset frame < length (sf_bytes frame)"
      using less.prems(1) Cons by (simp add: tx_ok_def send_frame_ok_def)
    then have "0 < length (unsent frame)" "length (unsent frame) \<le> length (tx_bytes tx)"
      using Cons by (simp_all add: unsent_def tx_bytes_def)
    with less.prems sendmsg_progress [of events "length (unsent frame)"] obtain sent events'
      where send: "sendmsg (length (unsent frame)) events = (Ok sent, events')" "0 < sent" "progress events'"
        "Suc (accepts events') = accepts events"
      by auto
    obtain tx' where tx': "sent_step tx frame rest sent = Ok tx'" "tx_ok tx'"
        "tx_bytes tx = take sent (unsent frame) @ tx_bytes tx'"
      using sent_step_ok [OF less.prems(1) Cons send(2) sendmsg_bound [OF send(1)]] by metis
    have "length (tx_bytes tx') < length (tx_bytes tx)"
      using tx'(3) send(2) \<open>0 < length (unsent frame)\<close> by simp
    then have "fst (fst (flush_loop tx' events' w)) = Ok Drained" for w
      using less.hyps [OF _ tx'(2) send(3)] send(4) less.prems(3) by simp
    with Cons f send tx'(1) show ?thesis
      by (simp add: flush_loop.simps [of tx] unsent_def Let_def)
  qed
qed

section \<open>Properties\<close>

text \<open>
  C1. Framing is lossless end to end. Take any sequence of successful calls of \<open>enqueue\<close> and
  \<open>flush\<close> that drains the queue, any sequence of successful calls of \<open>receive\<close> on the other side,
  and any way in which the socket cuts the byte stream into chunks, as long as it delivers bytes and
  descriptors in order. When the receiver has no complete frame left, it has returned exactly the
  queued frames, in order, each with its header, its bytes and its own descriptors.\<close>

theorem frames_end_to_end:
  assumes "tx_run (sender_new tx_lim) fs wire tx" and "tx_queue tx = []"
    and "\<forall>f\<in>set fs. outbound_ok f"
    and "rx_run abi (receiver_new rx_lim) got outs rx" and "limits_ok rx_lim"
    and "concat (map fst got) = concat (map fst wire)" and "concat (map snd got) = concat (map snd wire)"
    and "incomplete rx"
  shows "map (\<lambda>out. (rf_header out, frame_bytes out, map the (rf_fds out))) outs =
    map (\<lambda>f. (of_header f, of_bytes f, of_fds f)) fs"
  using assms by (rule end_to_end_frames)

definition demo_abi :: abi where
  "demo_abi = \<lparr>sol_socket = 1, scm_rights = 1, msg_ctrunc = 8\<rparr>"

definition demo_header :: header where
  "demo_header = \<lparr>object_id = 2, opcode = 1, payload_len = 1, seq = 7, n_fds = 1\<rparr>"

definition demo_frame :: outbound_frame where
  "demo_frame = \<lparr>of_header = demo_header, of_bytes = header_image demo_header @ [0xAB], of_fds = [5]\<rparr>"

lemma demo_outbound: "outbound_new 2 1 7 [0xAB] [5] default_limits = Ok demo_frame"
  by (simp add: outbound_new_def default_limits_def WIRE_MAX_PAYLOAD_def demo_frame_def demo_header_def
      header_encode_eq Let_def)

lemma demo_receive:
  "\<exists>rx. receive demo_abi (receiver_new default_limits)
      [Recv_msg (of_bytes demo_frame) (build_control demo_abi [5]) 0] =
    ((Ok (Frame \<lparr>rf_header = demo_header, rf_payload = [0xAB], rf_fds = [Some 5]\<rparr>), rx), [],
     [(of_bytes demo_frame, [5])]) \<and> incomplete rx"
proof -
  let ?rx = "receiver_new default_limits"
  let ?bytes = "header_image demo_header @ [0xAB]"
  let ?rx1 = "?rx\<lparr>rx_stream_end := 17, rx_bytes := ?bytes, rx_batches := [(0, [5])]\<rparr>"
  let ?events = "[Recv_msg (of_bytes demo_frame) (build_control demo_abi [5]) 0]"
  have h: "header_decode (header_image demo_header @ xs) = Ok demo_header" for xs
    by (rule header_decode_image) (simp add: demo_header_def WIRE_MAX_PAYLOAD_def)
  have space: "control_space 64 = Ok 272"
    by (simp add: control_space_def cmsg_align_def checked_add_usize_def usize_limit_eq sizeof_cmsghdr_def
        sizeof_raw_fd_def saturating_mul_usize_def)
  have "parse_control demo_abi (take 272 (build_control demo_abi [5])) 0 = ([5], None)"
    by (rule parse_control_image) (simp_all add: sint_uint)
  then have once: "recv_once demo_abi 32768 64 ?events = (Ok (?bytes, [5]), [])"
    by (simp add: recv_once_def space demo_frame_def HEADER_LEN_def)
  have "receive demo_abi ?rx ?events = receive_loop demo_abi ?rx ?events []"
    by (simp add: receive_def receiver_new_def)
  also have "\<dots> = receive_loop demo_abi ?rx1 [] [(?bytes, [5])]"
    using once
    by (subst receive_loop.simps) (simp add: header_step_def payload_step_def data_step_def
        receiver_new_def HEADER_LEN_def recv_chunk_len_def default_limits_def WIRE_MAX_PAYLOAD_def
        saturating_add_usize_def usize_limit_eq pending_fds_def checked_add_usize_def)
  also have "\<dots> = ((Ok (Frame \<lparr>rf_header = demo_header, rf_payload = [0xAB], rf_fds = [Some 5]\<rparr>),
      ?rx\<lparr>rx_stream_end := 17, rx_byte_base := 17\<rparr>), [], [(?bytes, [5])])"
    using h [of "[]"]
    by (subst receive_loop.simps) (simp add: header_step_def payload_step_def
        receiver_new_def HEADER_LEN_def default_limits_def WIRE_MAX_PAYLOAD_def demo_header_def
        checked_add_usize_def usize_limit_eq eligible_def)
  finally show ?thesis
    by (simp add: demo_frame_def incomplete_def receiver_new_def HEADER_LEN_def)
qed

lemma demo_tx_run: "\<exists>tx. tx_run (sender_new default_limits) [demo_frame] [(of_bytes demo_frame, [5])] tx \<and> tx_queue tx = []"
proof -
  let ?tx = "sender_new default_limits"
  let ?tx1 = "?tx\<lparr>tx_queued_bytes := 17, tx_queued_fds := 1, tx_queue := [queued demo_frame]\<rparr>"
  have "enqueue ?tx demo_frame = (Ok (), ?tx1)"
    by (simp add: enqueue_def sender_new_def default_limits_def demo_frame_def demo_header_def
        WIRE_MAX_PAYLOAD_def saturating_add_usize_def usize_limit_eq queued_def HEADER_LEN_def)
  moreover have "flush ?tx1 [Accept 17] = ((Ok Drained, ?tx), [], [(of_bytes demo_frame, [5])])"
    unfolding flush_def
    by (simp add: sender_new_def, subst flush_loop.simps)
      (simp add: queued_def demo_frame_def HEADER_LEN_def sent_step_def flush_loop.simps)
  ultimately have "tx_run ?tx [demo_frame] ([(of_bytes demo_frame, [5])] @ []) ?tx"
    by (blast intro: tx_run.intros)
  then show ?thesis
    by (auto simp: sender_new_def)
qed

theorem frames_end_to_end_witness:
  "\<exists>tx rx outs. tx_run (sender_new default_limits) [demo_frame] [(of_bytes demo_frame, [5])] tx \<and>
     rx_run demo_abi (receiver_new default_limits) [(of_bytes demo_frame, [5])] outs rx \<and>
     map (\<lambda>out. (rf_header out, frame_bytes out, map the (rf_fds out))) outs =
       [(of_header demo_frame, of_bytes demo_frame, of_fds demo_frame)]"
proof -
  obtain tx where tx: "tx_run (sender_new default_limits) [demo_frame] [(of_bytes demo_frame, [5])] tx" "tx_queue tx = []"
    using demo_tx_run by blast
  obtain rx where rx: "receive demo_abi (receiver_new default_limits)
        [Recv_msg (of_bytes demo_frame) (build_control demo_abi [5]) 0] =
      ((Ok (Frame \<lparr>rf_header = demo_header, rf_payload = [0xAB], rf_fds = [Some 5]\<rparr>), rx), [],
       [(of_bytes demo_frame, [5])])" "incomplete rx"
    using demo_receive by blast
  have "eof_without_control [Recv_msg (of_bytes demo_frame) (build_control demo_abi [5]) 0]"
    by (simp add: eof_without_control_def demo_frame_def)
  from rx_frame [OF rx(1) this rx_done]
  have run: "rx_run demo_abi (receiver_new default_limits) [(of_bytes demo_frame, [5])]
      [\<lparr>rf_header = demo_header, rf_payload = [0xAB], rf_fds = [Some 5]\<rparr>] rx"
    by simp
  have "\<forall>f\<in>set [demo_frame]. outbound_ok f"
    using demo_outbound by (auto simp: outbound_ok_def demo_frame_def intro!: exI)
  moreover have "limits_ok default_limits"
    by (simp add: limits_ok_def default_limits_def usize_limit_eq)
  ultimately show ?thesis
    using frames_end_to_end [OF tx _ run _ refl refl rx(2)] tx run by fastforce
qed

text \<open>
  C9. The receiver holds its invariant against every kernel: start from a new receiver and call
  \<open>receive\<close> and \<open>clear\<close> in any order, with any messages, errors, malformed control data and stream
  cuts. No call panics, the buffer never exceeds one header and one maximal payload, and the number
  of descriptors that wait for their frame never exceeds its limit. The only assumption on the
  kernel is that the end of the stream carries no ancillary data.\<close>

theorem receiver_bounded:
  assumes "limits_ok limits" and "list_all recv_admissible (xs @ [Op_receive events])"
  shows "fst (fst (receive abi (foldl (receiver_step abi) (receiver_new limits) xs) events)) \<noteq> Panic \<and>
    buffered_bytes (foldl (receiver_step abi) (receiver_new limits) xs) \<le> HEADER_LEN + max_payload limits \<and>
    pending_fds (foldl (receiver_step abi) (receiver_new limits) xs) \<le> max_pending_fds limits"
proof -
  let ?rx = "foldl (receiver_step abi) (receiver_new limits) xs"
  have inv: "rx_inv ?rx"
    using assms receiver_new_live by (intro receiver.inv_run) (simp_all add: rx_inv_def)
  moreover have "rx_limits ?rx = limits"
    by (simp add: receiver_run_limits receiver_new_def)
  moreover have "fst (fst (receive abi ?rx events)) \<noteq> Panic"
    using inv assms(2) receive_live [of ?rx events abi] receive_terminal [of ?rx abi events]
    by (auto simp: rx_inv_def recv_admissible_def)
  ultimately show ?thesis
    using rx_inv_bounds [of ?rx] by simp
qed

theorem receiver_bounded_witness:
  "list_all recv_admissible [Op_receive [Recv_msg [1, 2] [9] 0], Op_receiver_clear, Op_receive [Recv_error Interrupted]] \<and>
   pending_fds (foldl (receiver_step demo_abi) (receiver_new default_limits)
     [Op_receive [Recv_msg [1, 2] [9] 0], Op_receiver_clear]) \<le> 1024"
proof -
  have adm: "list_all recv_admissible ([Op_receive [Recv_msg [1, 2] [9] 0], Op_receiver_clear] @
      [Op_receive [Recv_error Interrupted]])"
    by (simp add: recv_admissible_def eof_without_control_def)
  have "limits_ok default_limits"
    by (simp add: limits_ok_def default_limits_def usize_limit_eq)
  from receiver_bounded [OF this adm, of demo_abi] adm show ?thesis
    by (simp add: default_limits_def)
qed



text \<open>
  C26. The sender keeps its books: after any sequence of \<open>enqueue\<close>, \<open>flush\<close> and \<open>clear\<close> calls, with
  any behaviour of the kernel, the two counters equal what is really queued, stay within the
  limits, only the front frame is partly sent, and descriptors leave with the first byte of their
  frame. No flush panics, in particular no counter underflows.\<close>

theorem sender_accounting:
  assumes "list_all send_admissible xs"
  shows "tx_ok (foldl sender_step (sender_new limits) xs) \<and>
    fst (fst (flush (foldl sender_step (sender_new limits) xs) events)) \<noteq> Panic"
proof -
  let ?tx = "foldl sender_step (sender_new limits) xs"
  have ok: "tx_ok ?tx"
    using assms by (intro sender.inv_run) (simp_all add: sender_new_ok)
  obtain r tx' ev wire where "flush ?tx events = ((r, tx'), ev, wire)"
    by (metis prod.exhaust)
  with flush_post_flush [OF this ok] ok show ?thesis
    by (auto simp: flush_post_def)
qed

theorem sender_accounting_witness:
  "list_all send_admissible [Op_enqueue demo_frame, Op_flush [Accept 3, Send_error (Other_io 32)], Op_sender_clear] \<and>
   tx_ok (foldl sender_step (sender_new default_limits)
     [Op_enqueue demo_frame, Op_flush [Accept 3, Send_error (Other_io 32)], Op_sender_clear])"
proof -
  have "list_all send_admissible [Op_enqueue demo_frame, Op_flush [Accept 3, Send_error (Other_io 32)], Op_sender_clear]"
    by (simp add: send_admissible_def demo_frame_def)
  with sender_accounting [OF this, of default_limits "[]"] show ?thesis
    by blast
qed

text \<open>
  C25. A flush makes progress: if the kernel takes at least one byte per call, for as many calls as
  there are queued bytes, with any number of interrupted calls in between, then the flush drains the
  queue.\<close>

theorem flush_drains:
  assumes "tx_ok tx" and "\<not> tx_failed tx" and "progress events" and "tx_queued_bytes tx \<le> accepts events"
  shows "fst (fst (flush tx events)) = Ok Drained \<and> tx_queue (snd (fst (flush tx events))) = []"
proof -
  have "fst (fst (flush tx events)) = Ok Drained"
    using assms flush_loop_drains [of tx events "[]"] by (simp add: flush_def tx_ok_def)
  moreover obtain r tx' ev wire where fl: "flush tx events = ((r, tx'), ev, wire)"
    by (metis prod.exhaust)
  ultimately show ?thesis
    using flush_post_flush [OF fl assms(1)] by (simp add: flush_post_def)
qed

theorem flush_drains_witness:
  "fst (fst (flush (snd (enqueue (sender_new default_limits) demo_frame))
     (Send_error Interrupted # replicate 17 (Accept 1)))) = Ok Drained"
proof -
  let ?tx = "snd (enqueue (sender_new default_limits) demo_frame)"
  have "tx_ok ?tx"
    by (rule enqueue_ok [OF sender_new_ok, of demo_frame default_limits "fst (enqueue (sender_new default_limits) demo_frame)"])
      (simp_all add: demo_frame_def)
  moreover have "\<not> tx_failed ?tx" "tx_queued_bytes ?tx = 17"
    by (simp_all add: enqueue_def sender_new_def default_limits_def demo_frame_def demo_header_def
        WIRE_MAX_PAYLOAD_def saturating_add_usize_def usize_limit_eq HEADER_LEN_def)
  moreover have "progress (Send_error Interrupted # replicate 17 (Accept 1))"
    "accepts (Send_error Interrupted # replicate 17 (Accept 1)) = 17"
    by (simp_all add: progress_def accepts_def list_all_iff)
  ultimately show ?thesis
    using flush_drains [of ?tx "Send_error Interrupted # replicate 17 (Accept 1)"] by simp
qed

text \<open>
  C34. Headers round-trip in both directions: the 16 bytes of an encoded header decode to it, and
  encoding what was decoded from any 16 bytes gives those bytes back, so no bit of a header is lost
  or ambiguous.\<close>

theorem header_round_trip:
  "(if unat (payload_len h) \<le> WIRE_MAX_PAYLOAD
    then \<exists>bytes. header_encode h = Ok bytes \<and> length bytes = HEADER_LEN \<and> header_decode bytes = Ok h
    else header_encode h = Err (PayloadTooLarge (unat (payload_len h)) WIRE_MAX_PAYLOAD)) \<and>
   (if length raw = HEADER_LEN
    then \<exists>h'. header_decode raw = Ok h' \<and> header_encode h' = Ok raw
    else True)"
proof -
  have "\<exists>h'. header_decode raw = Ok h' \<and> header_encode h' = Ok raw" if len: "length raw = HEADER_LEN"
  proof -
    obtain h' where "header_decode raw = Ok h'"
      using header_decode_total [of raw] len by auto
    with header_encode_eq [OF header_decode_len] header_image_decode len show ?thesis
      by (metis order.refl take_all)
  qed
  then show ?thesis
    using header_decode_image [of h "[]"]
    by (auto simp: header_encode_eq) (simp add: header_encode_def)
qed

text \<open>
  C33. The ancillary buffer built for a list of descriptors is parsed back to these descriptors,
  whatever the constants of the platform are, also when the kernel reports only the bytes up to
  the last descriptor; with the truncation flag set it is rejected instead.\<close>

theorem control_round_trip:
  assumes "list_all (\<lambda>fd. 0 \<le> sint fd) fds" and "length fds < 2 ^ 32" and "16 + 4 * length fds \<le> visible"
  shows "parse_control abi (take visible (build_control abi fds)) flags =
    (fds, if flags AND msg_ctrunc abi = 0 then None else Some TruncatedControl)"
proof -
  have "parse_cmsgs abi (take visible (build_control abi fds)) 0 [] = (fds, None)"
    using parse_cmsgs_image [of fds visible abi] assms by (simp add: build_control_eq list_all_iff)
  then show ?thesis
    by (simp add: parse_control_def)
qed

theorem control_round_trip_witness:
  "parse_control demo_abi (take 28 (build_control demo_abi [3, 4, 5])) 0 = ([3, 4, 5], None)"
  using control_round_trip [of "[3, 4, 5]" 28 demo_abi 0] by (simp add: sint_uint)

text \<open>
  C35. A descriptor of a frame is handed out at most once: after a successful \<open>take\<close> the same index
  answers \<open>FdAlreadyTaken\<close>, every other index is as before, and an index out of range changes
  nothing.\<close>

theorem fds_taken_once:
  "(case fds_take fds i of
      (Ok fd, fds') \<Rightarrow> fds_get fds i = Ok fd \<and> fst (fds_take fds' i) = Err (FdAlreadyTaken i) \<and>
        (\<forall>j. j \<noteq> i \<longrightarrow> fds_get fds' j = fds_get fds j)
    | (Err e, fds') \<Rightarrow> fds' = fds \<and> fds_get fds i = Err e
    | (Panic, fds') \<Rightarrow> False)"
proof (cases "unat i < length fds")
  case True
  have "unat i \<noteq> unat j" if "j \<noteq> i" for j
    using that unsigned_word_eqI [where 'a = nat] by blast
  with True show ?thesis
    by (cases "fds ! unat i")
      (auto simp: fds_take_def fds_get_def list_update_same_conv)
qed (simp add: fds_take_def fds_get_def)

theorem fds_taken_once_witness:
  "fds_take [Some 5, Some 6] 1 = (Ok 6, [Some 5, None]) \<and> fst (fds_take [Some 5, None] 1) = Err (FdAlreadyTaken 1)"
  using fds_taken_once [of "[Some 5, Some 6]" 1] by (simp add: fds_take_def)

end
