(* ===== verification/Pod_Messages.thy ===== *)
theory Pod_Messages
  imports Pod_Parser
begin

text \<open>
  Messages: a chain of pushes and the chain of pops that reads it back. \<open>codes t f g v s\<close> says
  that the push \<open>f\<close> writes \<open>s\<close> bytes from which the parser \<open>g\<close> reads \<open>v\<close>, that \<open>f\<close> succeeds
  whenever there is room, and that a success means there was room; with \<open>t\<close>, that a lack of room
  is always reported as \<open>NoSpace\<close>. The rules follow the shape of the source: one per push, one for
  chaining, one for a counted loop, one for a nested struct.
\<close>

section \<open>Writes without room\<close>

text \<open>
  A nested struct reserves its header without looking at the room that is left, so its closure can
  meet a builder whose position is behind the end of the buffer.
\<close>

definition strict :: "push \<Rightarrow> bool" where
  "strict f \<longleftrightarrow> (\<forall>b. b_error b = None \<longrightarrow> length (b_data b) < b_pos b \<longrightarrow>
     f b = Panic \<or> f b = Ok b \<or> (\<exists>b'. f b = Ok b' \<and> b_error b' \<noteq> None))"

definition writes :: "push \<Rightarrow> (byte list \<Rightarrow> bool) \<Rightarrow> bool" where
  "writes f I \<longleftrightarrow> (\<forall>b b'. builder_wf b \<longrightarrow> f b = Ok b' \<longrightarrow> b_error b' = None \<longrightarrow>
     (\<exists>out. I out \<and> length out \<le> room b \<and> b' = put b out))"

lemma writesD:
  "writes f I \<Longrightarrow> builder_wf b \<Longrightarrow> f b = Ok b' \<Longrightarrow> b_error b' = None \<Longrightarrow>
    \<exists>out. I out \<and> length out \<le> room b \<and> b' = put b out"
  by (simp add: writes_def)

lemma strict_push_pod [simp]: "strict (push_pod C v)"
  by (simp add: strict_def push_pod_def slice_from_def)

lemma strict_nothing [simp]: "strict push_nothing"
  by (simp add: strict_def push_nothing_def)

lemma strict_seq:
  assumes "strict f" and "strict g" and "sticky g"
  shows "strict (push_seq f g)"
  unfolding strict_def
proof (intro allI impI)
  fix b :: builder assume b: "b_error b = None" "length (b_data b) < b_pos b"
  then consider "f b = Panic" | "f b = Ok b" | b' where "f b = Ok b'" "b_error b' \<noteq> None"
    using assms(1) unfolding strict_def by blast
  then show "push_seq f g b = Panic \<or> push_seq f g b = Ok b \<or>
      (\<exists>b'. push_seq f g b = Ok b' \<and> b_error b' \<noteq> None)"
  proof cases
    case 2
    with assms(2) b show ?thesis
      by (simp add: push_seq_def strict_def)
  next
    case 3
    with assms(3) show ?thesis
      by (auto simp: push_seq_def sticky_def)
  qed (simp add: push_seq_def)
qed

lemma strict_struct: "strict f \<Longrightarrow> strict (push_struct f)"
  unfolding strict_def
proof (intro allI impI)
  fix b :: builder
  assume f: "\<forall>b. b_error b = None \<longrightarrow> length (b_data b) < b_pos b \<longrightarrow>
      f b = Panic \<or> f b = Ok b \<or> (\<exists>b'. f b = Ok b' \<and> b_error b' \<noteq> None)"
    and b: "b_error b = None" "length (b_data b) < b_pos b"
  let ?b = "b\<lparr>b_pos := b_pos b + 8\<rparr>"
  from f b have "f ?b = Panic \<or> f ?b = Ok ?b \<or> (\<exists>b'. f ?b = Ok b' \<and> b_error b' \<noteq> None)"
    by simp
  with b show "push_struct f b = Panic \<or> push_struct f b = Ok b \<or>
      (\<exists>b'. push_struct f b = Ok b' \<and> b_error b' \<noteq> None)"
    by (auto simp: push_struct_def Let_def copy_into_def)
qed

lemma writes_nothing: "writes push_nothing nil_img"
  by (auto simp: writes_def push_nothing_def nil_img_def)

lemma writes_seq:
  assumes "writes f I" and "writes g J" and "sticky g"
  shows "writes (push_seq f g) (app_img I J)"
  unfolding writes_def
proof (intro allI impI)
  fix b b' assume wf: "builder_wf b" and "push_seq f g b = Ok b'" and e: "b_error b' = None"
  then obtain b1 where b1: "f b = Ok b1" "g b1 = Ok b'"
    by (auto simp: push_seq_def)
  with e assms(3) have "b_error b1 = None"
    by (auto simp: sticky_def)
  from writesD [OF assms(1) wf b1(1) this] obtain x
    where x: "I x" "length x \<le> room b" "b1 = put b x"
    by blast
  with wf have wf1: "builder_wf b1"
    by (simp add: put_wf)
  from writesD [OF assms(2) wf1 b1(2) e] obtain y
    where y: "J y" "length y \<le> room b1" "b' = put b1 y"
    by blast
  have len: "length x + length y \<le> room b"
    using y(2) x put_room [OF wf x(2)] by simp
  then have "b' = put b (x @ y)"
    using y(3) x(3) put_put [OF wf len] by simp
  moreover have "app_img I J (x @ y)"
    using x y by (auto simp: app_img_def)
  ultimately show "\<exists>out. app_img I J out \<and> length out \<le> room b \<and> b' = put b out"
    using len by (intro exI [of _ "x @ y"]) simp
qed

context pod_codec
begin

lemma writes_push_pod:
  assumes "fits v"
  shows "writes (push_pod C v) (img v)"
  unfolding writes_def
proof (intro allI impI)
  fix b b' assume wf: "builder_wf b" and f: "push_pod C v b = Ok b'" and e: "b_error b' = None"
  let ?tail = "drop (b_pos b) (b_data b)"
  have "need v \<le> length ?tail"
  proof (rule ccontr)
    assume "\<not> need v \<le> length ?tail"
    then have "encode C v ?tail = Err NoSpace"
      by (intro encode_no_space) simp
    with wf f e show False
      by (auto simp: push_pod_def builder_wf_def slice_from_def)
  qed
  from encode_ok [OF assms this] obtain out
    where out: "img v out" "encode C v ?tail = Ok (out @ drop (length out) ?tail, length out)"
    by blast
  with wf f have "b' = put b out"
    by (auto simp: push_pod_def builder_wf_def slice_from_def put_def add.commute)
  moreover have "length out \<le> room b"
    using img_size [OF out(1)] \<open>need v \<le> length ?tail\<close> by (simp add: room_def)
  ultimately show "\<exists>out. img v out \<and> length out \<le> room b \<and> b' = put b out"
    using out by blast
qed

end

lemma push_struct_put:
  assumes "builder_wf b" and "8 + length out \<le> room b"
    and "f (b\<lparr>b_pos := b_pos b + 8\<rparr>) = Ok (put (b\<lparr>b_pos := b_pos b + 8\<rparr>) out)"
  shows "push_struct f b =
    Ok (put b (u32_bytes (of_nat (length out)) @ u32_bytes (type_u32 Type_Struct) @ out))"
proof -
  let ?b = "b\<lparr>b_pos := b_pos b + 8\<rparr>"
  let ?h = "u32_bytes (of_nat (length out)) @ u32_bytes (type_u32 Type_Struct)"
  have "b_error b = None" "8 \<le> length (b_data b)"
    using assms by (auto simp: builder_wf_def room_def)
  moreover have "b_error (put ?b out) = b_error b" "b_pos (put ?b out) = b_pos b + (8 + length out)"
    by (simp_all add: put_def)
  ultimately have "push_struct f b = rbind (copy_into (b_data (put ?b out)) (b_pos b) ?h)
      (\<lambda>data. Ok ((put ?b out)\<lparr>b_data := data\<rparr>))"
    using assms(3) by (simp add: push_struct_def copy_into_append_bind Let_def)
  also have "\<dots> = Ok (put b (?h @ out))"
    using assms(1,2) by (intro fill_header) simp_all
  finally show ?thesis
    by simp
qed

lemma push_struct_room:
  assumes "strict f" and "b_error b = None" and "push_struct f b = Ok b'" and "b_error b' = None"
  shows "b_pos b + 8 \<le> length (b_data b)"
proof (rule ccontr)
  let ?b = "b\<lparr>b_pos := b_pos b + 8\<rparr>"
  assume *: "\<not> ?thesis"
  with assms(1,2) have "f ?b = Panic \<or> f ?b = Ok ?b \<or> (\<exists>c. f ?b = Ok c \<and> b_error c \<noteq> None)"
    by (simp add: strict_def)
  with * assms(2-4) show False
    by (auto simp: push_struct_def Let_def copy_into_def split: if_splits)
qed

lemma writes_struct:
  assumes "writes f I" and "strict f" and "\<And>out. I out \<Longrightarrow> length out = s"
  shows "writes (push_struct f) (struct_img s I)"
  unfolding writes_def
proof (intro allI impI)
  fix b b' assume wf: "builder_wf b" and f: "push_struct f b = Ok b'" and e: "b_error b' = None"
  let ?b = "b\<lparr>b_pos := b_pos b + 8\<rparr>"
  have err: "b_error b = None"
    using wf by (simp add: builder_wf_def)
  have "b_pos b + 8 \<le> length (b_data b)"
    by (rule push_struct_room [OF assms(2) err f e])
  then have wf': "builder_wf ?b" and r: "room ?b = room b - 8" "8 \<le> room b"
    using wf by (auto simp: builder_wf_def room_def)
  obtain ret where ret: "f ?b = Ok ret" "b_error ret = None"
    using f e err r(2) by (auto simp: push_struct_def Let_def room_def split: if_splits)
  from writesD [OF assms(1) wf' ret] obtain out
    where out: "I out" "length out \<le> room ?b" "ret = put ?b out"
    by blast
  have "push_struct f b =
      Ok (put b (u32_bytes (of_nat s) @ u32_bytes (type_u32 Type_Struct) @ out))"
    using push_struct_put [OF wf, of out f] ret out r assms(3) [OF out(1)] by simp
  with f out r show "\<exists>out. struct_img s I out \<and> length out \<le> room b \<and> b' = put b out"
    by (auto simp: struct_img_def)
qed

section \<open>Message programs\<close>

definition codes :: "bool \<Rightarrow> push \<Rightarrow> 'a parse \<Rightarrow> 'a \<Rightarrow> nat \<Rightarrow> bool" where
  "codes t f g v s \<longleftrightarrow> sticky f \<and> strict f \<and> 8 dvd s \<and> (t \<longrightarrow> no_space_ok f s) \<and>
     (\<exists>I. emits f I s s \<and> writes f I \<and> parses g I v)"

named_theorems codes_intros \<open>messages that are read back\<close>

lemma codes_nothing [codes_intros]: "codes t push_nothing (preturn v) v 0"
  by (auto simp: codes_def no_space_nothing emits_nothing writes_nothing parses_return
      intro!: exI [of _ nil_img])

lemma codes_seq [codes_intros]:
  assumes f: "codes t f g a s" and f': "codes t f' (g' a) b s'"
  shows "codes t (push_seq f f') (pbind g g') b (s + s')"
proof -
  obtain I where I: "emits f I s s" "writes f I" "parses g I a"
    using f by (auto simp: codes_def)
  obtain J where J: "emits f' J s' s'" "writes f' J" "parses (g' a) J b"
    using f' by (auto simp: codes_def)
  have sticky: "sticky f" "sticky f'" "strict f" "strict f'" "8 dvd s + s'"
    using f f' by (auto simp: codes_def)
  have "t \<longrightarrow> no_space_ok (push_seq f f') (s + s')"
    using no_space_seq [OF I(1)] f f' sticky by (fastforce simp: codes_def max_def)
  moreover have "emits (push_seq f f') (app_img I J) (s + s') (s + s')"
    using emits_seq [OF I(1) J(1)] by simp
  ultimately show ?thesis
    unfolding codes_def
    using sticky writes_seq [OF I(2) J(2)] parses_pbind [where g = g', OF I(3) J(3)]
    by (blast intro: strict_seq sticky_push_seq)
qed

lemma codes_map:
  assumes "codes t f g a s" and "h a = preturn b"
  shows "codes t f (pbind g h) b s"
  using assms parses_pbind_return [where g = h, OF _ assms(2)] unfolding codes_def by blast

lemma codes_weaken: "codes True f g v s \<Longrightarrow> codes t f g v s"
  by (simp add: codes_def)

lemma codes_eq: "codes t f g v s \<Longrightarrow> g = g' \<Longrightarrow> v = v' \<Longrightarrow> s = s' \<Longrightarrow> codes t f g' v' s'"
  by simp

lemma pbind_ok: "r = Ok x \<Longrightarrow> pbind (lift_result r) g = g x"
  by (rule ext) simp

lemma push_seq_assoc: "push_seq (push_seq f g) h = push_seq f (push_seq g h)"
  by (rule ext) (simp add: push_seq_def rbind_assoc push_seq_def [abs_def])

context pod_codec
begin

lemma codes_push_pod:
  assumes "fits v" and "\<And>out. img v out \<Longrightarrow> length out = s" and "need v = s"
  shows "codes t (push_pod C v) (pop_pod C) (view v) s"
proof -
  obtain out where "img v out"
    using encode_ok [OF assms(1), of "replicate (need v) 0"] by auto
  then have "8 dvd s"
    using img_size [of v out] assms(2) by auto
  then show ?thesis
    using emits_push_pod [OF assms(1,2)] writes_push_pod [OF assms(1)] parses_pop_pod [OF assms(1)]
      no_space_push_pod [of v] assms(3)
    by (auto simp: codes_def)
qed

end

text \<open>\<open>for _ in 0..n { xs.push(pop()?) }\<close>\<close>

fun pop_n :: "nat \<Rightarrow> 'a parse \<Rightarrow> 'a list parse" where
  "pop_n 0 pop = preturn []"
| "pop_n (Suc n) pop = pbind pop (\<lambda>x. pbind (pop_n n pop) (\<lambda>xs. preturn (x # xs)))"

lemma codes_all:
  assumes "\<And>x. x \<in> set xs \<Longrightarrow> codes t (f x) g (h x) (s x)"
  shows "codes t (push_all f xs) (pop_n (length xs) g) (map h xs) (sum_list (map s xs))"
  using assms
proof (induction xs)
  case Nil
  then show ?case
    by (simp add: codes_nothing)
next
  case (Cons x xs)
  have "codes t (push_all f xs) (pop_n (length xs) g) (map h xs) (sum_list (map s xs))"
    using Cons by simp
  then have "codes t (push_all f xs) (pbind (pop_n (length xs) g) (\<lambda>ys. preturn (h x # ys)))
      (h x # map h xs) (sum_list (map s xs))"
    by (rule codes_map) simp
  from codes_seq [where g' = "\<lambda>x. pbind (pop_n (length xs) g) (\<lambda>ys. preturn (x # ys))",
      OF Cons.prems [of x] this] show ?case
    by simp
qed

lemma safe_pop_n [safe_intros]: "parse_safe g \<Longrightarrow> parse_safe (pop_n n g)"
  by (induction n) (auto intro!: safe_intros)

text \<open>A nested struct, read back as a raw pod.\<close>

lemma raw_pod_struct_img:
  assumes "struct_img s I out" and "\<And>b. I b \<Longrightarrow> length b = s" and "s < 2 ^ 32" and "8 dvd s"
  shows "raw_pod_wf \<lparr>rp_size = 8 + s, rp_type = Type_Struct, rp_data = out\<rparr>"
proof -
  obtain body where body: "I body" "out = u32_bytes (of_nat s) @ u32_bytes (type_u32 Type_Struct) @ body"
    using assms(1) by (auto simp: struct_img_def)
  have "unat (of_nat s :: u32) = s"
    using assms(3) by (rule unat_of_nat_u32)
  then have total: "pod_total_size s = Ok (8 + s)"
    using pod_total_size_u32 [of "of_nat s"] assms(4) by (simp add: pad_8_dvd_0)
  show ?thesis
    using body assms(2) [OF body(1)] \<open>unat _ = s\<close> total pad_8_dvd_0 [OF assms(4)]
    by (simp add: raw_pod_wf_def raw_pod_owned_wrap_def codec_simps)
qed

text \<open>A closure that must consume its whole struct; \<open>e\<close> is the error for the bytes that are left.\<close>

definition then_end :: "(nat \<Rightarrow> pod_error) \<Rightarrow> 'a parse \<Rightarrow> 'a parse" where
  "then_end e parse = pbind parse (\<lambda>v p. if available p \<noteq> 0 then (Err (e (available p)), p) else (Ok v, p))"

lemma safe_then_end [safe_intros]:
  assumes "parse_safe g"
  shows "parse_safe (then_end e g)"
  unfolding then_end_def
  by (rule safe_pbind [OF assms]) (auto simp: parse_safe_def stays_def)

text \<open>What a closure reads from a buffer that holds an image and nothing else.\<close>

definition reads_all :: "'a parse \<Rightarrow> (byte list \<Rightarrow> bool) \<Rightarrow> 'a \<Rightarrow> bool" where
  "reads_all g I v \<longleftrightarrow> (\<forall>out. I out \<longrightarrow> length out < usize_limit \<longrightarrow> fst (g (parser_new out)) = Ok v)"

lemma reads_all_then_end: "parses g I v \<Longrightarrow> reads_all (then_end e g) I v"
  using parses_start [of g I v]
  by (auto simp: reads_all_def then_end_def pbind_def available_def)

lemma pop_struct_reads_all:
  assumes "reads_all g I v" and "\<And>out. I out \<Longrightarrow> length out = s" and "s < 2 ^ 32" and "8 dvd s"
  shows "parses (pop_struct g) (struct_img s I) (v, 8 + s)"
proof -
  have "fst (g (parser_new body)) = Ok v" if "I body" for body
    using assms(1) assms(2) [OF that] assms(3) that by (simp add: reads_all_def usize_limit_eq)
  then have "pop_struct g \<lparr>p_data = pre @ (u32_bytes (of_nat s) @ u32_bytes (type_u32 Type_Struct) @
        body) @ post, p_pos = length pre\<rparr> =
      (Ok (v, 8 + s), \<lparr>p_data = pre @ (u32_bytes (of_nat s) @ u32_bytes (type_u32 Type_Struct) @
        body) @ post, p_pos = length pre + (8 + s)\<rparr>)" if "I body" for pre body post
    using that struct_header_image [of body pre post] assms(2-4)
    by (simp add: pop_struct_def pbind_advance lift_result_def del: append_assoc)
  then show ?thesis
    using assms(2) by (auto simp: parses_def struct_img_def)
qed

lemma codes_struct_raw:
  assumes "codes t f g v s" and "s < 2 ^ 32"
    and "\<And>data. fst (pop_struct (then_end e g) (parser_new data)) = Ok (v, 8 + s) \<Longrightarrow>
      h \<lparr>rp_size = 8 + s, rp_type = Type_Struct, rp_data = data\<rparr> = preturn w"
  shows "codes False (push_struct f) (pbind pop_raw_pod h) w (8 + s)"
proof -
  obtain I where I: "emits f I s s" "writes f I" "parses g I v"
    using assms(1) by (auto simp: codes_def)
  have len: "length out = s" if "I out" for out
    using I(1) that by (simp add: emits_def)
  have dvd: "8 dvd s" and "strict f"
    using assms(1) by (simp_all add: codes_def)
  have "pbind pop_raw_pod h \<lparr>p_data = pre @ out @ post, p_pos = length pre\<rparr> =
      (Ok w, \<lparr>p_data = pre @ out @ post, p_pos = length pre + length out\<rparr>)"
    if out: "struct_img s I out" and small: "length (pre @ out @ post) < usize_limit" for pre out post
  proof -
    let ?pod = "\<lparr>rp_size = 8 + s, rp_type = Type_Struct, rp_data = out\<rparr>"
    have "raw_pod_wf ?pod"
      by (rule raw_pod_struct_img [OF out len assms(2) dvd])
    from parsesD [OF parses_pop_raw_pod [OF this], of out pre post] small
    have pop: "pop_raw_pod \<lparr>p_data = pre @ out @ post, p_pos = length pre\<rparr> =
        (Ok ?pod, \<lparr>p_data = pre @ out @ post, p_pos = length pre + length out\<rparr>)"
      by simp
    have "fst (pop_struct (then_end e g) (parser_new out)) = Ok (v, 8 + s)"
      using parses_start [OF pop_struct_reads_all [OF reads_all_then_end [OF I(3)] len assms(2) dvd] out]
        small by simp
    with pop assms(3) show ?thesis
      by (simp add: pbind_def lift_result_def)
  qed
  then have "parses (pbind pop_raw_pod h) (struct_img s I) w"
    by (simp add: parses_def)
  moreover have "emits (push_struct f) (struct_img s I) (8 + s) (8 + s)"
    by (rule emits_push_struct [OF I(1)])
  moreover have "writes (push_struct f) (struct_img s I)"
    by (rule writes_struct [OF I(2) \<open>strict f\<close> len])
  ultimately show ?thesis
    unfolding codes_def using dvd \<open>strict f\<close> by (auto intro: strict_struct)
qed

lemma codes_raw:
  assumes "raw_pod_wf v"
  shows "codes t (push_pod pod_raw v) pop_raw_pod v (rp_size v)"
proof -
  have "codes t (push_pod pod_raw v) (pop_pod pod_raw) v (rp_size v)"
    using assms by (intro raw.codes_push_pod) (simp_all add: raw_pod_wf_length)
  moreover have "emits (push_pod pod_raw v) (\<lambda>out. out = rp_data v) (rp_size v) (rp_size v)"
    using raw.emits_push_pod [OF assms, of "rp_size v"] assms by (simp add: raw_pod_wf_length)
  moreover have "writes (push_pod pod_raw v) (\<lambda>out. out = rp_data v)"
    using raw.writes_push_pod [OF assms] assms by simp
  ultimately show ?thesis
    using parses_pop_raw_pod [OF assms] unfolding codes_def by blast
qed

definition none_pod :: raw_pod where
  "none_pod = \<lparr>rp_size = 8, rp_type = Type_None, rp_data = prim_image prim_unit (\<lambda>_. []) ()\<rparr>"

lemma none_pod_wf: "raw_pod_wf none_pod"
  by (simp add: raw_pod_wf_def none_pod_def raw_pod_owned_wrap_def prim_image_def prim_unit_def codec_simps)

context primitive_codec
begin

lemma codes_prim:
  "s = 8 + prim_size P + pad_8 (prim_size P) \<Longrightarrow>
    codes t (push_pod (pod_prim P) v) (pop_pod (pod_prim P)) v s"
  by (rule as_pod.codes_push_pod) (simp_all add: length_prim_image)

end

lemma codes_int [codes_intros]: "codes t (push_int v) pop_int v 16"
  unfolding push_int_def pop_int_def by (rule i32.codes_prim) (simp add: prim_i32_def)

lemma codes_long [codes_intros]: "codes t (push_long v) pop_long v 16"
  unfolding push_long_def pop_long_def by (rule i64.codes_prim) (simp add: prim_i64_def)

lemma codes_bool [codes_intros]: "codes t (push_bool v) pop_bool v 16"
  unfolding push_bool_def pop_bool_def by (rule bool.codes_prim) (simp add: prim_bool_def)

lemma codes_fd [codes_intros]: "codes t (push_fd v) pop_fd (Fd (scast v)) 16"
  unfolding push_fd_def pop_fd_def by (rule fd.codes_prim) (simp add: prim_fd_def)

lemma codes_id [codes_intros]: "codes t (push_id (\<lambda>x. x) Some v) (pop_id (\<lambda>x. x) Some) v 16"
  unfolding push_id_def pop_id_def by (rule u32_id.id.codes_prim) (simp add: prim_id_def)

lemma codes_string [codes_intros]:
  "valid_utf8 v \<Longrightarrow> length v + 1 < 2 ^ 32 \<Longrightarrow> codes t (push_string v) pop_string v (string_need v)"
  unfolding push_string_def pop_string_def
  by (rule string.codes_push_pod) (simp_all add: length_string_image)

lemma codes_none: "codes t push_none pop_raw_pod none_pod 8"
proof -
  let ?I = "\<lambda>out. out = prim_image prim_unit (\<lambda>_. []) ()"
  have "codes t push_none (pop_pod (pod_prim prim_unit)) () 8"
    unfolding push_none_def by (rule unit.codes_prim) (simp add: prim_unit_def)
  moreover have "emits push_none ?I 8 8"
  proof -
    have "prim_size prim_unit = 0"
      by (simp add: prim_unit_def)
    then show ?thesis
      using unit.as_pod.emits_push_pod [of "()" 8] by (simp add: push_none_def unit.length_prim_image)
  qed
  moreover have "writes push_none ?I"
    using unit.as_pod.writes_push_pod [of "()"] by (simp add: push_none_def)
  ultimately show ?thesis
    using parses_pop_raw_pod [OF none_pod_wf] unfolding codes_def none_pod_def by auto
qed

end
