(* ===== verification/Client_Node_Wire.thy ===== *)
theory Client_Node_Wire
  imports Pod_Messages Frame_Header
begin

text \<open>
  \<^verbatim>\<open>protocol/src/wire/client_node/mod.rs\<close>: the ClientNode messages, their encoders and their
  decoders. A payload is one POD struct; a decoder also selects the descriptors of the frame.
  The casts between \<open>i32\<close> and \<open>u32\<close>, and between \<open>i64\<close> and \<open>u64\<close>, keep the bits and are the
  identity on words.
\<close>

section \<open>Messages\<close>

datatype (plugins only: code size) input_msg =
    Payload_exceeds_limit nat
  | Count_exceeds nat nat
  | Pod_exceeds_byte_limit
  | Fd_index_exceeds_i32
  | Only_format_param
  | Only_buffers_io
  | Client_allocated

datatype (plugins only: code size) wire_error =
    Pod_codec pod_error
  | Trailing_pod
  | Unsupported_opcode byte
  | Invalid_input input_msg
  | Fd_count_mismatch nat nat
  | Fd_referenced_twice u32
  | Frame_fd frame_error
  | Negative_frame_fd i64

type_synonym 'a wire_result = "('a, wire_error) result"

definition INVALID_ID :: u32 where "INVALID_ID = 0xFFFFFFFF"
definition SPA_IO_BUFFERS :: u32 where "SPA_IO_BUFFERS = 1"
definition SPA_PARAM_FORMAT :: u32 where "SPA_PARAM_FORMAT = 4"
definition SPA_NODE_BUFFERS_FLAG_ALLOC :: u32 where "SPA_NODE_BUFFERS_FLAG_ALLOC = 1"
definition NODE_INFO_CHANGE_MASK :: u64 where "NODE_INFO_CHANGE_MASK = 0x7"
definition PORT_INFO_CHANGE_MASK :: u64 where "PORT_INFO_CHANGE_MASK = 0xF"
definition NODE_INFO_CHANGE_PROPS :: u64 where "NODE_INFO_CHANGE_PROPS = 2"
definition NODE_INFO_CHANGE_PARAMS :: u64 where "NODE_INFO_CHANGE_PARAMS = 4"
definition INITIAL_ENCODE_CAPACITY :: nat where "INITIAL_ENCODE_CAPACITY = 1024"
definition MAX_ENCODE_CAPACITY :: nat where "MAX_ENCODE_CAPACITY = 16 * 1024 * 1024"

definition method_UPDATE :: byte where "method_UPDATE = 2"
definition method_PORT_UPDATE :: byte where "method_PORT_UPDATE = 3"
definition method_SET_ACTIVE :: byte where "method_SET_ACTIVE = 4"
definition event_TRANSPORT :: byte where "event_TRANSPORT = 0"
definition event_COMMAND :: byte where "event_COMMAND = 4"
definition event_PORT_SET_PARAM :: byte where "event_PORT_SET_PARAM = 7"
definition event_PORT_USE_BUFFERS :: byte where "event_PORT_USE_BUFFERS = 8"
definition event_PORT_SET_IO :: byte where "event_PORT_SET_IO = 9"
definition event_SET_ACTIVATION :: byte where "event_SET_ACTIVATION = 10"

lemmas opcode_defs = method_UPDATE_def method_PORT_UPDATE_def method_SET_ACTIVE_def event_TRANSPORT_def
  event_COMMAND_def event_PORT_SET_PARAM_def event_PORT_USE_BUFFERS_def event_PORT_SET_IO_def
  event_SET_ACTIVATION_def

record wire_limits =
  max_params :: nat
  max_properties :: nat
  max_param_info :: nat
  max_buffers :: nat
  max_metas :: nat
  max_datas :: nat
  max_pod_bytes :: nat

definition default_wire_limits :: wire_limits where
  "default_wire_limits =
     \<lparr>max_params = 64, max_properties = 256, max_param_info = 64, max_buffers = 64, max_metas = 64,
      max_datas = 256, max_pod_bytes = 1024 * 1024\<rparr>"

datatype direction = Input | Output

definition direction_u32 :: "direction \<Rightarrow> u32" where
  "direction_u32 d = (case d of Input \<Rightarrow> 0 | Output \<Rightarrow> 1)"

record region_ref =
  rr_memory_id :: u32
  rr_offset :: u32
  rr_size :: u32

record param_info =
  pi_id :: u32
  pi_flags :: u32

type_synonym property_pairs = "(byte list \<times> byte list) list"

record node_info =
  ni_max_input_ports :: u32
  ni_max_output_ports :: u32
  ni_change_mask :: u64
  ni_flags :: u64
  ni_properties :: property_pairs
  ni_params :: "param_info list"

record port_info =
  po_change_mask :: u64
  po_flags :: u64
  po_rate_num :: u32
  po_rate_denom :: u32
  po_properties :: property_pairs
  po_params :: "param_info list"

record update =
  up_change_mask :: u32
  up_params :: "raw_pod list"
  up_info :: "node_info option"

record port_update =
  pu_direction :: direction
  pu_port_id :: u32
  pu_change_mask :: u32
  pu_params :: "raw_pod list"
  pu_info :: "port_info option"

datatype (plugins only: code size) "method" =
    Update update
  | PortUpdate port_update
  | SetActive bool

definition method_opcode :: "method \<Rightarrow> byte" where
  "method_opcode m = (case m of
       Update _ \<Rightarrow> method_UPDATE | PortUpdate _ \<Rightarrow> method_PORT_UPDATE | SetActive _ \<Rightarrow> method_SET_ACTIVE)"

record meta_descriptor =
  md_type_id :: u32
  md_size :: u32

record data_descriptor =
  dd_type_id :: u32
  dd_data_id :: u32
  dd_flags :: u32
  dd_map_offset :: u32
  dd_max_size :: u32

record buffer_descriptor =
  bd_metadata :: region_ref
  bd_metas :: "meta_descriptor list"
  bd_datas :: "data_descriptor list"

record transport =
  tr_trigger_fd :: raw_fd
  tr_completion_fd :: raw_fd
  tr_activation :: region_ref

record port_set_param =
  sp_direction :: direction
  sp_port_id :: u32
  sp_param_id :: u32
  sp_flags :: u32
  sp_param :: "raw_pod option"

record port_use_buffers =
  ub_direction :: direction
  ub_port_id :: u32
  ub_mix_id :: "u32 option"
  ub_flags :: u32
  ub_buffers :: "buffer_descriptor list"

datatype (plugins only: code size) port_set_io =
    Io_Set direction u32 "u32 option" u32 region_ref
  | Io_Clear direction u32 "u32 option" u32

datatype (plugins only: code size) set_activation =
    Activation_Set u32 raw_fd region_ref
  | Activation_Remove u32

datatype command = Suspend | Pause | Start

definition command_u32 :: "command \<Rightarrow> u32" where
  "command_u32 c = (case c of Suspend \<Rightarrow> 0 | Pause \<Rightarrow> 1 | Start \<Rightarrow> 2)"

datatype (plugins only: code size) event =
    Ev_Transport transport
  | Ev_PortSetParam port_set_param
  | Ev_PortUseBuffers port_use_buffers
  | Ev_PortSetIo port_set_io
  | Ev_SetActivation set_activation
  | Ev_Command command

section \<open>Checks\<close>

abbreviation wire_invalid :: "wire_msg \<Rightarrow> pod_error" where
  "wire_invalid m \<equiv> Invalid (Wire_msg m)"

definition optional_id :: "u32 \<Rightarrow> u32 option" where
  "optional_id v = (if v \<noteq> INVALID_ID then Some v else None)"

definition wire_id :: "u32 option \<Rightarrow> u32" where
  "wire_id v = (case v of Some x \<Rightarrow> x | None \<Rightarrow> INVALID_ID)"

definition is_clear_region :: "region_ref \<Rightarrow> bool" where
  "is_clear_region r \<longleftrightarrow> rr_memory_id r = INVALID_ID \<and> rr_offset r = 0 \<and> rr_size r = 0"

definition clear_region :: region_ref where
  "clear_region = \<lparr>rr_memory_id = INVALID_ID, rr_offset = 0, rr_size = 0\<rparr>"

definition reject_partial_clear :: "region_ref \<Rightarrow> unit pod_result" where
  "reject_partial_clear r =
     (if rr_memory_id r = INVALID_ID \<or> rr_size r = 0 then Err (wire_invalid Partial_region_clear)
      else rbind (ok_or (checked_add_u32 (rr_offset r) (rr_size r)) (wire_invalid Region_range_overflows_u32))
        (\<lambda>_. Ok ()))"

definition validate_data :: "data_descriptor \<Rightarrow> unit pod_result" where
  "validate_data d =
     (if dd_max_size d = 0 then Err (wire_invalid Data_has_zero_max_size)
      else rbind (ok_or (checked_add_u32 (dd_map_offset d) (dd_max_size d)) (wire_invalid Data_range_overflows_u32))
        (\<lambda>_. Ok ()))"

definition validate_format_object :: "byte list \<Rightarrow> unit pod_result" where
  "validate_format_object bytes =
     (if length bytes < 16 then Err (wire_invalid Not_a_Format_object)
      else rbind (u32_at bytes 8) (\<lambda>t.
        if t \<noteq> object_type_u32 OT_Format then Err (wire_invalid Not_a_Format_object) else Ok ()))"

definition ensure_count :: "nat \<Rightarrow> nat \<Rightarrow> unit wire_result" where
  "ensure_count n limit =
     (if n > limit \<or> n > 0x7FFFFFFF then Err (Invalid_input (Count_exceeds n limit)) else Ok ())"

definition count :: "i32 \<Rightarrow> nat \<Rightarrow> nat pod_result" where
  "count v limit =
     (if sint v < 0 then Err (wire_invalid Negative_count)
      else let n = unat v in
        if n > limit then Err (wire_invalid (Count_exceeds_limit n limit)) else Ok n)"

definition direction_of :: "i32 \<Rightarrow> direction pod_result" where
  "direction_of v =
     (if v = 0 then Ok Input else if v = 1 then Ok Output else Err (wire_invalid (Invalid_direction v)))"

definition u32_try_from_i64 :: "i64 \<Rightarrow> u32 option" where
  "u32_try_from_i64 v = (if 0 \<le> sint v \<and> sint v < 2 ^ 32 then Some (ucast v) else None)"

definition fd_index :: "i64 \<Rightarrow> u32 wire_result" where
  "fd_index v = ok_or (u32_try_from_i64 v) (Negative_frame_fd v)"

definition pod_fd_index :: "i64 \<Rightarrow> u32 pod_result" where
  "pod_fd_index v = ok_or (u32_try_from_i64 v) (wire_invalid (Negative_fd_index v))"

definition i32_try_from_u32 :: "u32 \<Rightarrow> i32 option" where
  "i32_try_from_u32 v = (if unat v < 2 ^ 31 then Some v else None)"

text \<open>Each index of the message names a descriptor of the frame that is still there, once.\<close>

fun require_indices :: "frame_fds \<Rightarrow> u32 list \<Rightarrow> u32 list \<Rightarrow> unit wire_result" where
  "require_indices fds seen [] = Ok ()"
| "require_indices fds seen (i # is) =
     (if i \<in> set seen then Err (Fd_referenced_twice i)
      else rbind (map_err Frame_fd (fds_get fds i)) (\<lambda>_. require_indices fds (seen @ [i]) is))"

definition require_fds :: "frame_fds \<Rightarrow> u32 list \<Rightarrow> unit wire_result" where
  "require_fds fds indices =
     (if length fds \<noteq> length indices then Err (Fd_count_mismatch (length indices) (length fds))
      else require_indices fds [] indices)"

definition take_fd :: "frame_fds \<Rightarrow> u32 \<Rightarrow> raw_fd wire_result \<times> frame_fds" where
  "take_fd fds index = (case fds_take fds index of (r, fds') \<Rightarrow> (map_err Frame_fd r, fds'))"

section \<open>Payloads\<close>

text \<open>
  The buffer grows until the struct fits. The source starts at 1024 bytes; a capacity of 0 would
  never grow, and the model does not retry there.
\<close>

function encode_payload_from :: "nat \<Rightarrow> push \<Rightarrow> byte list wire_result" where
  "encode_payload_from capacity b =
     (case rbind (push_struct b (builder_new (replicate capacity 0))) build of
        Ok pod \<Rightarrow> Ok pod
      | Err NoSpace \<Rightarrow>
          if 0 < capacity \<and> capacity < MAX_ENCODE_CAPACITY
          then encode_payload_from (min (capacity * 2) MAX_ENCODE_CAPACITY) b
          else Err (Invalid_input (Payload_exceeds_limit MAX_ENCODE_CAPACITY))
      | Err e \<Rightarrow> Err (Pod_codec e)
      | Panic \<Rightarrow> Panic)"
  by pat_completeness auto
termination
  by (relation "measure (\<lambda>(capacity, b). MAX_ENCODE_CAPACITY - capacity)") auto

declare encode_payload_from.simps [simp del]

definition encode_payload :: "push \<Rightarrow> byte list wire_result" where
  "encode_payload b = encode_payload_from INITIAL_ENCODE_CAPACITY b"

definition parse_payload :: "byte list \<Rightarrow> 'a parse \<Rightarrow> 'a wire_result" where
  "parse_payload payload parse =
     rbind (map_err Pod_codec (fst (pop_struct
       (then_end (\<lambda>n. wire_invalid (Trailing_bytes_in_ClientNode_struct n)) parse) (parser_new payload)))) (\<lambda>(v, n).
     if n \<noteq> length payload then Err Trailing_pod else Ok v)"

abbreviation push_id_u32 :: "u32 \<Rightarrow> push" where
  "push_id_u32 v \<equiv> push_id (\<lambda>x. x) Some (Id v)"

definition pop_id_u32 :: "u32 parse" where
  "pop_id_u32 = pbind (pop_id (\<lambda>x. x) Some) (\<lambda>i. preturn (case i of Id v \<Rightarrow> v))"

abbreviation push_chain :: "push list \<Rightarrow> push" where
  "push_chain fs \<equiv> foldr push_seq fs push_nothing"

definition push_region :: "region_ref \<Rightarrow> push" where
  "push_region r = push_chain [push_int (rr_memory_id r), push_int (rr_offset r), push_int (rr_size r)]"

definition pop_region :: "region_ref parse" where
  "pop_region =
     pbind pop_int (\<lambda>m. pbind pop_int (\<lambda>off. pbind pop_int (\<lambda>sz.
     preturn \<lparr>rr_memory_id = m, rr_offset = off, rr_size = sz\<rparr>)))"

section \<open>Methods\<close>

definition push_property_pair :: "byte list \<times> byte list \<Rightarrow> push" where
  "push_property_pair kv = push_chain [push_string (fst kv), push_string (snd kv)]"

definition push_param_info :: "param_info \<Rightarrow> push" where
  "push_param_info p = push_chain [push_id_u32 (pi_id p), push_int (pi_flags p)]"

definition push_info_tail :: "property_pairs \<Rightarrow> param_info list \<Rightarrow> push" where
  "push_info_tail properties params =
     push_chain [push_int (of_nat (length properties)), push_all push_property_pair properties,
       push_int (of_nat (length params)), push_all push_param_info params]"

definition push_node_info :: "node_info \<Rightarrow> push" where
  "push_node_info info =
     (let change_mask = ni_change_mask info AND NODE_INFO_CHANGE_MASK;
          properties = (if change_mask AND NODE_INFO_CHANGE_PROPS \<noteq> 0 then ni_properties info else []);
          params = (if change_mask AND NODE_INFO_CHANGE_PARAMS \<noteq> 0 then ni_params info else [])
      in push_chain [push_int (ni_max_input_ports info), push_int (ni_max_output_ports info),
           push_long change_mask, push_long (ni_flags info), push_info_tail properties params])"

definition push_port_info :: "port_info \<Rightarrow> push" where
  "push_port_info info =
     push_chain [push_long (po_change_mask info AND PORT_INFO_CHANGE_MASK), push_long (po_flags info),
       push_int (po_rate_num info), push_int (po_rate_denom info),
       push_info_tail (po_properties info) (po_params info)]"

definition bool_usize :: "bool \<Rightarrow> nat" where
  "bool_usize b = (if b then 1 else 0)"

definition validate_counts :: "raw_pod list \<Rightarrow> nat \<Rightarrow> nat \<Rightarrow> wire_limits \<Rightarrow> unit wire_result" where
  "validate_counts params property_count param_info_count limits =
     rbind (ensure_count (length params) (max_params limits)) (\<lambda>_.
     rbind (ensure_count property_count (max_properties limits)) (\<lambda>_.
     rbind (ensure_count param_info_count (max_param_info limits)) (\<lambda>_.
     if list_ex (\<lambda>pod. rp_size pod > max_pod_bytes limits) params
     then Err (Invalid_input Pod_exceeds_byte_limit) else Ok ())))"

definition validate_method :: "method \<Rightarrow> wire_limits \<Rightarrow> unit wire_result" where
  "validate_method m limits = (case m of
       Update u \<Rightarrow> validate_counts (up_params u)
         (case up_info u of None \<Rightarrow> 0 | Some info \<Rightarrow>
           bool_usize (ni_change_mask info AND NODE_INFO_CHANGE_PROPS \<noteq> 0) * length (ni_properties info))
         (case up_info u of None \<Rightarrow> 0 | Some info \<Rightarrow>
           bool_usize (ni_change_mask info AND NODE_INFO_CHANGE_PARAMS \<noteq> 0) * length (ni_params info))
         limits
     | PortUpdate u \<Rightarrow> validate_counts (pu_params u)
         (case pu_info u of None \<Rightarrow> 0 | Some info \<Rightarrow> length (po_properties info))
         (case pu_info u of None \<Rightarrow> 0 | Some info \<Rightarrow> length (po_params info))
         limits
     | SetActive _ \<Rightarrow> Ok ())"

definition push_update :: "update \<Rightarrow> push" where
  "push_update u =
     push_chain [push_int (up_change_mask u), push_int (of_nat (length (up_params u))),
       push_all (push_pod pod_raw) (up_params u),
       (case up_info u of Some info \<Rightarrow> push_struct (push_node_info info) | None \<Rightarrow> push_none)]"

definition push_port_update :: "port_update \<Rightarrow> push" where
  "push_port_update u =
     push_chain [push_int (direction_u32 (pu_direction u)), push_int (pu_port_id u),
       push_int (pu_change_mask u), push_int (of_nat (length (pu_params u))),
       push_all (push_pod pod_raw) (pu_params u),
       (case pu_info u of Some info \<Rightarrow> push_struct (push_port_info info) | None \<Rightarrow> push_none)]"

definition encode_method_with_limits :: "method \<Rightarrow> wire_limits \<Rightarrow> byte list wire_result" where
  "encode_method_with_limits m limits =
     rbind (validate_method m limits) (\<lambda>_. case m of
         Update u \<Rightarrow> encode_payload (push_update u)
       | PortUpdate u \<Rightarrow> encode_payload (push_port_update u)
       | SetActive active \<Rightarrow> encode_payload (push_bool active))"

definition encode_method :: "method \<Rightarrow> byte list wire_result" where
  "encode_method m = encode_method_with_limits m default_wire_limits"

definition pop_param_pod :: "nat \<Rightarrow> raw_pod parse" where
  "pop_param_pod max_bytes =
     pbind pop_raw_pod (\<lambda>pod.
     if rp_size pod > max_bytes then lift_result (Err (wire_invalid Parameter_POD_exceeds_limit))
     else lift_result (raw_pod_owned_wrap (rp_data pod)))"

definition pop_pods :: "nat \<Rightarrow> nat \<Rightarrow> raw_pod list parse" where
  "pop_pods n max_bytes = pop_n n (pop_param_pod max_bytes)"

definition pop_property_pair :: "(byte list \<times> byte list) parse" where
  "pop_property_pair = pbind pop_string (\<lambda>k. pbind pop_string (\<lambda>v. preturn (k, v)))"

definition pop_param_info :: "param_info parse" where
  "pop_param_info =
     pbind pop_id_u32 (\<lambda>i. pbind pop_int (\<lambda>f. preturn \<lparr>pi_id = i, pi_flags = f\<rparr>))"

definition pop_info_tail :: "wire_limits \<Rightarrow> (property_pairs \<times> param_info list) parse" where
  "pop_info_tail limits =
     pbind pop_int (\<lambda>n. pbind (lift_result (count n (max_properties limits))) (\<lambda>n_properties.
     pbind (pop_n n_properties pop_property_pair) (\<lambda>properties.
     pbind pop_int (\<lambda>n. pbind (lift_result (count n (max_param_info limits))) (\<lambda>n_params.
     pbind (pop_n n_params pop_param_info) (\<lambda>params. preturn (properties, params)))))))"

definition node_info_fields :: "wire_limits \<Rightarrow> node_info parse" where
  "node_info_fields limits =
     pbind pop_int (\<lambda>max_input_ports. pbind pop_int (\<lambda>max_output_ports.
     pbind pop_long (\<lambda>mask. pbind pop_long (\<lambda>fl.
     pbind (pop_info_tail limits) (\<lambda>(properties, params).
     preturn \<lparr>ni_max_input_ports = max_input_ports, ni_max_output_ports = max_output_ports,
       ni_change_mask = mask AND NODE_INFO_CHANGE_MASK, ni_flags = fl,
       ni_properties = properties, ni_params = params\<rparr>)))))"

definition port_info_fields :: "wire_limits \<Rightarrow> port_info parse" where
  "port_info_fields limits =
     pbind pop_long (\<lambda>mask. pbind pop_long (\<lambda>fl.
     pbind pop_int (\<lambda>rate_num. pbind pop_int (\<lambda>rate_denom.
     pbind (pop_info_tail limits) (\<lambda>(properties, params).
     preturn \<lparr>po_change_mask = mask AND PORT_INFO_CHANGE_MASK, po_flags = fl,
       po_rate_num = rate_num, po_rate_denom = rate_denom,
       po_properties = properties, po_params = params\<rparr>)))))"

definition optional_info ::
    "(pod_type \<Rightarrow> wire_msg) \<Rightarrow> wire_msg \<Rightarrow> 'a parse \<Rightarrow> raw_pod \<Rightarrow> 'a option pod_result" where
  "optional_info wrong trailing pop pod = (case rp_type pod of
       Type_None \<Rightarrow> Ok None
     | Type_Struct \<Rightarrow> rbind (fst (pop_struct (then_end (\<lambda>_. wire_invalid trailing) pop)
         (parser_new (rp_data pod)))) (\<lambda>v. Ok (Some (fst v)))
     | t \<Rightarrow> Err (wire_invalid (wrong t)))"

definition pop_optional_node_info :: "wire_limits \<Rightarrow> node_info option parse" where
  "pop_optional_node_info limits =
     pbind pop_raw_pod (\<lambda>pod. lift_result (optional_info Node_info_must_be_Struct_or_None
       Trailing_node_info_fields (node_info_fields limits) pod))"

definition pop_optional_port_info :: "wire_limits \<Rightarrow> port_info option parse" where
  "pop_optional_port_info limits =
     pbind pop_raw_pod (\<lambda>pod. lift_result (optional_info Port_info_must_be_Struct_or_None
       Trailing_port_info_fields (port_info_fields limits) pod))"

definition pop_update :: "wire_limits \<Rightarrow> method parse" where
  "pop_update limits =
     pbind pop_int (\<lambda>change_mask.
     pbind pop_int (\<lambda>n. pbind (lift_result (count n (max_params limits))) (\<lambda>n.
     pbind (pop_pods n (max_pod_bytes limits)) (\<lambda>params.
     pbind (pop_optional_node_info limits) (\<lambda>info.
     preturn (Update \<lparr>up_change_mask = change_mask, up_params = params, up_info = info\<rparr>))))))"

definition pop_port_update :: "wire_limits \<Rightarrow> method parse" where
  "pop_port_update limits =
     pbind pop_int (\<lambda>d. pbind (lift_result (direction_of d)) (\<lambda>dir.
     pbind pop_int (\<lambda>port_id. pbind pop_int (\<lambda>change_mask.
     pbind pop_int (\<lambda>n. pbind (lift_result (count n (max_params limits))) (\<lambda>n.
     pbind (pop_pods n (max_pod_bytes limits)) (\<lambda>params.
     pbind (pop_optional_port_info limits) (\<lambda>info.
     preturn (PortUpdate \<lparr>pu_direction = dir, pu_port_id = port_id, pu_change_mask = change_mask,
       pu_params = params, pu_info = info\<rparr>)))))))))"

definition decode_method :: "byte \<Rightarrow> byte list \<Rightarrow> wire_limits \<Rightarrow> method wire_result" where
  "decode_method op payload limits =
     (if op = method_UPDATE then parse_payload payload (pop_update limits)
      else if op = method_PORT_UPDATE then parse_payload payload (pop_port_update limits)
      else if op = method_SET_ACTIVE then
        parse_payload payload (pbind pop_bool (\<lambda>active. preturn (SetActive active)))
      else Err (Unsupported_opcode op))"

section \<open>Events\<close>

definition encode_transport :: "u32 \<Rightarrow> u32 \<Rightarrow> region_ref \<Rightarrow> byte list wire_result" where
  "encode_transport trigger_index completion_index activation =
     rbind (map_err Pod_codec (reject_partial_clear activation)) (\<lambda>_.
     rbind (ok_or (i32_try_from_u32 trigger_index) (Invalid_input Fd_index_exceeds_i32)) (\<lambda>trigger_index.
     rbind (ok_or (i32_try_from_u32 completion_index) (Invalid_input Fd_index_exceeds_i32)) (\<lambda>completion_index.
     encode_payload (push_chain [push_fd trigger_index, push_fd completion_index, push_region activation]))))"

definition encode_port_set_param :: "port_set_param \<Rightarrow> byte list wire_result" where
  "encode_port_set_param v =
     (if sp_param_id v \<noteq> SPA_PARAM_FORMAT then Err (Invalid_input Only_format_param)
      else rbind (case sp_param v of
          Some param \<Rightarrow> map_err Pod_codec (validate_format_object (rp_data param)) | None \<Rightarrow> Ok ()) (\<lambda>_.
        encode_payload (push_chain [push_int (direction_u32 (sp_direction v)), push_int (sp_port_id v),
          push_id_u32 (sp_param_id v), push_int (sp_flags v),
          (case sp_param v of Some param \<Rightarrow> push_pod pod_raw param | None \<Rightarrow> push_none)])))"

fun each :: "('a \<Rightarrow> ('b, 'e) result) \<Rightarrow> 'a list \<Rightarrow> (unit, 'e) result" where
  "each f [] = Ok ()"
| "each f (x # xs) = rbind (f x) (\<lambda>_. each f xs)"

definition validate_buffer :: "wire_limits \<Rightarrow> buffer_descriptor \<Rightarrow> unit wire_result" where
  "validate_buffer limits b =
     rbind (map_err Pod_codec (reject_partial_clear (bd_metadata b))) (\<lambda>_.
     rbind (ensure_count (length (bd_metas b)) (max_metas limits)) (\<lambda>_.
     rbind (ensure_count (length (bd_datas b)) (max_datas limits)) (\<lambda>_.
     each (\<lambda>d. map_err Pod_codec (validate_data d)) (bd_datas b))))"

definition validate_port_use_buffers :: "port_use_buffers \<Rightarrow> wire_limits \<Rightarrow> unit wire_result" where
  "validate_port_use_buffers v limits =
     (if ub_flags v AND SPA_NODE_BUFFERS_FLAG_ALLOC \<noteq> 0 then Err (Invalid_input Client_allocated)
      else rbind (ensure_count (length (ub_buffers v)) (max_buffers limits)) (\<lambda>_.
        each (validate_buffer limits) (ub_buffers v)))"

definition push_meta :: "meta_descriptor \<Rightarrow> push" where
  "push_meta m = push_chain [push_id_u32 (md_type_id m), push_int (md_size m)]"

definition push_data :: "data_descriptor \<Rightarrow> push" where
  "push_data d = push_chain [push_id_u32 (dd_type_id d), push_int (dd_data_id d), push_int (dd_flags d),
     push_int (dd_map_offset d), push_int (dd_max_size d)]"

definition push_buffer :: "buffer_descriptor \<Rightarrow> push" where
  "push_buffer b =
     push_chain [push_region (bd_metadata b), push_int (of_nat (length (bd_metas b))),
       push_all push_meta (bd_metas b), push_int (of_nat (length (bd_datas b))),
       push_all push_data (bd_datas b)]"

definition push_use_buffers :: "port_use_buffers \<Rightarrow> push" where
  "push_use_buffers v =
     push_chain [push_int (direction_u32 (ub_direction v)), push_int (ub_port_id v),
       push_int (wire_id (ub_mix_id v)), push_int (ub_flags v), push_int (of_nat (length (ub_buffers v))),
       push_all push_buffer (ub_buffers v)]"

definition encode_port_use_buffers :: "port_use_buffers \<Rightarrow> byte list wire_result" where
  "encode_port_use_buffers v =
     rbind (validate_port_use_buffers v default_wire_limits) (\<lambda>_. encode_payload (push_use_buffers v))"

definition encode_port_set_io :: "port_set_io \<Rightarrow> byte list wire_result" where
  "encode_port_set_io v =
     (case (case v of
          Io_Set dir port_id mix_id io_id region \<Rightarrow> (dir, port_id, mix_id, io_id, region)
        | Io_Clear dir port_id mix_id io_id \<Rightarrow> (dir, port_id, mix_id, io_id, clear_region)) of
      (dir, port_id, mix_id, io_id, region) \<Rightarrow>
        if io_id \<noteq> SPA_IO_BUFFERS then Err (Invalid_input Only_buffers_io)
        else rbind (if \<not> is_clear_region region then map_err Pod_codec (reject_partial_clear region) else Ok ())
          (\<lambda>_. encode_payload (push_chain [push_int (direction_u32 dir), push_int port_id,
             push_int (wire_id mix_id), push_id_u32 io_id, push_region region])))"

definition encode_set_activation :: "u32 \<Rightarrow> (u32 \<times> region_ref) option \<Rightarrow> byte list wire_result" where
  "encode_set_activation node_id v =
     rbind (case v of
         Some (fd, region) \<Rightarrow>
           rbind (map_err Pod_codec (reject_partial_clear region)) (\<lambda>_.
           rbind (ok_or (i32_try_from_u32 fd) (Invalid_input Fd_index_exceeds_i32)) (\<lambda>fd. Ok (fd, region)))
       | None \<Rightarrow> Ok (- 1, clear_region)) (\<lambda>(fd, region).
     encode_payload (push_chain [push_int node_id, push_fd fd, push_region region]))"

definition command_pod :: "command \<Rightarrow> raw_pod wire_result" where
  "command_pod c = map_err Pod_codec (raw_pod_owned_wrap
     (u32_bytes 8 @ u32_bytes (type_u32 Type_Object) @ u32_bytes 0x30002 @ u32_bytes (command_u32 c)))"

definition encode_command :: "command \<Rightarrow> byte list wire_result" where
  "encode_command c = rbind (command_pod c) (\<lambda>pod. encode_payload (push_pod pod_raw pod))"

definition decode_command :: "byte list \<Rightarrow> command pod_result" where
  "decode_command bytes =
     (let bad = Err (wire_invalid Not_a_node_command_object) in
      if length bytes \<noteq> 16 then bad
      else rbind (u32_at bytes 0) (\<lambda>size. if size \<noteq> 8 then bad
      else rbind (u32_at bytes 4) (\<lambda>t. if t \<noteq> type_u32 Type_Object then bad
      else rbind (u32_at bytes 8) (\<lambda>k. if k \<noteq> 0x30002 then bad
      else rbind (u32_at bytes 12) (\<lambda>i.
        if i = 0 then Ok Suspend else if i = 1 then Ok Pause else if i = 2 then Ok Start
        else Err (wire_invalid (Unsupported_node_command i)))))))"

definition pop_transport :: "(u32 \<times> u32 \<times> region_ref) parse" where
  "pop_transport =
     pbind pop_fd (\<lambda>f. case f of Fd f \<Rightarrow> pbind (lift_result (pod_fd_index f)) (\<lambda>trigger.
     pbind pop_fd (\<lambda>f. case f of Fd f \<Rightarrow> pbind (lift_result (pod_fd_index f)) (\<lambda>completion.
     pbind pop_region (\<lambda>activation.
     pbind (lift_result (reject_partial_clear activation)) (\<lambda>_.
     preturn (trigger, completion, activation)))))))"

definition port_param :: "wire_limits \<Rightarrow> raw_pod \<Rightarrow> raw_pod option pod_result" where
  "port_param limits pod =
     rbind (case rp_type pod of
         Type_None \<Rightarrow> Ok None
       | Type_Object \<Rightarrow> rbind (validate_format_object (rp_data pod)) (\<lambda>_.
           rbind (raw_pod_owned_wrap (rp_data pod)) (\<lambda>p. Ok (Some p)))
       | t \<Rightarrow> Err (wire_invalid (Port_parameter_must_be_Object_or_None t))) (\<lambda>param.
     case param of
       Some p \<Rightarrow> if rp_size p > max_pod_bytes limits
                 then Err (wire_invalid Port_parameter_exceeds_limit) else Ok (Some p)
     | None \<Rightarrow> Ok None)"

definition pop_port_set_param :: "wire_limits \<Rightarrow> event parse" where
  "pop_port_set_param limits =
     pbind pop_int (\<lambda>d. pbind (lift_result (direction_of d)) (\<lambda>dir.
     pbind pop_int (\<lambda>port_id.
     pbind pop_id_u32 (\<lambda>param_id.
     if param_id \<noteq> SPA_PARAM_FORMAT then lift_result (Err (wire_invalid (Unsupported_port_parameter param_id)))
     else pbind pop_int (\<lambda>fl.
     pbind pop_raw_pod (\<lambda>pod.
     pbind (lift_result (port_param limits pod)) (\<lambda>param.
     preturn (Ev_PortSetParam \<lparr>sp_direction = dir, sp_port_id = port_id, sp_param_id = param_id,
       sp_flags = fl, sp_param = param\<rparr>))))))))"

definition pop_meta :: "meta_descriptor parse" where
  "pop_meta = pbind pop_id_u32 (\<lambda>t. pbind pop_int (\<lambda>n. preturn \<lparr>md_type_id = t, md_size = n\<rparr>))"

definition pop_data :: "data_descriptor parse" where
  "pop_data =
     pbind pop_id_u32 (\<lambda>t. pbind pop_int (\<lambda>i. pbind pop_int (\<lambda>fl. pbind pop_int (\<lambda>off. pbind pop_int (\<lambda>n.
     let data = \<lparr>dd_type_id = t, dd_data_id = i, dd_flags = fl, dd_map_offset = off, dd_max_size = n\<rparr> in
     pbind (lift_result (validate_data data)) (\<lambda>_. preturn data))))))"

definition pop_buffer :: "wire_limits \<Rightarrow> buffer_descriptor parse" where
  "pop_buffer limits =
     pbind pop_region (\<lambda>metadata. pbind (lift_result (reject_partial_clear metadata)) (\<lambda>_.
     pbind pop_int (\<lambda>n. pbind (lift_result (count n (max_metas limits))) (\<lambda>n_metas.
     pbind (pop_n n_metas pop_meta) (\<lambda>metas.
     pbind pop_int (\<lambda>n. pbind (lift_result (count n (max_datas limits))) (\<lambda>n_datas.
     pbind (pop_n n_datas pop_data) (\<lambda>datas.
     preturn \<lparr>bd_metadata = metadata, bd_metas = metas, bd_datas = datas\<rparr>))))))))"

definition pop_port_use_buffers :: "wire_limits \<Rightarrow> event parse" where
  "pop_port_use_buffers limits =
     pbind pop_int (\<lambda>d. pbind (lift_result (direction_of d)) (\<lambda>dir.
     pbind pop_int (\<lambda>port_id. pbind pop_int (\<lambda>mix_id.
     pbind pop_int (\<lambda>fl.
     if fl AND SPA_NODE_BUFFERS_FLAG_ALLOC \<noteq> 0 then lift_result (Err (wire_invalid Client_allocated_buffers))
     else pbind pop_int (\<lambda>n. pbind (lift_result (count n (max_buffers limits))) (\<lambda>n_buffers.
     pbind (pop_n n_buffers (pop_buffer limits)) (\<lambda>buffers.
     preturn (Ev_PortUseBuffers \<lparr>ub_direction = dir, ub_port_id = port_id, ub_mix_id = optional_id mix_id,
       ub_flags = fl, ub_buffers = buffers\<rparr>)))))))))"

definition pop_port_set_io :: "event parse" where
  "pop_port_set_io =
     pbind pop_int (\<lambda>d. pbind (lift_result (direction_of d)) (\<lambda>dir.
     pbind pop_int (\<lambda>port_id. pbind pop_int (\<lambda>mix.
     pbind pop_id_u32 (\<lambda>io_id.
     if io_id \<noteq> SPA_IO_BUFFERS then lift_result (Err (wire_invalid (Unsupported_port_IO io_id)))
     else pbind pop_region (\<lambda>region.
     if is_clear_region region then preturn (Ev_PortSetIo (Io_Clear dir port_id (optional_id mix) io_id))
     else pbind (lift_result (reject_partial_clear region)) (\<lambda>_.
       preturn (Ev_PortSetIo (Io_Set dir port_id (optional_id mix) io_id region)))))))))"

definition pop_set_activation :: "(u32 \<times> i64 \<times> region_ref) parse" where
  "pop_set_activation =
     pbind pop_int (\<lambda>node_id. pbind pop_fd (\<lambda>f. case f of Fd fd \<Rightarrow>
     pbind pop_region (\<lambda>region. preturn (node_id, fd, region))))"

definition pop_command :: "event parse" where
  "pop_command = pbind pop_raw_pod (\<lambda>pod.
     pbind (lift_result (decode_command (rp_data pod))) (\<lambda>c. preturn (Ev_Command c)))"

text \<open>The two events that carry descriptors: every check comes before the first descriptor is taken.\<close>

definition decode_transport :: "byte list \<Rightarrow> frame_fds \<Rightarrow> event wire_result \<times> frame_fds" where
  "decode_transport payload fds =
     (case rbind (parse_payload payload pop_transport) (\<lambda>(trigger, completion, activation).
         rbind (require_fds fds [trigger, completion]) (\<lambda>_. Ok (trigger, completion, activation))) of
        Ok (trigger, completion, activation) \<Rightarrow>
          (case take_fd fds trigger of
             (Ok trigger_fd, fds1) \<Rightarrow>
               (case take_fd fds1 completion of
                  (r, fds2) \<Rightarrow> (rbind r (\<lambda>completion_fd. Ok (Ev_Transport \<lparr>tr_trigger_fd = trigger_fd,
                     tr_completion_fd = completion_fd, tr_activation = activation\<rparr>)), fds2))
           | (Err e, fds1) \<Rightarrow> (Err e, fds1)
           | (Panic, fds1) \<Rightarrow> (Panic, fds1))
      | Err e \<Rightarrow> (Err e, fds)
      | Panic \<Rightarrow> (Panic, fds))"

definition decode_set_activation :: "byte list \<Rightarrow> frame_fds \<Rightarrow> event wire_result \<times> frame_fds" where
  "decode_set_activation payload fds =
     (case parse_payload payload pop_set_activation of
        Ok (node_id, fd, activation) \<Rightarrow>
          if fd = - 1 \<and> is_clear_region activation
          then (rbind (require_fds fds []) (\<lambda>_. Ok (Ev_SetActivation (Activation_Remove node_id))), fds)
          else (case rbind (map_err Pod_codec (reject_partial_clear activation)) (\<lambda>_.
                  rbind (fd_index fd) (\<lambda>index. rbind (require_fds fds [index]) (\<lambda>_. Ok index))) of
               Ok index \<Rightarrow>
                 (case take_fd fds index of
                    (r, fds') \<Rightarrow> (rbind r (\<lambda>signal_fd.
                       Ok (Ev_SetActivation (Activation_Set node_id signal_fd activation))), fds'))
             | Err e \<Rightarrow> (Err e, fds)
             | Panic \<Rightarrow> (Panic, fds))
      | Err e \<Rightarrow> (Err e, fds)
      | Panic \<Rightarrow> (Panic, fds))"

definition decode_event :: "byte \<Rightarrow> byte list \<Rightarrow> frame_fds \<Rightarrow> wire_limits \<Rightarrow> event wire_result \<times> frame_fds" where
  "decode_event op payload fds limits =
     (let plain = (\<lambda>pop. (rbind (require_fds fds []) (\<lambda>_. parse_payload payload pop), fds)) in
      if op = event_TRANSPORT then decode_transport payload fds
      else if op = event_PORT_SET_PARAM then plain (pop_port_set_param limits)
      else if op = event_PORT_USE_BUFFERS then plain (pop_port_use_buffers limits)
      else if op = event_PORT_SET_IO then plain pop_port_set_io
      else if op = event_SET_ACTIVATION then decode_set_activation payload fds
      else if op = event_COMMAND then plain pop_command
      else (Err (Unsupported_opcode op), fds))"

end
