(* ===== verification/Client_Node_Codec.thy ===== *)
theory Client_Node_Codec
  imports Client_Node_Wire
begin

text \<open>
  What the ClientNode codec promises: a payload that was encoded is decoded to the message it came
  from, the encoder returns for every message without a nested info block, decoding arbitrary bytes
  neither panics nor exceeds the limits, and an event takes all descriptors of its frame or none.
\<close>

section \<open>Payloads\<close>

lemma encode_payload_from_Ok:
  assumes "encode_payload_from c f = Ok out" and "c \<le> MAX_ENCODE_CAPACITY"
  shows "\<exists>data. length data \<le> MAX_ENCODE_CAPACITY \<and>
    rbind (push_struct f (builder_new data)) build = Ok out"
  using assms
proof (induction c f rule: encode_payload_from.induct)
  case (1 c f)
  show ?case
  proof (cases "rbind (push_struct f (builder_new (replicate c 0))) build")
    case (Ok x)
    with "1.prems" show ?thesis
      by (intro exI [of _ "replicate c 0"]) (simp add: encode_payload_from.simps [of c f])
  next
    case (Err e)
    with "1.prems" "1.IH" [OF Err] show ?thesis
      by (auto simp: encode_payload_from.simps [of c f] split: pod_error.splits if_splits)
  qed (use "1.prems" in \<open>simp add: encode_payload_from.simps [of c f]\<close>)
qed

lemma build_writes:
  assumes "writes f I" and "rbind (f (builder_new data)) build = Ok out"
  shows "I out \<and> length out \<le> length data"
proof -
  obtain b where b: "f (builder_new data) = Ok b" "build b = Ok out"
    using assms(2) by auto
  then have "b_error b = None"
    by (simp add: build_def split: option.splits)
  moreover have "builder_wf (builder_new data)" "room (builder_new data) = length data"
    by (simp_all add: builder_wf_def builder_new_def room_def)
  ultimately obtain x where "I x" "length x \<le> length data" "b = put (builder_new data) x"
    using writesD [OF assms(1) _ b(1)] by auto
  then show ?thesis
    using b(2) by (auto simp: build_def put_def builder_new_def subslice_def)
qed

text \<open>What a message of \<open>s\<close> bytes looks like on the wire.\<close>

lemma encode_payload_image:
  assumes "codes t f g v s" and "encode_payload f = Ok out"
  shows "parse_payload out g = Ok v" and "length out = 8 + s"
proof -
  obtain I where I: "emits f I s s" "writes f I" "parses g I v"
    using assms(1) by (auto simp: codes_def)
  have len: "length x = s" if "I x" for x
    using I(1) that by (simp add: emits_def)
  have dvd: "8 dvd s" and "strict f"
    using assms(1) by (simp_all add: codes_def)
  obtain data where data: "length data \<le> MAX_ENCODE_CAPACITY"
      "rbind (push_struct f (builder_new data)) build = Ok out"
    using encode_payload_from_Ok assms(2)
    by (force simp: encode_payload_def INITIAL_ENCODE_CAPACITY_def MAX_ENCODE_CAPACITY_def)
  from build_writes [OF writes_struct [OF I(2) \<open>strict f\<close> len] data(2)]
  have out: "struct_img s I out" "length out \<le> length data"
    by auto
  then show l: "length out = 8 + s"
    using len by (auto simp: struct_img_def)
  have "s < 2 ^ 32"
    using data(1) out(2) l by (simp add: MAX_ENCODE_CAPACITY_def)
  from parses_start [OF pop_struct_reads_all [OF reads_all_then_end [OF I(3)] len this dvd] out(1)]
  show "parse_payload out g = Ok v"
    using data(1) out(2) l by (simp add: parse_payload_def MAX_ENCODE_CAPACITY_def usize_limit_eq)
qed

lemma attempt_fits:
  assumes "codes t f g v s" and "8 + s \<le> c"
  shows "\<exists>out. rbind (push_struct f (builder_new (replicate c 0))) build = Ok out"
proof -
  obtain I where "emits f I s s"
    using assms(1) by (auto simp: codes_def)
  then show ?thesis
    using build_start [OF emits_push_struct, of f I s s "replicate c 0"] assms(2) by auto
qed

lemma attempt_short:
  assumes "codes True f g v s" and "c < 8 + s"
  shows "rbind (push_struct f (builder_new (replicate c 0))) build = Err NoSpace"
proof -
  have "no_space_ok f s"
    using assms(1) by (simp add: codes_def)
  from start_no_space_struct [OF this] assms(2) obtain b
    where "push_struct f (builder_new (replicate c 0)) = Ok b" "b_error b = Some NoSpace"
    unfolding start_no_space_def by (metis length_replicate)
  then show ?thesis
    by (simp add: build_def)
qed

lemma encode_payload_from_total:
  assumes "codes True f g v s" and "0 < c" and "c \<le> MAX_ENCODE_CAPACITY"
  shows "if 8 + s \<le> MAX_ENCODE_CAPACITY then \<exists>out. encode_payload_from c f = Ok out
    else encode_payload_from c f = Err (Invalid_input (Payload_exceeds_limit MAX_ENCODE_CAPACITY))"
  using assms
proof (induction c f rule: encode_payload_from.induct)
  case (1 c f)
  show ?case
  proof (cases "8 + s \<le> c")
    case True
    then show ?thesis
      using attempt_fits [OF "1.prems"(1) True] "1.prems"(3)
      by (auto simp: encode_payload_from.simps [of c f])
  next
    case False
    then have short: "rbind (push_struct f (builder_new (replicate c 0))) build = Err NoSpace"
      using attempt_short [OF "1.prems"(1)] by simp
    show ?thesis
    proof (cases "c < MAX_ENCODE_CAPACITY")
      case True
      with "1.prems" have cond: "0 < c \<and> c < MAX_ENCODE_CAPACITY"
        by simp
      from "1.IH" [OF short refl cond "1.prems"(1)] cond short show ?thesis
        by (simp add: encode_payload_from.simps [of c f])
    next
      case False
      with "1.prems" have "c = MAX_ENCODE_CAPACITY"
        by simp
      with short \<open>\<not> 8 + s \<le> c\<close> show ?thesis
        by (simp add: encode_payload_from.simps [of MAX_ENCODE_CAPACITY f])
    qed
  qed
qed

lemma encode_payload_total:
  assumes "codes True f g v s"
  shows "if 8 + s \<le> MAX_ENCODE_CAPACITY
    then \<exists>out. encode_payload f = Ok out \<and> length out = 8 + s \<and> parse_payload out g = Ok v
    else encode_payload f = Err (Invalid_input (Payload_exceeds_limit MAX_ENCODE_CAPACITY))"
  using encode_payload_from_total [OF assms, of INITIAL_ENCODE_CAPACITY] encode_payload_image [OF assms]
  by (auto simp: encode_payload_def INITIAL_ENCODE_CAPACITY_def MAX_ENCODE_CAPACITY_def)

section \<open>Fields\<close>

lemma codes_check:
  "r = Ok x \<Longrightarrow> codes t f (g x) v s \<Longrightarrow> codes t f (pbind (lift_result r) g) v s"
  by (simp add: pbind_ok)

lemma codes_size: "codes t f g v s' \<Longrightarrow> s' = s \<Longrightarrow> codes t f g v s"
  by simp

lemma codes_else: "\<not> c \<Longrightarrow> codes t f g' v s \<Longrightarrow> codes t f (if c then g else g') v s"
  by simp

lemma codes_then: "c \<Longrightarrow> codes t f g v s \<Longrightarrow> codes t f (if c then g else g') v s"
  by simp

lemma codes_last: "v' = v \<Longrightarrow> codes t push_nothing (preturn v') v 0"
  by (simp add: codes_nothing)

lemma codes_id_u32: "codes t (push_id_u32 v) pop_id_u32 v 16"
  unfolding pop_id_u32_def by (rule codes_map [OF codes_id]) simp

text \<open>One step of a chain, by the kind of the field.\<close>

lemmas chain_simps = foldr.simps comp_apply id_apply fd.case
lemmas step_int = codes_seq [OF codes_int]
lemmas step_long = codes_seq [OF codes_long]
lemmas step_fd = codes_seq [OF codes_fd]
lemmas step_id = codes_seq [OF codes_id_u32]

lemma step_fd_case:
  assumes "codes t f (g (scast v)) w s"
  shows "codes t (push_seq (push_fd v) f) (pbind pop_fd (case_fd g)) w (16 + s)"
  using codes_seq [OF codes_fd, of t f "case_fd g" v w s] assms by simp

lemma codes_region: "codes t (push_region r) pop_region r 48"
  unfolding push_region_def pop_region_def chain_simps
  by (rule codes_size, rule step_int, rule step_int, rule step_int, rule codes_last) simp_all

lemmas step_region = codes_seq [OF codes_region]
lemmas steps = codes_check step_int step_long step_id step_fd_case step_region codes_last

section \<open>Checks\<close>

definition region_ok :: "region_ref \<Rightarrow> bool" where
  "region_ok r \<longleftrightarrow> rr_memory_id r \<noteq> INVALID_ID \<and> rr_size r \<noteq> 0 \<and>
     unat (rr_offset r) + unat (rr_size r) < 2 ^ 32"

definition data_ok :: "data_descriptor \<Rightarrow> bool" where
  "data_ok d \<longleftrightarrow> dd_max_size d \<noteq> 0 \<and> unat (dd_map_offset d) + unat (dd_max_size d) < 2 ^ 32"

lemma reject_partial_clear_iff: "reject_partial_clear r = Ok () \<longleftrightarrow> region_ok r"
  by (simp add: reject_partial_clear_def region_ok_def checked_add_u32_def)

lemma reject_partial_clear_ok [simp]: "region_ok r \<Longrightarrow> reject_partial_clear r = Ok ()"
  by (simp add: reject_partial_clear_iff)

lemma validate_data_iff: "validate_data d = Ok () \<longleftrightarrow> data_ok d"
  by (simp add: validate_data_def data_ok_def checked_add_u32_def)

lemma reject_partial_clear_total [simp]: "reject_partial_clear r \<noteq> Panic"
  by (simp add: reject_partial_clear_def panic_simps)

lemma validate_data_total [simp]: "validate_data d \<noteq> Panic"
  by (simp add: validate_data_def panic_simps)

lemma region_ok_not_clear: "region_ok r \<Longrightarrow> \<not> is_clear_region r"
  by (simp add: region_ok_def is_clear_region_def)

lemma count_total [simp]: "count v n \<noteq> Panic"
  by (simp add: count_def Let_def)

lemma count_Ok: "count v n = Ok k \<Longrightarrow> k \<le> n"
  by (simp add: count_def Let_def split: if_splits)

lemma sint_of_small: "n < 2 ^ 31 \<Longrightarrow> 0 \<le> sint (of_nat n :: i32)"
proof -
  assume "n < 2 ^ 31"
  then have "unat (of_nat n :: i32) = n"
    by (intro unat_of_nat_u32) simp
  with sint_small [of "of_nat n"] \<open>n < 2 ^ 31\<close> show ?thesis
    by (simp only:)
qed

definition count_ok :: "nat \<Rightarrow> nat \<Rightarrow> bool" where
  "count_ok n limit \<longleftrightarrow> n \<le> limit \<and> n \<le> 0x7FFFFFFF"

lemma count_of_nat: "count_ok n limit \<Longrightarrow> count (of_nat n) limit = Ok n"
  using sint_of_small [of n] by (simp add: count_ok_def count_def Let_def unat_of_nat_u32)

lemma ensure_count_iff: "ensure_count n limit = Ok () \<longleftrightarrow> count_ok n limit"
  by (auto simp: ensure_count_def count_ok_def)

lemma direction_of_u32 [simp]: "direction_of (direction_u32 d) = Ok d"
  by (cases d) (simp_all add: direction_of_def direction_u32_def)

lemma direction_of_total [simp]: "direction_of v \<noteq> Panic"
  by (simp add: direction_of_def)

lemma optional_wire_id: "m \<noteq> Some INVALID_ID \<Longrightarrow> optional_id (wire_id m) = m"
  by (cases m) (auto simp: optional_id_def wire_id_def)

lemma i32_try_from_Ok:
  "ok_or (i32_try_from_u32 v) e = Ok w \<longleftrightarrow> w = v \<and> unat v < 2 ^ 31"
  by (auto simp: i32_try_from_u32_def)

lemma scast_small:
  assumes "unat (v :: 32 word) < 2 ^ 31"
  shows "sint (scast v :: i64) = int (unat v)" and "ucast (scast v :: i64) = v"
proof -
  have "is_up (scast :: 32 word \<Rightarrow> 64 word)"
    by (simp add: is_up_def source_size_def target_size_def word_size)
  from sint_up_scast [OF this, of v] show "sint (scast v :: i64) = int (unat v)"
    using sint_small [OF assms] by simp
  show "ucast (scast v :: i64) = v"
    by (rule bit_word_eqI) (simp add: bit_simps)
qed

lemma fd_index_small:
  assumes "unat v < 2 ^ 31"
  shows "pod_fd_index (scast v) = Ok v" and "fd_index (scast v) = Ok v"
proof -
  have "int (unat v) < 2 ^ 32"
    using unsigned_less [of v, where 'a = int] by simp
  then show "pod_fd_index (scast v) = Ok v" "fd_index (scast v) = Ok v"
    unfolding pod_fd_index_def fd_index_def u32_try_from_i64_def scast_small [OF assms] by simp_all
qed

section \<open>Events are read back\<close>

lemma codes_transport:
  assumes "region_ok r" and "unat i < 2 ^ 31" and "unat j < 2 ^ 31"
  shows "codes t (push_chain [push_fd i, push_fd j, push_region r]) pop_transport (i, j, r) 80"
  unfolding pop_transport_def chain_simps
  by (rule codes_size, (rule steps fd_index_small assms(2,3) reject_partial_clear_iff [THEN iffD2, OF assms(1)])+)
    simp_all

lemma codes_meta: "codes t (push_meta m) pop_meta m 32"
  unfolding push_meta_def pop_meta_def chain_simps
  by (rule codes_size, (rule steps)+) simp_all

lemma codes_data:
  assumes "data_ok d"
  shows "codes t (push_data d) pop_data d 80"
proof -
  have "validate_data \<lparr>dd_type_id = dd_type_id d, dd_data_id = dd_data_id d, dd_flags = dd_flags d,
      dd_map_offset = dd_map_offset d, dd_max_size = dd_max_size d\<rparr> = Ok ()"
    using assms by (simp add: validate_data_iff data_ok_def)
  note valid = this
  show ?thesis
    unfolding push_data_def pop_data_def chain_simps Let_def
    by (rule codes_size, (rule steps valid)+) simp_all
qed

definition buffer_ok :: "wire_limits \<Rightarrow> buffer_descriptor \<Rightarrow> bool" where
  "buffer_ok limits b \<longleftrightarrow> region_ok (bd_metadata b) \<and> count_ok (length (bd_metas b)) (max_metas limits) \<and>
     count_ok (length (bd_datas b)) (max_datas limits) \<and> list_all data_ok (bd_datas b)"

definition buffer_size :: "buffer_descriptor \<Rightarrow> nat" where
  "buffer_size b = 80 + 32 * length (bd_metas b) + 80 * length (bd_datas b)"

lemma codes_metas: "codes t (push_all push_meta ms) (pop_n (length ms) pop_meta) ms (32 * length ms)"
  using codes_all [of ms t push_meta pop_meta "\<lambda>m. m" "\<lambda>_. 32"]
  by (simp add: codes_meta sum_list_triv mult.commute)

lemma codes_datas:
  "list_all data_ok ds \<Longrightarrow>
    codes t (push_all push_data ds) (pop_n (length ds) pop_data) ds (80 * length ds)"
  using codes_all [of ds t push_data pop_data "\<lambda>d. d" "\<lambda>_. 80"]
  by (simp add: codes_data sum_list_triv mult.commute list_all_iff)

lemma codes_buffer:
  assumes "buffer_ok limits b"
  shows "codes t (push_buffer b) (pop_buffer limits) b (buffer_size b)"
proof -
  have c: "count (of_nat (length (bd_metas b))) (max_metas limits) = Ok (length (bd_metas b))"
    "count (of_nat (length (bd_datas b))) (max_datas limits) = Ok (length (bd_datas b))"
    "reject_partial_clear (bd_metadata b) = Ok ()"
    using assms by (auto simp: buffer_ok_def reject_partial_clear_iff intro!: count_of_nat)
  have d: "codes t (push_all push_data (bd_datas b)) (pop_n (length (bd_datas b)) pop_data)
      (bd_datas b) (80 * length (bd_datas b))"
    using assms(1) by (intro codes_datas) (simp add: buffer_ok_def)
  show ?thesis
    unfolding push_buffer_def pop_buffer_def chain_simps
    by (rule codes_size, (rule steps c codes_seq [OF codes_metas] codes_seq [OF d])+)
      (simp_all add: buffer_size_def)
qed

definition use_buffers_ok :: "wire_limits \<Rightarrow> port_use_buffers \<Rightarrow> bool" where
  "use_buffers_ok limits v \<longleftrightarrow> ub_mix_id v \<noteq> Some INVALID_ID \<and>
     ub_flags v AND SPA_NODE_BUFFERS_FLAG_ALLOC = 0 \<and>
     count_ok (length (ub_buffers v)) (max_buffers limits) \<and> list_all (buffer_ok limits) (ub_buffers v)"

definition use_buffers_size :: "port_use_buffers \<Rightarrow> nat" where
  "use_buffers_size v = 80 + sum_list (map buffer_size (ub_buffers v))"

lemma codes_use_buffers:
  assumes "use_buffers_ok limits v"
  shows "codes t (push_use_buffers v) (pop_port_use_buffers limits) (Ev_PortUseBuffers v) (use_buffers_size v)"
proof -
  have c: "count (of_nat (length (ub_buffers v))) (max_buffers limits) = Ok (length (ub_buffers v))"
    using assms by (intro count_of_nat) (auto simp: use_buffers_ok_def)
  have f: "\<not> ub_flags v AND SPA_NODE_BUFFERS_FLAG_ALLOC \<noteq> 0"
    using assms(1) by (simp add: use_buffers_ok_def)
  have "codes t (push_all push_buffer (ub_buffers v)) (pop_n (length (ub_buffers v)) (pop_buffer limits))
      (ub_buffers v) (sum_list (map buffer_size (ub_buffers v)))"
    using codes_all [of "ub_buffers v" t push_buffer "pop_buffer limits" "\<lambda>b. b" buffer_size] assms
    by (simp add: codes_buffer use_buffers_ok_def list_all_iff)
  note bs = this
  show ?thesis
    unfolding push_use_buffers_def pop_port_use_buffers_def chain_simps
    by (rule codes_size, (rule steps c direction_of_u32 codes_else [OF f] codes_seq [OF bs])+)
      (use assms(1) in \<open>simp_all add: use_buffers_size_def use_buffers_ok_def optional_wire_id\<close>)
qed

lemma io_ok: "\<not> SPA_IO_BUFFERS \<noteq> SPA_IO_BUFFERS"
  by simp

lemma codes_set_io:
  assumes "m \<noteq> Some INVALID_ID" and "region_ok r"
  shows "codes t (push_chain [push_int (direction_u32 d), push_int p, push_int (wire_id m),
      push_id_u32 SPA_IO_BUFFERS, push_region r]) pop_port_set_io (Ev_PortSetIo (Io_Set d p m SPA_IO_BUFFERS r)) 112"
  unfolding pop_port_set_io_def chain_simps
  by (rule codes_size, (rule steps direction_of_u32 codes_else io_ok region_ok_not_clear
        reject_partial_clear_iff [THEN iffD2] assms(2))+)
    (simp_all add: assms optional_wire_id)

lemma codes_clear_io:
  assumes "m \<noteq> Some INVALID_ID"
  shows "codes t (push_chain [push_int (direction_u32 d), push_int p, push_int (wire_id m),
      push_id_u32 SPA_IO_BUFFERS, push_region clear_region]) pop_port_set_io
      (Ev_PortSetIo (Io_Clear d p m SPA_IO_BUFFERS)) 112"
proof -
  have "is_clear_region clear_region"
    by (simp add: is_clear_region_def clear_region_def)
  note clear = this
  show ?thesis
    unfolding pop_port_set_io_def chain_simps
    by (rule codes_size, (rule steps direction_of_u32 codes_else [OF io_ok] codes_then [OF clear])+)
      (simp_all add: assms optional_wire_id)
qed

lemma codes_set_activation:
  "codes t (push_chain [push_int n, push_fd f, push_region r]) pop_set_activation (n, scast f, r) 80"
  unfolding pop_set_activation_def chain_simps
  by (rule codes_size, (rule steps)+) simp_all

definition format_pod :: "raw_pod \<Rightarrow> bool" where
  "format_pod pod \<longleftrightarrow> raw_pod_wf pod \<and> rp_type pod = Type_Object \<and> validate_format_object (rp_data pod) = Ok ()"

definition set_param_ok :: "wire_limits \<Rightarrow> port_set_param \<Rightarrow> bool" where
  "set_param_ok limits v \<longleftrightarrow> sp_param_id v = SPA_PARAM_FORMAT \<and>
     (case sp_param v of None \<Rightarrow> True | Some pod \<Rightarrow> format_pod pod \<and> rp_size pod \<le> max_pod_bytes limits)"

definition param_size :: "raw_pod option \<Rightarrow> nat" where
  "param_size param = (case param of None \<Rightarrow> 8 | Some pod \<Rightarrow> rp_size pod)"

lemma port_param_none: "port_param limits none_pod = Ok None"
  by (simp add: port_param_def none_pod_def)

lemma port_param_format:
  "format_pod pod \<Longrightarrow> rp_size pod \<le> max_pod_bytes limits \<Longrightarrow> port_param limits pod = Ok (Some pod)"
  by (simp add: port_param_def format_pod_def raw_pod_wf_def)

definition push_set_param :: "port_set_param \<Rightarrow> push" where
  "push_set_param v = push_chain [push_int (direction_u32 (sp_direction v)), push_int (sp_port_id v),
     push_id_u32 (sp_param_id v), push_int (sp_flags v),
     (case sp_param v of Some param \<Rightarrow> push_pod pod_raw param | None \<Rightarrow> push_none)]"

lemma codes_set_param:
  assumes "set_param_ok limits v"
  shows "codes t (push_set_param v) (pop_port_set_param limits) (Ev_PortSetParam v)
    (64 + param_size (sp_param v))"
proof -
  have f: "\<not> sp_param_id v \<noteq> SPA_PARAM_FORMAT"
    using assms by (simp add: set_param_ok_def)
  obtain pod where pod: "codes t (case sp_param v of Some param \<Rightarrow> push_pod pod_raw param | None \<Rightarrow> push_none)
      pop_raw_pod pod (param_size (sp_param v))" "port_param limits pod = Ok (sp_param v)"
  proof (cases "sp_param v")
    case None
    with codes_none [of t] that [of none_pod] show ?thesis
      by (simp add: param_size_def port_param_none)
  next
    case (Some pod)
    with assms codes_raw [of pod t] that [of pod] show ?thesis
      by (simp add: param_size_def port_param_format set_param_ok_def format_pod_def)
  qed
  show ?thesis
    unfolding push_set_param_def pop_port_set_param_def chain_simps
    by (rule codes_size, (rule steps direction_of_u32 codes_else [OF f] codes_seq [OF pod(1)] pod(2))+)
      simp_all
qed

definition command_bytes :: "command \<Rightarrow> byte list" where
  "command_bytes c = u32_bytes 8 @ u32_bytes (type_u32 Type_Object) @ u32_bytes 0x30002 @ u32_bytes (command_u32 c)"

lemma command_pod_eq:
  "command_pod c = Ok \<lparr>rp_size = 16, rp_type = Type_Object, rp_data = command_bytes c\<rparr>"
  by (simp add: command_pod_def command_bytes_def raw_pod_owned_wrap_def codec_simps
      pod_total_size_u32 [of 8, simplified])

lemma decode_command_bytes: "decode_command (command_bytes c) = Ok c"
  by (cases c) (simp_all add: decode_command_def command_bytes_def codec_simps command_u32_def)

lemma codes_command:
  assumes "command_pod c = Ok pod"
  shows "codes t (push_pod pod_raw pod) pop_command (Ev_Command c) 16"
proof -
  have "raw_pod_wf pod" "rp_size pod = 16" "rp_data pod = command_bytes c"
    using assms raw_owned_wrap_wf command_pod_eq [of c] by (auto simp: command_pod_def ok_simps)
  with codes_raw [of pod t] show ?thesis
    unfolding pop_command_def by (intro codes_map [of t _ _ pod])
      (simp_all add: decode_command_bytes pbind_ok)
qed

section \<open>Methods are read back\<close>

definition pair_ok :: "byte list \<times> byte list \<Rightarrow> bool" where
  "pair_ok kv \<longleftrightarrow> valid_utf8 (fst kv) \<and> valid_utf8 (snd kv) \<and>
     length (fst kv) + 1 < 2 ^ 32 \<and> length (snd kv) + 1 < 2 ^ 32"

definition pair_size :: "byte list \<times> byte list \<Rightarrow> nat" where
  "pair_size kv = string_need (fst kv) + string_need (snd kv)"

definition tail_size :: "property_pairs \<Rightarrow> param_info list \<Rightarrow> nat" where
  "tail_size properties params = 32 + sum_list (map pair_size properties) + 32 * length params"

lemma codes_pair:
  assumes "pair_ok kv"
  shows "codes t (push_property_pair kv) pop_property_pair kv (pair_size kv)"
proof -
  have s: "codes t (push_string (fst kv)) pop_string (fst kv) (string_need (fst kv))"
    "codes t (push_string (snd kv)) pop_string (snd kv) (string_need (snd kv))"
    using assms by (auto simp: pair_ok_def intro: codes_string)
  show ?thesis
    unfolding push_property_pair_def pop_property_pair_def chain_simps
    by (rule codes_size, rule codes_seq [OF s(1)], rule codes_seq [OF s(2)], rule codes_last)
      (simp_all add: pair_size_def)
qed

lemma codes_param_info: "codes t (push_param_info p) pop_param_info p 32"
  unfolding push_param_info_def pop_param_info_def chain_simps
  by (rule codes_size, (rule steps)+) simp_all

lemma codes_info_tail:
  assumes "list_all pair_ok properties" and "count_ok (length properties) (max_properties limits)"
    and "count_ok (length params) (max_param_info limits)"
  shows "codes t (push_info_tail properties params) (pop_info_tail limits) (properties, params)
    (tail_size properties params)"
proof -
  have c: "count (of_nat (length properties)) (max_properties limits) = Ok (length properties)"
    "count (of_nat (length params)) (max_param_info limits) = Ok (length params)"
    using assms by (auto simp: intro!: count_of_nat)
  have l: "codes t (push_all push_property_pair properties) (pop_n (length properties) pop_property_pair)
      properties (sum_list (map pair_size properties))"
    "codes t (push_all push_param_info params) (pop_n (length params) pop_param_info) params (32 * length params)"
    using codes_all [of properties t push_property_pair pop_property_pair "\<lambda>x. x" pair_size]
      codes_all [of params t push_param_info pop_param_info "\<lambda>x. x" "\<lambda>_. 32"] assms(1)
    by (simp_all add: codes_pair codes_param_info list_all_iff sum_list_triv mult.commute)
  show ?thesis
    unfolding push_info_tail_def pop_info_tail_def chain_simps
    by (rule codes_size, (rule steps c codes_seq [OF l(1)] codes_seq [OF l(2)])+)
      (simp_all add: tail_size_def)
qed

text \<open>
  An info block goes over the wire with its change mask cut to the known bits; node properties and
  parameters are left out unless the mask announces them.
\<close>

definition sent_node_info :: "node_info \<Rightarrow> node_info" where
  "sent_node_info info = info\<lparr>
     ni_change_mask := ni_change_mask info AND NODE_INFO_CHANGE_MASK,
     ni_properties := (if ni_change_mask info AND NODE_INFO_CHANGE_PROPS \<noteq> 0 then ni_properties info else []),
     ni_params := (if ni_change_mask info AND NODE_INFO_CHANGE_PARAMS \<noteq> 0 then ni_params info else [])\<rparr>"

definition sent_port_info :: "port_info \<Rightarrow> port_info" where
  "sent_port_info info = info\<lparr>po_change_mask := po_change_mask info AND PORT_INFO_CHANGE_MASK\<rparr>"

definition node_info_size :: "node_info \<Rightarrow> nat" where
  "node_info_size info = 64 + tail_size (ni_properties (sent_node_info info)) (ni_params (sent_node_info info))"

definition port_info_size :: "port_info \<Rightarrow> nat" where
  "port_info_size info = 64 + tail_size (po_properties info) (po_params info)"

lemma mask_absorb:
  "(m AND NODE_INFO_CHANGE_MASK) AND NODE_INFO_CHANGE_PROPS = m AND NODE_INFO_CHANGE_PROPS"
  "(m AND NODE_INFO_CHANGE_MASK) AND NODE_INFO_CHANGE_PARAMS = m AND NODE_INFO_CHANGE_PARAMS"
  "(m AND NODE_INFO_CHANGE_MASK) AND NODE_INFO_CHANGE_MASK = m AND NODE_INFO_CHANGE_MASK"
  by (simp_all add: and.assoc NODE_INFO_CHANGE_MASK_def NODE_INFO_CHANGE_PROPS_def NODE_INFO_CHANGE_PARAMS_def)

definition node_info_ok :: "wire_limits \<Rightarrow> node_info \<Rightarrow> bool" where
  "node_info_ok limits info \<longleftrightarrow> list_all pair_ok (ni_properties info) \<and>
     count_ok (length (ni_properties (sent_node_info info))) (max_properties limits) \<and>
     count_ok (length (ni_params (sent_node_info info))) (max_param_info limits)"

definition port_info_ok :: "wire_limits \<Rightarrow> port_info \<Rightarrow> bool" where
  "port_info_ok limits info \<longleftrightarrow> list_all pair_ok (po_properties info) \<and>
     count_ok (length (po_properties info)) (max_properties limits) \<and> count_ok (length (po_params info)) (max_param_info limits)"

lemma codes_node_info:
  assumes "node_info_ok limits info"
  shows "codes t (push_node_info info) (node_info_fields limits) (sent_node_info info) (node_info_size info)"
proof -
  let ?sent = "sent_node_info info"
  have tail: "codes t (push_info_tail (ni_properties ?sent) (ni_params ?sent)) (pop_info_tail limits)
      (ni_properties ?sent, ni_params ?sent) (tail_size (ni_properties ?sent) (ni_params ?sent))"
    using assms by (intro codes_info_tail) (auto simp: node_info_ok_def sent_node_info_def)
  have push: "push_node_info info = push_chain [push_int (ni_max_input_ports info),
      push_int (ni_max_output_ports info), push_long (ni_change_mask info AND NODE_INFO_CHANGE_MASK),
      push_long (ni_flags info), push_info_tail (ni_properties ?sent) (ni_params ?sent)]"
    by (simp add: push_node_info_def Let_def mask_absorb sent_node_info_def)
  show ?thesis
    unfolding push node_info_fields_def chain_simps
    by (rule codes_size, rule step_int, rule step_int, rule step_long, rule step_long, rule codes_seq [OF tail])
      (simp_all only: prod.case, rule codes_last, simp_all add: sent_node_info_def mask_absorb node_info_size_def)
qed

lemma codes_port_info:
  assumes "port_info_ok limits info"
  shows "codes t (push_port_info info) (port_info_fields limits) (sent_port_info info) (port_info_size info)"
proof -
  have tail: "codes t (push_info_tail (po_properties info) (po_params info)) (pop_info_tail limits)
      (po_properties info, po_params info) (tail_size (po_properties info) (po_params info))"
    using assms by (intro codes_info_tail) (auto simp: port_info_ok_def)
  show ?thesis
    unfolding push_port_info_def port_info_fields_def chain_simps
    by (rule codes_size, rule step_long, rule step_long, rule step_int, rule step_int, rule codes_seq [OF tail])
      (simp_all only: prod.case, rule codes_last, simp_all add: sent_port_info_def and.assoc port_info_size_def)
qed

definition pods_ok :: "wire_limits \<Rightarrow> raw_pod list \<Rightarrow> bool" where
  "pods_ok limits pods \<longleftrightarrow> list_all raw_pod_wf pods \<and> count_ok (length pods) (max_params limits) \<and>
     list_all (\<lambda>pod. rp_size pod \<le> max_pod_bytes limits) pods"

definition pods_size :: "raw_pod list \<Rightarrow> nat" where
  "pods_size pods = sum_list (map rp_size pods)"

lemma codes_pods:
  assumes "pods_ok limits pods"
  shows "codes t (push_all (push_pod pod_raw) pods) (pop_pods (length pods) (max_pod_bytes limits)) pods
    (pods_size pods)"
proof -
  have "codes t (push_pod pod_raw pod) (pop_param_pod (max_pod_bytes limits)) pod (rp_size pod)"
    if "pod \<in> set pods" for pod
  proof -
    have "raw_pod_wf pod" "\<not> rp_size pod > max_pod_bytes limits"
      using assms that by (auto simp: pods_ok_def list_all_iff)
    then show ?thesis
      unfolding pop_param_pod_def
      by (intro codes_map [OF codes_raw]) (simp_all add: raw_pod_wf_def)
  qed
  then show ?thesis
    using codes_all [of pods t "push_pod pod_raw" "pop_param_pod (max_pod_bytes limits)" "\<lambda>p. p" rp_size]
    by (simp add: pop_pods_def pods_size_def)
qed

definition opt_size :: "('a \<Rightarrow> nat) \<Rightarrow> 'a option \<Rightarrow> nat" where
  "opt_size f x = (case x of None \<Rightarrow> 8 | Some v \<Rightarrow> 8 + f v)"

lemma codes_optional_info:
  assumes "\<And>v. x = Some v \<Longrightarrow> codes False (f v) g (h v) (s v) \<and> s v < 2 ^ 32" and "t \<longrightarrow> x = None"
  shows "codes t (case x of Some v \<Rightarrow> push_struct (f v) | None \<Rightarrow> push_none)
    (pbind pop_raw_pod (\<lambda>pod. lift_result (optional_info wrong trailing g pod))) (map_option h x) (opt_size s x)"
proof (cases x)
  case None
  then show ?thesis
    by (auto simp: opt_size_def optional_info_def none_pod_def intro!: codes_map [OF codes_none])
next
  case (Some v)
  then have "codes False (push_struct (f v))
      (pbind pop_raw_pod (\<lambda>pod. lift_result (optional_info wrong trailing g pod))) (Some (h v)) (8 + s v)"
    using assms(1) [OF Some]
    by (intro codes_struct_raw [where e = "\<lambda>_. wire_invalid trailing" and g = g and v = "h v"])
      (auto simp: optional_info_def)
  with Some assms(2) show ?thesis
    by (simp add: opt_size_def)
qed

definition update_ok :: "wire_limits \<Rightarrow> update \<Rightarrow> bool" where
  "update_ok limits u \<longleftrightarrow> pods_ok limits (up_params u) \<and>
     (case up_info u of None \<Rightarrow> True | Some info \<Rightarrow> node_info_ok limits info \<and> node_info_size info < 2 ^ 32)"

definition port_update_ok :: "wire_limits \<Rightarrow> port_update \<Rightarrow> bool" where
  "port_update_ok limits u \<longleftrightarrow> pods_ok limits (pu_params u) \<and>
     (case pu_info u of None \<Rightarrow> True | Some info \<Rightarrow> port_info_ok limits info \<and> port_info_size info < 2 ^ 32)"

definition update_size :: "update \<Rightarrow> nat" where
  "update_size u = 32 + pods_size (up_params u) + opt_size node_info_size (up_info u)"

definition port_update_size :: "port_update \<Rightarrow> nat" where
  "port_update_size u = 64 + pods_size (pu_params u) + opt_size port_info_size (pu_info u)"

definition sent_method :: "method \<Rightarrow> method" where
  "sent_method m = (case m of
       Update u \<Rightarrow> Update (u\<lparr>up_info := map_option sent_node_info (up_info u)\<rparr>)
     | PortUpdate u \<Rightarrow> PortUpdate (u\<lparr>pu_info := map_option sent_port_info (pu_info u)\<rparr>)
     | SetActive a \<Rightarrow> SetActive a)"

lemma codes_update:
  assumes "update_ok limits u" and "t \<longrightarrow> up_info u = None"
  shows "codes t (push_update u) (pop_update limits) (sent_method (Update u)) (update_size u)"
proof -
  have c: "count (of_nat (length (up_params u))) (max_params limits) = Ok (length (up_params u))"
    and pods: "codes t (push_all (push_pod pod_raw) (up_params u))
      (pop_pods (length (up_params u)) (max_pod_bytes limits)) (up_params u) (pods_size (up_params u))"
    using assms(1) by (auto simp: update_ok_def pods_ok_def intro: count_of_nat codes_pods)
  have info: "codes t (case up_info u of Some v \<Rightarrow> push_struct (push_node_info v) | None \<Rightarrow> push_none)
      (pop_optional_node_info limits) (map_option sent_node_info (up_info u)) (opt_size node_info_size (up_info u))"
    unfolding pop_optional_node_info_def
    using assms by (intro codes_optional_info) (auto simp: update_ok_def intro: codes_node_info)
  show ?thesis
    unfolding push_update_def pop_update_def chain_simps
    by (rule codes_size, (rule steps c codes_seq [OF pods] codes_seq [OF info])+)
      (simp_all add: sent_method_def update_size_def)
qed

lemma codes_port_update:
  assumes "port_update_ok limits u" and "t \<longrightarrow> pu_info u = None"
  shows "codes t (push_port_update u) (pop_port_update limits) (sent_method (PortUpdate u)) (port_update_size u)"
proof -
  have c: "count (of_nat (length (pu_params u))) (max_params limits) = Ok (length (pu_params u))"
    and pods: "codes t (push_all (push_pod pod_raw) (pu_params u))
      (pop_pods (length (pu_params u)) (max_pod_bytes limits)) (pu_params u) (pods_size (pu_params u))"
    using assms(1) by (auto simp: port_update_ok_def pods_ok_def intro: count_of_nat codes_pods)
  have info: "codes t (case pu_info u of Some v \<Rightarrow> push_struct (push_port_info v) | None \<Rightarrow> push_none)
      (pop_optional_port_info limits) (map_option sent_port_info (pu_info u)) (opt_size port_info_size (pu_info u))"
    unfolding pop_optional_port_info_def
    using assms by (intro codes_optional_info) (auto simp: port_update_ok_def intro: codes_port_info)
  show ?thesis
    unfolding push_port_update_def pop_port_update_def chain_simps
    by (rule codes_size, (rule steps c direction_of_u32 codes_seq [OF pods] codes_seq [OF info])+)
      (simp_all add: sent_method_def port_update_size_def)
qed

lemma codes_set_active: "codes t (push_bool a) (pbind pop_bool (\<lambda>a. preturn (SetActive a))) (SetActive a) 16"
  by (rule codes_map [OF codes_bool]) simp

text \<open>What the types of the source guarantee of a method before it is validated.\<close>

definition method_wf :: "method \<Rightarrow> bool" where
  "method_wf m = (case m of
       Update u \<Rightarrow> list_all raw_pod_wf (up_params u) \<and> (case up_info u of None \<Rightarrow> True
         | Some info \<Rightarrow> list_all pair_ok (ni_properties info) \<and> node_info_size info < 2 ^ 32)
     | PortUpdate u \<Rightarrow> list_all raw_pod_wf (pu_params u) \<and> (case pu_info u of None \<Rightarrow> True
         | Some info \<Rightarrow> list_all pair_ok (po_properties info) \<and> port_info_size info < 2 ^ 32)
     | SetActive _ \<Rightarrow> True)"

definition method_ok :: "wire_limits \<Rightarrow> method \<Rightarrow> bool" where
  "method_ok limits m = (case m of Update u \<Rightarrow> update_ok limits u | PortUpdate u \<Rightarrow> port_update_ok limits u
     | SetActive _ \<Rightarrow> True)"

lemma validate_counts_iff:
  "validate_counts pods n k limits = Ok () \<longleftrightarrow> count_ok (length pods) (max_params limits) \<and>
     count_ok n (max_properties limits) \<and> count_ok k (max_param_info limits) \<and>
     list_all (\<lambda>pod. rp_size pod \<le> max_pod_bytes limits) pods"
proof -
  have "list_ex (\<lambda>pod. rp_size pod > max_pod_bytes limits) pods \<longleftrightarrow>
      \<not> list_all (\<lambda>pod. rp_size pod \<le> max_pod_bytes limits) pods"
    by (auto simp: list_ex_iff list_all_iff not_le)
  then show ?thesis
    by (auto simp: validate_counts_def ok_simps ensure_count_iff)
qed

lemma bool_usize_length: "bool_usize b * length xs = length (if b then xs else [])"
  by (simp add: bool_usize_def)

lemma validate_method_iff:
  assumes "method_wf m"
  shows "validate_method m limits = Ok () \<longleftrightarrow> method_ok limits m"
proof (cases m)
  case (Update u)
  with assms show ?thesis
    by (cases "up_info u") (auto simp: method_wf_def method_ok_def validate_method_def validate_counts_iff
        update_ok_def pods_ok_def node_info_ok_def bool_usize_length sent_node_info_def count_ok_def)
next
  case (PortUpdate u)
  with assms show ?thesis
    by (cases "pu_info u") (auto simp: method_wf_def method_ok_def validate_method_def validate_counts_iff
        port_update_ok_def pods_ok_def port_info_ok_def count_ok_def)
qed (simp add: method_ok_def validate_method_def)

lemma encode_method_decode:
  assumes "method_wf m" and "encode_method_with_limits m limits = Ok out"
  shows "decode_method (method_opcode m) out limits = Ok (sent_method m)"
proof -
  have ok: "method_ok limits m"
    using assms by (auto simp: encode_method_with_limits_def validate_method_iff)
  have enc: "(case m of Update u \<Rightarrow> encode_payload (push_update u)
      | PortUpdate u \<Rightarrow> encode_payload (push_port_update u) | SetActive a \<Rightarrow> encode_payload (push_bool a)) = Ok out"
    using assms(2) by (auto simp: encode_method_with_limits_def)
  show ?thesis
  proof (cases m)
    case (Update u)
    with ok enc encode_payload_image(1) [OF codes_update [of limits u False]] show ?thesis
      by (simp add: method_ok_def decode_method_def method_opcode_def)
  next
    case (PortUpdate u)
    with ok enc encode_payload_image(1) [OF codes_port_update [of limits u False]] show ?thesis
      by (simp add: method_ok_def decode_method_def method_opcode_def opcode_defs)
  next
    case (SetActive a)
    with enc encode_payload_image(1) [OF codes_set_active] show ?thesis
      by (simp add: decode_method_def method_opcode_def opcode_defs sent_method_def)
  qed
qed

section \<open>When the encoder panics\<close>

text \<open>
  With an info block the nested struct meets a full buffer exactly when everything before it ends at
  the end of one of the fifteen capacities.
\<close>

lemma push_struct_short:
  assumes "no_space_ok f s" and "builder_wf b" and "8 \<le> room b" and "room b < 8 + s"
  shows "\<exists>b'. push_struct f b = Ok b' \<and> b_error b' = Some NoSpace"
proof -
  let ?b = "b\<lparr>b_pos := b_pos b + 8\<rparr>"
  have "builder_wf ?b" "room ?b < s"
    using assms(2-4) by (auto simp: builder_wf_def room_def)
  then obtain b' where "f ?b = Ok b'" "b_error b' = Some NoSpace"
    using assms(1) by (auto simp: no_space_ok_def)
  moreover have "b_error b = None" "8 \<le> length (b_data b)"
    using assms(2,3) by (auto simp: builder_wf_def room_def)
  ultimately show ?thesis
    by (auto simp: push_struct_def)
qed

lemma nested_struct_full:
  assumes "codes True f g v s" and "builder_wf b" and "room b = s" and "8 \<le> length (b_data b)"
  shows "push_seq f (push_struct (push_seq (push_pod C w) h)) b = Panic"
proof -
  obtain I where I: "emits f I s s"
    using assms(1) by (auto simp: codes_def)
  then obtain out where out: "I out" "f b = Ok (put b out)" "length out = s"
    using assms(2,3) by (auto simp: emits_def)
  have "builder_wf (put b out)" "room (put b out) = 0"
    using assms(2,3) out(3) by (simp_all add: put_wf put_room)
  moreover have "length (b_data (put b out)) = length (b_data b)"
    using assms(2,3) out(3) by (auto simp: put_def builder_wf_def room_def)
  ultimately have "push_struct (push_seq (push_pod C w) h) (put b out) = Panic"
    using assms(4) by (intro push_struct_full) (auto simp: builder_wf_def)
  with out show ?thesis
    by (simp add: push_seq_def)
qed

definition capacity_at :: "nat \<Rightarrow> nat" where
  "capacity_at k = INITIAL_ENCODE_CAPACITY * 2 ^ k"

lemma capacity_at_0: "capacity_at 0 = INITIAL_ENCODE_CAPACITY"
  by (simp add: capacity_at_def)

lemma capacity_at_14: "capacity_at 14 = MAX_ENCODE_CAPACITY"
  by (simp add: capacity_at_def INITIAL_ENCODE_CAPACITY_def MAX_ENCODE_CAPACITY_def)

lemma capacity_at_mono: "j \<le> k \<Longrightarrow> capacity_at j \<le> capacity_at k"
  by (simp add: capacity_at_def)

lemma capacity_at_inj: "j < k \<Longrightarrow> capacity_at j < capacity_at k"
  by (simp add: capacity_at_def INITIAL_ENCODE_CAPACITY_def)

lemma capacity_at_dvd: "8 dvd capacity_at k" "1024 \<le> capacity_at k"
  by (simp_all add: capacity_at_def INITIAL_ENCODE_CAPACITY_def)

lemma encode_payload_step:
  assumes "k \<le> 14"
  shows "encode_payload_from (capacity_at k) b =
    (case rbind (push_struct b (builder_new (replicate (capacity_at k) 0))) build of
       Ok pod \<Rightarrow> Ok pod
     | Err NoSpace \<Rightarrow> if k < 14 then encode_payload_from (capacity_at (Suc k)) b
         else Err (Invalid_input (Payload_exceeds_limit MAX_ENCODE_CAPACITY))
     | Err e \<Rightarrow> Err (Pod_codec e)
     | Panic \<Rightarrow> Panic)"
proof -
  have "capacity_at k < MAX_ENCODE_CAPACITY \<longleftrightarrow> k < 14" "0 < capacity_at k"
    using capacity_at_inj [of k 14] assms capacity_at_14 capacity_at_dvd(2) [of k]
    by (auto simp: le_less)
  moreover have "min (capacity_at k * 2) MAX_ENCODE_CAPACITY = capacity_at (Suc k)" if "k < 14"
  proof -
    have "capacity_at k * 2 = capacity_at (Suc k)"
      by (simp add: capacity_at_def)
    moreover have "capacity_at (Suc k) \<le> MAX_ENCODE_CAPACITY"
      using capacity_at_mono [of "Suc k" 14] that by (simp add: capacity_at_14)
    ultimately show ?thesis
      by simp
  qed
  ultimately show ?thesis
    using encode_payload_from.simps [of "capacity_at k" b]
    by (cases "rbind (push_struct b (builder_new (replicate (capacity_at k) 0))) build")
      (simp_all split: pod_error.splits)
qed

lemma nested_attempt:
  assumes pre: "codes True f g v n" and inner: "codes True f' g' v' m" and f': "f' = push_seq (push_pod C w) h"
    and c: "8 dvd c" "8 \<le> c"
  defines "r \<equiv> rbind (push_struct (push_seq f (push_struct f')) (builder_new (replicate c 0))) build"
  shows "c = 8 + n \<Longrightarrow> r = Panic" and "c \<noteq> 8 + n \<Longrightarrow> c < 16 + n + m \<Longrightarrow> r = Err NoSpace"
    and "16 + n + m \<le> c \<Longrightarrow> \<exists>out. r = Ok out"
proof -
  let ?b = "(builder_new (replicate c 0))\<lparr>b_pos := 8\<rparr>"
  have b: "builder_wf ?b" "room ?b = c - 8" "length (b_data ?b) = c"
    using c(2) by (auto simp: builder_wf_def builder_new_def room_def)
  have r: "r = rbind (push_struct (push_seq f (push_struct f')) (builder_new (replicate c 0))) build"
    by (simp add: r_def)
  have push: "r = Panic" if "push_seq f (push_struct f') ?b = Panic"
    using that c(2) by (simp add: r push_struct_def builder_new_def)
  have push': "r = Err NoSpace"
    if "push_seq f (push_struct f') ?b = Ok b'" and "b_error b' = Some NoSpace" for b'
    using that c(2) by (simp add: r push_struct_def builder_new_def build_def)
  obtain I where I: "emits f I n n" and dvd: "8 dvd n" and ns: "no_space_ok f n"
    using pre by (auto simp: codes_def)
  obtain J where J: "emits f' J m m" and ns': "no_space_ok f' m"
    using inner by (auto simp: codes_def)
  show "r = Panic" if "c = 8 + n"
    using nested_struct_full [OF pre b(1), of C w h] b that f' by (intro push) simp
  show "r = Err NoSpace" if "c \<noteq> 8 + n" "c < 16 + n + m"
  proof (cases "c < 8 + n")
    case True
    then have "room ?b < n"
      using b(2) c(2) by simp
    then obtain b' where "f ?b = Ok b'" "b_error b' = Some NoSpace"
      using ns b(1) by (auto simp: no_space_ok_def)
    then show ?thesis
      using sticky_push_struct [of f'] by (intro push' [of b']) (auto simp: push_seq_def sticky_def)
  next
    case False
    then have "n \<le> room ?b"
      using b(2) by simp
    then obtain out where out: "f ?b = Ok (put ?b out)" "length out = n"
      using I b(1) by (auto simp: emits_def)
    have "16 + n \<le> c"
      using False that(1) c(1) dvd by presburger
    then have "builder_wf (put ?b out)" "8 \<le> room (put ?b out)" "room (put ?b out) < 8 + m"
      using b out \<open>n \<le> room ?b\<close> that(2) by (auto simp: put_wf put_room)
    from push_struct_short [OF ns' this] out show ?thesis
      by (auto simp: push_seq_def intro: push')
  qed
  show "\<exists>out. r = Ok out" if "16 + n + m \<le> c"
  proof -
    have "emits (push_seq f (push_struct f')) (app_img I (struct_img m J)) (n + (8 + m)) (n + (8 + m))"
      using emits_seq [OF I emits_push_struct [OF J]] by simp
    from build_start [OF emits_push_struct [OF this], of "replicate c 0"] that show ?thesis
      by (auto simp: r)
  qed
qed

lemma nested_step:
  assumes "codes True f g v n" and "codes True f' g' v' m" and "f' = push_seq (push_pod C w) h" and "k \<le> 14"
  shows "encode_payload_from (capacity_at k) (push_seq f (push_struct f')) = Panic \<longleftrightarrow>
    8 + n = capacity_at k \<or> 8 + n \<noteq> capacity_at k \<and> capacity_at k < 16 + n + m \<and> k < 14 \<and>
      encode_payload_from (capacity_at (Suc k)) (push_seq f (push_struct f')) = Panic"
proof -
  have "8 \<le> capacity_at k"
    using capacity_at_dvd(2) [of k] by simp
  note att = nested_attempt [OF assms(1-3) capacity_at_dvd(1) this]
  consider "capacity_at k = 8 + n" | "capacity_at k \<noteq> 8 + n" "capacity_at k < 16 + n + m"
    | "16 + n + m \<le> capacity_at k"
    by linarith
  then show ?thesis
  proof cases
    case 1
    with att(1) show ?thesis
      using encode_payload_step [OF assms(4)] by simp
  next
    case 2
    with att(2) show ?thesis
      using encode_payload_step [OF assms(4)] by simp
  next
    case 3
    with att(3) obtain out where
      "rbind (push_struct (push_seq f (push_struct f')) (builder_new (replicate (capacity_at k) 0))) build = Ok out"
      by blast
    with 3 show ?thesis
      using encode_payload_step [OF assms(4)] by simp
  qed
qed

lemma nested_encode_panics:
  assumes "codes True f g v n" and "codes True f' g' v' m" and "f' = push_seq (push_pod C w) h" and "k \<le> 14"
  shows "encode_payload_from (capacity_at k) (push_seq f (push_struct f')) = Panic \<longleftrightarrow>
    (\<exists>j. k \<le> j \<and> j \<le> 14 \<and> 8 + n = capacity_at j)"
  using assms(4)
proof (induction "14 - k" arbitrary: k)
  case 0
  then have "(k \<le> j \<and> j \<le> 14) = (j = k)" for j
    by auto
  with 0 show ?case
    using nested_step [OF assms(1-3) 0(2)] by (auto simp flip: conj_assoc)
next
  case (Suc d)
  then have "k < 14" and IH: "encode_payload_from (capacity_at (Suc k)) (push_seq f (push_struct f')) = Panic
      \<longleftrightarrow> (\<exists>j. Suc k \<le> j \<and> j \<le> 14 \<and> 8 + n = capacity_at j)"
    by auto
  have later: "capacity_at k < 8 + n" if "Suc k \<le> j" "8 + n = capacity_at j" for j
    using that capacity_at_inj [of k j] by simp
  have "(k \<le> j \<and> j \<le> 14) = (j = k \<or> Suc k \<le> j \<and> j \<le> 14)" for j
    using \<open>k < 14\<close> by auto
  then have "(\<exists>j. k \<le> j \<and> j \<le> 14 \<and> 8 + n = capacity_at j) \<longleftrightarrow>
      8 + n = capacity_at k \<or> (\<exists>j. Suc k \<le> j \<and> j \<le> 14 \<and> 8 + n = capacity_at j)"
    by metis
  moreover have "capacity_at k < 16 + n + m" if "\<exists>j. Suc k \<le> j \<and> j \<le> 14 \<and> 8 + n = capacity_at j"
    using that later by force
  ultimately show ?case
    using nested_step [OF assms(1-3) Suc(3)] IH \<open>k < 14\<close> by blast
qed

lemma push_seq_nothing: "push_seq f push_nothing = f"
proof
  show "push_seq f push_nothing b = f b" for b
    by (cases "f b") (simp_all add: push_seq_def push_nothing_def)
qed

definition update_prefix :: "update \<Rightarrow> push" where
  "update_prefix u = push_seq (push_int (up_change_mask u)) (push_seq (push_int (of_nat (length (up_params u))))
     (push_all (push_pod pod_raw) (up_params u)))"

definition port_update_prefix :: "port_update \<Rightarrow> push" where
  "port_update_prefix u = push_seq (push_int (direction_u32 (pu_direction u))) (push_seq (push_int (pu_port_id u))
     (push_seq (push_int (pu_change_mask u)) (push_seq (push_int (of_nat (length (pu_params u))))
     (push_all (push_pod pod_raw) (pu_params u)))))"

lemma codes_pods_any:
  assumes "list_all raw_pod_wf pods"
  shows "\<exists>g :: raw_pod list parse. codes t (push_all (push_pod pod_raw) pods) g pods (pods_size pods)"
  using codes_all [of pods t "push_pod pod_raw" pop_raw_pod "\<lambda>p. p" rp_size] assms codes_raw
  by (auto simp: list_all_iff pods_size_def)

lemma update_prefix_codes:
  assumes "list_all raw_pod_wf (up_params u)"
  shows "\<exists>g :: raw_pod list parse. codes True (update_prefix u) g (up_params u) (32 + pods_size (up_params u))"
proof -
  obtain g :: "raw_pod list parse" where g: "codes True (push_all (push_pod pod_raw) (up_params u)) g (up_params u) (pods_size (up_params u))"
    using codes_pods_any [OF assms] by blast
  have "codes True (update_prefix u) (pbind pop_int (\<lambda>_. pbind pop_int (\<lambda>_. g))) (up_params u)
      (16 + (16 + pods_size (up_params u)))"
    unfolding update_prefix_def by (rule step_int, rule step_int, rule g)
  then show ?thesis
    by (auto simp: add.assoc [symmetric])
qed

lemma port_update_prefix_codes:
  assumes "list_all raw_pod_wf (pu_params u)"
  shows "\<exists>g :: raw_pod list parse. codes True (port_update_prefix u) g (pu_params u) (64 + pods_size (pu_params u))"
proof -
  obtain g :: "raw_pod list parse" where g: "codes True (push_all (push_pod pod_raw) (pu_params u)) g (pu_params u) (pods_size (pu_params u))"
    using codes_pods_any [OF assms] by blast
  have "codes True (port_update_prefix u)
      (pbind pop_int (\<lambda>_. pbind pop_int (\<lambda>_. pbind pop_int (\<lambda>_. pbind pop_int (\<lambda>_. g))))) (pu_params u)
      (16 + (16 + (16 + (16 + pods_size (pu_params u)))))"
    unfolding port_update_prefix_def by (rule step_int, rule step_int, rule step_int, rule step_int, rule g)
  then show ?thesis
    by (auto simp: add.assoc [symmetric])
qed

lemma update_encode_panics:
  assumes "update_ok limits u" and "up_info u = Some info"
  shows "encode_payload (push_update u) = Panic \<longleftrightarrow> (\<exists>k\<le>14. 40 + pods_size (up_params u) = capacity_at k)"
proof -
  have ok: "list_all raw_pod_wf (up_params u)" "node_info_ok limits info"
    using assms by (auto simp: update_ok_def pods_ok_def)
  obtain g :: "raw_pod list parse" where g: "codes True (update_prefix u) g (up_params u) (32 + pods_size (up_params u))"
    using update_prefix_codes [OF ok(1)] by blast
  have "push_update u = push_seq (update_prefix u) (push_struct (push_node_info info))"
    using assms(2) by (simp add: push_update_def update_prefix_def push_seq_assoc push_seq_nothing)
  moreover obtain h where "push_node_info info = push_seq (push_pod (pod_prim prim_i32) (ni_max_input_ports info)) h"
    by (simp add: push_node_info_def push_int_def Let_def)
  ultimately show ?thesis
    using nested_encode_panics [OF g codes_node_info [OF ok(2)], of "pod_prim prim_i32" _ _ 0]
    by (simp add: encode_payload_def capacity_at_0)
qed

lemma port_update_encode_panics:
  assumes "port_update_ok limits u" and "pu_info u = Some info"
  shows "encode_payload (push_port_update u) = Panic \<longleftrightarrow> (\<exists>k\<le>14. 72 + pods_size (pu_params u) = capacity_at k)"
proof -
  have ok: "list_all raw_pod_wf (pu_params u)" "port_info_ok limits info"
    using assms by (auto simp: port_update_ok_def pods_ok_def)
  obtain g :: "raw_pod list parse" where g: "codes True (port_update_prefix u) g (pu_params u) (64 + pods_size (pu_params u))"
    using port_update_prefix_codes [OF ok(1)] by blast
  have "push_port_update u = push_seq (port_update_prefix u) (push_struct (push_port_info info))"
    using assms(2) by (simp add: push_port_update_def port_update_prefix_def push_seq_assoc push_seq_nothing)
  moreover obtain h where "push_port_info info = push_seq (push_pod (pod_prim prim_i64) (po_change_mask info AND PORT_INFO_CHANGE_MASK)) h"
    by (simp add: push_port_info_def push_long_def Let_def)
  ultimately show ?thesis
    using nested_encode_panics [OF g codes_port_info [OF ok(2)], of "pod_prim prim_i64" _ _ 0]
    by (simp add: encode_payload_def capacity_at_0)
qed

end
