(* ===== verification/Client_Node_Safety.thy ===== *)
theory Client_Node_Safety
  imports Client_Node_Codec "HOL-Library.Multiset"
begin

text \<open>
  Decoding untrusted ClientNode payloads: no input panics, whatever is accepted is within the
  limits, and an event takes all descriptors of its frame or leaves them alone.
\<close>

section \<open>No panic\<close>

lemma safe_id_u32 [safe_intros]: "parse_safe pop_id_u32"
  unfolding pop_id_u32_def pop_id_def by (intro safe_intros u32_id.id.as_pod.safe_pop_pod) simp

lemma safe_case_fd [safe_intros]: "(\<And>x. parse_safe (f x)) \<Longrightarrow> parse_safe (case v of Fd x \<Rightarrow> f x)"
  by (cases v) simp

lemma safe_case_prod [safe_intros]: "(\<And>x y. parse_safe (f x y)) \<Longrightarrow> parse_safe (case v of (x, y) \<Rightarrow> f x y)"
  by (cases v) simp

lemma safe_region [safe_intros]: "parse_safe pop_region"
  unfolding pop_region_def by (intro safe_intros) simp_all

lemma pod_fd_index_total [simp]: "pod_fd_index v \<noteq> Panic" "fd_index v \<noteq> Panic"
  by (simp_all add: pod_fd_index_def fd_index_def)

lemma safe_transport [safe_intros]: "parse_safe pop_transport"
  unfolding pop_transport_def by (intro safe_intros) simp_all

lemma safe_set_activation [safe_intros]: "parse_safe pop_set_activation"
  unfolding pop_set_activation_def by (intro safe_intros) simp_all

lemma safe_set_io [safe_intros]: "parse_safe pop_port_set_io"
  unfolding pop_port_set_io_def by (intro safe_intros) simp_all

lemma safe_meta [safe_intros]: "parse_safe pop_meta"
  unfolding pop_meta_def by (intro safe_intros) simp_all

lemma safe_data [safe_intros]: "parse_safe pop_data"
  unfolding pop_data_def Let_def by (intro safe_intros) simp_all

lemma safe_buffer [safe_intros]: "parse_safe (pop_buffer limits)"
  unfolding pop_buffer_def by (intro safe_intros) simp_all

lemma safe_use_buffers [safe_intros]: "parse_safe (pop_port_use_buffers limits)"
  unfolding pop_port_use_buffers_def by (intro safe_intros) simp_all

lemma validate_format_total [simp]: "validate_format_object bytes \<noteq> Panic"
  by (simp add: validate_format_object_def panic_simps)

lemma port_param_total [simp]: "port_param limits pod \<noteq> Panic"
  by (auto simp: port_param_def panic_simps raw_owned_wrap_total split: pod_type.splits option.splits)

lemma safe_set_param [safe_intros]: "parse_safe (pop_port_set_param limits)"
  unfolding pop_port_set_param_def by (intro safe_intros) simp_all

lemma decode_command_total [simp]: "decode_command bytes \<noteq> Panic"
  by (auto simp: decode_command_def panic_simps Let_def split: if_splits)

lemma safe_command [safe_intros]: "parse_safe pop_command"
  unfolding pop_command_def by (intro safe_intros) simp_all

lemma safe_info_tail [safe_intros]: "parse_safe (pop_info_tail limits)"
  unfolding pop_info_tail_def pop_property_pair_def pop_param_info_def by (intro safe_intros) simp_all

lemma safe_info_fields [safe_intros]:
  "parse_safe (node_info_fields limits)" "parse_safe (port_info_fields limits)"
  unfolding node_info_fields_def port_info_fields_def by (intro safe_intros; simp)+

lemma optional_info_total:
  assumes "parse_safe g"
  shows "optional_info wrong trailing g pod \<noteq> Panic"
proof -
  have "fst (pop_struct (then_end e g) (parser_new data)) \<noteq> Panic" for e data
    by (rule safe_new) (intro safe_intros assms)
  then show ?thesis
    by (auto simp: optional_info_def panic_simps split: pod_type.splits)
qed

lemma safe_optional_info [safe_intros]:
  "parse_safe (pop_optional_node_info limits)" "parse_safe (pop_optional_port_info limits)"
  unfolding pop_optional_node_info_def pop_optional_port_info_def
  by (intro safe_intros optional_info_total)+

lemma safe_pods [safe_intros]: "parse_safe (pop_pods n max_bytes)"
  unfolding pop_pods_def pop_param_pod_def
  by (intro safe_intros) (simp_all add: raw_owned_wrap_total)

lemma safe_updates [safe_intros]: "parse_safe (pop_update limits)" "parse_safe (pop_port_update limits)"
  unfolding pop_update_def pop_port_update_def by (intro safe_intros; simp)+

lemma parse_payload_total:
  assumes "parse_safe g"
  shows "parse_payload payload g \<noteq> Panic"
proof -
  have "fst (pop_struct (then_end e g) (parser_new payload)) \<noteq> Panic" for e
    by (rule safe_new) (intro safe_intros assms)
  then show ?thesis
    by (auto simp: parse_payload_def panic_simps)
qed

lemma decode_method_total: "decode_method op payload limits \<noteq> Panic"
  by (auto simp: decode_method_def intro!: parse_payload_total safe_intros)

lemma fds_get_total [simp]: "fds_get fds i \<noteq> Panic"
  by (simp add: fds_get_def)

lemma require_indices_total [simp]: "require_indices fds seen is \<noteq> Panic"
  by (induction "is" arbitrary: seen) (auto simp: panic_simps)

lemma require_fds_total [simp]: "require_fds fds is \<noteq> Panic"
  by (simp add: require_fds_def)

lemma fst_take_fd_total [simp]: "fst (take_fd fds i) \<noteq> Panic"
  by (auto simp: take_fd_def fds_take_def panic_simps)

section \<open>What is accepted\<close>

text \<open>\<open>returns g P\<close>: whatever \<open>g\<close> reads, from whatever buffer, satisfies \<open>P\<close>.\<close>

definition returns :: "'a parse \<Rightarrow> ('a \<Rightarrow> bool) \<Rightarrow> bool" where
  "returns g P \<longleftrightarrow> (\<forall>p v. fst (g p) = Ok v \<longrightarrow> P v)"

lemma returnsD: "returns g P \<Longrightarrow> fst (g p) = Ok v \<Longrightarrow> P v"
  by (simp add: returns_def)

lemma returns_any: "returns g (\<lambda>_. True)"
  by (simp add: returns_def)

lemma returns_bind:
  assumes "returns f Q" and "\<And>x. Q x \<Longrightarrow> returns (g x) P"
  shows "returns (pbind f g) P"
  unfolding returns_def
proof (intro allI impI)
  fix p v assume "fst (pbind f g p) = Ok v"
  then obtain x p' where "f p = (Ok x, p')" "fst (g x p') = Ok v"
    by (cases "f p"; cases "fst (f p)") (auto simp: pbind_def)
  with returnsD [OF assms(1), of p x] returnsD [OF assms(2), of x p' v] show "P v"
    by simp
qed

lemma returns_skip: "(\<And>x. returns (g x) P) \<Longrightarrow> returns (pbind f g) P"
  by (rule returns_bind [OF returns_any])

lemma returns_lift: "(\<And>v. r = Ok v \<Longrightarrow> P v) \<Longrightarrow> returns (lift_result r) P"
  by (simp add: returns_def lift_result_def)

lemma returns_check: "(\<And>v. r = Ok v \<Longrightarrow> returns (g v) P) \<Longrightarrow> returns (pbind (lift_result r) g) P"
  by (rule returns_bind [OF returns_lift])

lemma returns_if: "(c \<Longrightarrow> returns f P) \<Longrightarrow> (\<not> c \<Longrightarrow> returns g P) \<Longrightarrow> returns (if c then f else g) P"
  by simp

lemma returns_weaken: "returns g P \<Longrightarrow> (\<And>v. P v \<Longrightarrow> Q v) \<Longrightarrow> returns g Q"
  by (auto simp: returns_def)

lemma returns_pop_n: "returns g P \<Longrightarrow> returns (pop_n n g) (\<lambda>xs. length xs = n \<and> list_all P xs)"
proof (induction n)
  case (Suc n)
  show ?case
    unfolding pop_n.simps
    by (rule returns_bind [OF Suc.prems], rule returns_bind [OF Suc.IH [OF Suc.prems]], rule returns_lift)
      auto
qed (simp add: returns_def lift_result_def)

lemma returns_payload:
  assumes "returns g P" and "parse_payload payload g = Ok v"
  shows "P v"
proof -
  have "\<exists>data. fst (g (parser_new data)) = Ok v"
    using assms(2)
    by (auto simp: parse_payload_def ok_simps pop_struct_def then_end_def pbind_def lift_result_def advance_def
        split: result.splits prod.splits if_splits) (metis fst_conv)
  with assms(1) show ?thesis
    by (auto simp: returns_def)
qed

lemma returns_region: "returns (pbind pop_region (\<lambda>r. pbind (lift_result (reject_partial_clear r)) (\<lambda>_. g r))) P"
  if "\<And>r. region_ok r \<Longrightarrow> returns (g r) P"
  by (rule returns_skip, rule returns_check, rule that) (simp add: reject_partial_clear_iff)

lemma returns_data: "returns pop_data data_ok"
  unfolding pop_data_def Let_def
  by (intro returns_skip returns_check returns_lift) (simp add: validate_data_iff)

definition buffer_within :: "wire_limits \<Rightarrow> buffer_descriptor \<Rightarrow> bool" where
  "buffer_within limits b \<longleftrightarrow> region_ok (bd_metadata b) \<and> length (bd_metas b) \<le> max_metas limits \<and>
     length (bd_datas b) \<le> max_datas limits \<and> list_all data_ok (bd_datas b)"

lemma returns_buffer: "returns (pop_buffer limits) (buffer_within limits)"
  unfolding pop_buffer_def
  by (rule returns_region, rule returns_skip, rule returns_check, rule returns_bind [OF returns_pop_n [OF returns_any]],
      rule returns_skip, rule returns_check, rule returns_bind [OF returns_pop_n [OF returns_data]], rule returns_lift)
    (auto simp: buffer_within_def dest: count_Ok)

definition pods_within :: "wire_limits \<Rightarrow> raw_pod list \<Rightarrow> bool" where
  "pods_within limits pods \<longleftrightarrow> length pods \<le> max_params limits \<and>
     list_all (\<lambda>pod. raw_pod_wf pod \<and> rp_size pod \<le> max_pod_bytes limits) pods"

definition tail_within :: "wire_limits \<Rightarrow> property_pairs \<Rightarrow> param_info list \<Rightarrow> bool" where
  "tail_within limits properties params \<longleftrightarrow> length properties \<le> max_properties limits \<and>
     list_all (\<lambda>kv. valid_utf8 (fst kv) \<and> valid_utf8 (snd kv)) properties \<and>
     length params \<le> max_param_info limits"

definition method_within :: "wire_limits \<Rightarrow> method \<Rightarrow> bool" where
  "method_within limits m = (case m of
       Update u \<Rightarrow> pods_within limits (up_params u) \<and> (case up_info u of None \<Rightarrow> True
         | Some info \<Rightarrow> tail_within limits (ni_properties info) (ni_params info))
     | PortUpdate u \<Rightarrow> pods_within limits (pu_params u) \<and> (case pu_info u of None \<Rightarrow> True
         | Some info \<Rightarrow> tail_within limits (po_properties info) (po_params info))
     | SetActive _ \<Rightarrow> True)"

definition event_within :: "wire_limits \<Rightarrow> event \<Rightarrow> bool" where
  "event_within limits ev = (case ev of
       Ev_Transport t \<Rightarrow> region_ok (tr_activation t)
     | Ev_PortSetParam v \<Rightarrow> sp_param_id v = SPA_PARAM_FORMAT \<and> (case sp_param v of None \<Rightarrow> True
         | Some pod \<Rightarrow> raw_pod_wf pod \<and> rp_size pod \<le> max_pod_bytes limits)
     | Ev_PortUseBuffers v \<Rightarrow> ub_flags v AND SPA_NODE_BUFFERS_FLAG_ALLOC = 0 \<and> ub_mix_id v \<noteq> Some INVALID_ID \<and>
         length (ub_buffers v) \<le> max_buffers limits \<and> list_all (buffer_within limits) (ub_buffers v)
     | Ev_PortSetIo v \<Rightarrow> (case v of Io_Set _ _ m i r \<Rightarrow> region_ok r \<and> i = SPA_IO_BUFFERS \<and> m \<noteq> Some INVALID_ID
         | Io_Clear _ _ m i \<Rightarrow> i = SPA_IO_BUFFERS \<and> m \<noteq> Some INVALID_ID)
     | Ev_SetActivation v \<Rightarrow> (case v of Activation_Set _ _ r \<Rightarrow> region_ok r | _ \<Rightarrow> True)
     | Ev_Command _ \<Rightarrow> True)"

lemma optional_id_not_invalid [simp]: "optional_id v \<noteq> Some INVALID_ID"
  by (simp add: optional_id_def)

lemma returns_string: "returns pop_string valid_utf8"
  by (auto simp: returns_def pop_string_def pop_pod_def pbind_result ok_simps dest: string_decode_utf8
      split: result.splits if_splits)

lemma returns_pair: "returns pop_property_pair (\<lambda>kv. valid_utf8 (fst kv) \<and> valid_utf8 (snd kv))"
  unfolding pop_property_pair_def
  by (rule returns_bind [OF returns_string], rule returns_bind [OF returns_string], rule returns_lift) auto

lemma returns_info_tail: "returns (pop_info_tail limits) (\<lambda>(properties, params). tail_within limits properties params)"
  unfolding pop_info_tail_def
  by (rule returns_skip, rule returns_check, rule returns_bind [OF returns_pop_n [OF returns_pair]],
      rule returns_skip, rule returns_check, rule returns_bind [OF returns_pop_n [OF returns_any]], rule returns_lift)
    (auto simp: tail_within_def dest: count_Ok)

lemma returns_pods: "returns (pop_pods n (max_pod_bytes limits))
    (\<lambda>pods. length pods = n \<and> list_all (\<lambda>pod. raw_pod_wf pod \<and> rp_size pod \<le> max_pod_bytes limits) pods)"
  unfolding pop_pods_def
proof (rule returns_pop_n)
  have "raw_pod_wf pod" "raw_pod_owned_wrap (rp_data pod) = Ok pod" if "fst (pop_raw_pod p) = Ok pod" for p pod
    using that raw_owned_wrap_wf [of _ pod]
    by (auto simp: pop_raw_pod_def pbind_result pbind_advance lift_result_def ok_simps raw_wrap_agree raw_pod_wf_def
        split: result.splits)
  then have "returns pop_raw_pod (\<lambda>pod. raw_pod_wf pod \<and> raw_pod_owned_wrap (rp_data pod) = Ok pod)"
    by (simp add: returns_def)
  then show "returns (pop_param_pod (max_pod_bytes limits)) (\<lambda>pod. raw_pod_wf pod \<and> rp_size pod \<le> max_pod_bytes limits)"
    unfolding pop_param_pod_def by (rule returns_bind) (auto intro!: returns_if returns_lift)
qed

lemma returns_payload_info:
  assumes "returns g P" and "optional_info wrong trailing g pod = Ok (Some v)"
  shows "P v"
proof -
  have "\<exists>data. fst (g (parser_new data)) = Ok v"
    using assms(2)
    by (auto simp: optional_info_def ok_simps pop_struct_def then_end_def pbind_def lift_result_def advance_def
        split: result.splits prod.splits if_splits pod_type.splits) (metis fst_conv)
  with assms(1) show ?thesis
    by (auto simp: returns_def)
qed

lemma returns_node_info:
  "returns (node_info_fields limits) (\<lambda>info. tail_within limits (ni_properties info) (ni_params info))"
  unfolding node_info_fields_def
  by (rule returns_skip, rule returns_skip, rule returns_skip, rule returns_skip,
      rule returns_bind [OF returns_info_tail]) (auto intro!: returns_lift)

lemma returns_port_info:
  "returns (port_info_fields limits) (\<lambda>info. tail_within limits (po_properties info) (po_params info))"
  unfolding port_info_fields_def
  by (rule returns_skip, rule returns_skip, rule returns_skip, rule returns_skip,
      rule returns_bind [OF returns_info_tail]) (auto intro!: returns_lift)

lemma returns_optional_info:
  assumes "returns g P"
  shows "returns (pbind pop_raw_pod (\<lambda>pod. lift_result (optional_info wrong trailing g pod)))
    (\<lambda>x. case x of None \<Rightarrow> True | Some v \<Rightarrow> P v)"
  by (intro returns_skip returns_lift) (auto dest: returns_payload_info [OF assms] split: option.splits)

lemma returns_update: "returns (pop_update limits) (method_within limits)"
  unfolding pop_update_def pop_optional_node_info_def
  by (rule returns_skip, rule returns_skip, rule returns_check, rule returns_bind [OF returns_pods],
      rule returns_bind [OF returns_optional_info [OF returns_node_info]], rule returns_lift)
    (auto simp: method_within_def pods_within_def dest: count_Ok)

lemma returns_port_update: "returns (pop_port_update limits) (method_within limits)"
  unfolding pop_port_update_def pop_optional_port_info_def
  by (rule returns_skip, rule returns_check, rule returns_skip, rule returns_skip, rule returns_skip,
      rule returns_check, rule returns_bind [OF returns_pods],
      rule returns_bind [OF returns_optional_info [OF returns_port_info]], rule returns_lift)
    (auto simp: method_within_def pods_within_def dest: count_Ok)

lemma returns_set_active: "returns (pbind pop_bool (\<lambda>active. preturn (SetActive active))) (method_within limits)"
  by (intro returns_skip returns_lift) (auto simp: method_within_def)

lemma decode_method_within: "decode_method op payload limits = Ok m \<Longrightarrow> method_within limits m"
  by (auto simp: decode_method_def dest: returns_payload [OF returns_update] returns_payload [OF returns_port_update]
      returns_payload [OF returns_set_active] split: if_splits)

lemma returns_use_buffers: "returns (pop_port_use_buffers limits) (event_within limits)"
  unfolding pop_port_use_buffers_def
  by (rule returns_skip, rule returns_check, rule returns_skip, rule returns_skip, rule returns_skip, rule returns_if,
      rule returns_lift, simp, rule returns_skip, rule returns_check,
      rule returns_bind [OF returns_pop_n [OF returns_buffer]], rule returns_lift)
    (auto simp: event_within_def dest: count_Ok)

lemma returns_set_io: "returns pop_port_set_io (event_within limits)"
  unfolding pop_port_set_io_def
  by (intro returns_skip returns_check returns_if returns_lift)
    (auto simp: event_within_def reject_partial_clear_iff)

lemma port_param_Ok:
  "port_param limits pod = Ok (Some p) \<Longrightarrow> raw_pod_wf p \<and> rp_size p \<le> max_pod_bytes limits"
  by (auto simp: port_param_def ok_simps dest: raw_owned_wrap_wf split: option.splits if_splits pod_type.splits)

lemma returns_set_param: "returns (pop_port_set_param limits) (event_within limits)"
  unfolding pop_port_set_param_def
  by (intro returns_skip returns_check returns_if returns_lift)
    (auto simp: event_within_def dest: port_param_Ok split: option.splits)

lemma returns_command: "returns pop_command (event_within limits)"
  unfolding pop_command_def by (intro returns_skip returns_check returns_lift) (auto simp: event_within_def)

lemma returns_transport: "returns pop_transport (\<lambda>(i, j, r). region_ok r)"
proof -
  have "returns (case v of Fd x \<Rightarrow> f x) P" if "\<And>x. returns (f x) P" for v :: fd and f and P :: "u32 \<times> u32 \<times> region_ref \<Rightarrow> bool"
    using that by (cases v) simp
  note fd = this
  show ?thesis
    unfolding pop_transport_def
    by (intro returns_skip fd returns_check returns_lift) (auto simp: reject_partial_clear_iff)
qed

section \<open>Descriptors of an event\<close>

definition event_fds :: "event \<Rightarrow> raw_fd list" where
  "event_fds ev = (case ev of
       Ev_Transport t \<Rightarrow> [tr_trigger_fd t, tr_completion_fd t]
     | Ev_SetActivation (Activation_Set _ fd _) \<Rightarrow> [fd]
     | _ \<Rightarrow> [])"

text \<open>
  \<open>fds_post\<close>: a decoded event owns exactly the descriptors of the frame and none is left behind; a
  rejected event has taken none, so dropping the frame closes them all.
\<close>

definition fds_post :: "frame_fds \<Rightarrow> event wire_result \<times> frame_fds \<Rightarrow> bool" where
  "fds_post fds res = (case res of
       (Ok ev, fds') \<Rightarrow> mset (map Some (event_fds ev)) = mset fds \<and> fds' = map (\<lambda>_. None) fds
     | (Err e, fds') \<Rightarrow> fds' = fds
     | (Panic, fds') \<Rightarrow> False)"

lemma fds_get_Ok: "fds_get fds i = Ok fd \<longleftrightarrow> unat i < length fds \<and> fds ! unat i = Some fd"
  by (auto simp: fds_get_def ok_or_eq_Ok_iff)

lemma take_fd_get: "fds_get fds i = Ok fd \<Longrightarrow> take_fd fds i = (Ok fd, fds[unat i := None])"
  by (simp add: take_fd_def fds_take_def fds_get_Ok)

lemma require_none: "require_fds fds [] = Ok () \<longleftrightarrow> fds = []"
  by (simp add: require_fds_def)

lemma require_nothing [simp]: "require_fds [] [] = Ok ()"
  by (simp add: require_none)

lemma require_one:
  assumes "require_fds fds [i] = Ok ()"
  obtains fd where "fds = [Some fd]" and "take_fd fds i = (Ok fd, [None])"
proof -
  obtain fd where fd: "length fds = 1" "fds_get fds i = Ok fd"
    using assms by (auto simp: require_fds_def ok_simps split: if_splits)
  then have "fds = [Some fd]" "unat i = 0"
    by (auto simp: fds_get_Ok length_Suc_conv)
  with that take_fd_get [OF fd(2)] show ?thesis
    by simp
qed

lemma require_two:
  assumes "require_fds fds [i, j] = Ok ()"
  obtains a b fds1 where "take_fd fds i = (Ok a, fds1)" and "take_fd fds1 j = (Ok b, [None, None])"
    and "fds = [Some a, Some b] \<or> fds = [Some b, Some a]"
proof -
  obtain a b where ab: "length fds = 2" "i \<noteq> j" "fds_get fds i = Ok a" "fds_get fds j = Ok b"
    using assms by (auto simp: require_fds_def ok_simps split: if_splits)
  have "unat i \<noteq> unat j"
    using ab(2) unsigned_word_eqI [where 'a = nat] by blast
  moreover have "unat i < 2" "unat j < 2"
    using ab by (simp_all add: fds_get_Ok)
  ultimately consider "unat i = 0" "unat j = 1" | "unat i = 1" "unat j = 0"
    by linarith
  then show ?thesis
  proof cases
    case 1
    with ab have "fds = [Some a, Some b]"
      by (auto simp: fds_get_Ok numeral_2_eq_2 length_Suc_conv)
    with 1 take_fd_get [OF ab(3)] take_fd_get [of "fds[unat i := None]" j b] that show ?thesis
      by (simp add: fds_get_Ok)
  next
    case 2
    with ab have "fds = [Some b, Some a]"
      by (auto simp: fds_get_Ok numeral_2_eq_2 length_Suc_conv)
    with 2 take_fd_get [OF ab(3)] take_fd_get [of "fds[unat i := None]" j b] that show ?thesis
      by (simp add: fds_get_Ok)
  qed
qed

lemma decode_transport_fds: "fds_post fds (decode_transport payload fds)"
proof (cases "rbind (parse_payload payload pop_transport) (\<lambda>(i, j, r).
    rbind (require_fds fds [i, j]) (\<lambda>_. Ok (i, j, r)))")
  case (Ok x)
  then obtain i j r where x: "x = (i, j, r)" and req: "require_fds fds [i, j] = Ok ()"
    by (auto simp: ok_simps)
  from require_two [OF req] obtain a b fds1 where "take_fd fds i = (Ok a, fds1)" "take_fd fds1 j = (Ok b, [None, None])"
      "fds = [Some a, Some b] \<or> fds = [Some b, Some a]" .
  with Ok x show ?thesis
    by (auto simp: decode_transport_def fds_post_def event_fds_def)
next
  case Panic
  then show ?thesis
    by (auto simp: panic_simps parse_payload_total safe_transport)
qed (simp add: decode_transport_def fds_post_def)

lemma decode_set_activation_fds: "fds_post fds (decode_set_activation payload fds)"
proof (cases "parse_payload payload pop_set_activation")
  case (Ok x)
  obtain n fd r where x: "x = (n, fd, r)"
    by (cases x)
  show ?thesis
  proof (cases "fd = - 1 \<and> is_clear_region r")
    case True
    with Ok x show ?thesis
      by (cases "require_fds fds []") (auto simp: decode_set_activation_def fds_post_def event_fds_def require_none)
  next
    case False
    show ?thesis
    proof (cases "rbind (map_err Pod_codec (reject_partial_clear r)) (\<lambda>_.
        rbind (fd_index fd) (\<lambda>index. rbind (require_fds fds [index]) (\<lambda>_. Ok index)))")
      case (Ok i)
      then have "require_fds fds [i] = Ok ()"
        by (auto simp: ok_simps)
      from require_one [OF this] obtain a where "fds = [Some a]" "take_fd fds i = (Ok a, [None])" .
      with Ok False x \<open>parse_payload payload pop_set_activation = Ok x\<close> show ?thesis
        by (auto simp: decode_set_activation_def fds_post_def event_fds_def)
    next
      case Panic
      then show ?thesis
        by (auto simp: panic_simps)
    qed (use Ok False x in \<open>auto simp: decode_set_activation_def fds_post_def\<close>)
  qed
qed (simp_all add: decode_set_activation_def fds_post_def parse_payload_total safe_set_activation)

lemma decode_plain_fds:
  assumes "parse_safe g" and "returns g (\<lambda>ev. event_fds ev = [])"
  shows "fds_post fds (rbind (require_fds fds []) (\<lambda>_. parse_payload payload g), fds)"
  using parse_payload_total [OF assms(1), of payload] returns_payload [OF assms(2), of payload]
  by (cases "require_fds fds []"; cases "parse_payload payload g") (auto simp: fds_post_def require_none)

lemma plain_events:
  "returns (pop_port_set_param limits) (\<lambda>ev. event_fds ev = [])"
  "returns (pop_port_use_buffers limits) (\<lambda>ev. event_fds ev = [])"
  "returns pop_port_set_io (\<lambda>ev. event_fds ev = [])"
  "returns pop_command (\<lambda>ev. event_fds ev = [])"
  unfolding pop_port_set_param_def pop_port_use_buffers_def pop_port_set_io_def pop_command_def
  by (auto simp: event_fds_def intro!: returns_skip returns_check returns_if returns_lift)

lemma decode_event_fds: "fds_post fds (decode_event op payload fds limits)"
  by (simp add: decode_event_def Let_def decode_transport_fds decode_set_activation_fds decode_plain_fds plain_events
      safe_intros)
    (simp add: fds_post_def)

lemma decode_event_within:
  assumes "decode_event op payload fds limits = (Ok ev, fds')"
  shows "event_within limits ev"
proof -
  have "event_within limits ev" if "decode_transport payload fds = (Ok ev, fds')"
    using that returns_payload [OF returns_transport, of payload]
    by (auto simp: decode_transport_def event_within_def ok_simps split: result.splits prod.splits)
  moreover have "event_within limits ev" if "decode_set_activation payload fds = (Ok ev, fds')"
    using that
    by (auto simp: decode_set_activation_def event_within_def ok_simps reject_partial_clear_iff
        split: result.splits prod.splits if_splits)
  ultimately show ?thesis
    using assms
    by (auto simp: decode_event_def Let_def ok_simps dest: returns_payload [OF returns_set_param]
        returns_payload [OF returns_use_buffers] returns_payload [OF returns_set_io]
        returns_payload [OF returns_command] split: if_splits)
qed

end
