(* ===== verification/Client_Node_Claims.thy ===== *)
theory Client_Node_Claims
  imports Client_Node_Safety
begin

text \<open>The properties of the ClientNode codec, with their witnesses.\<close>

section \<open>Encoders that always return\<close>

lemma each_iff: "each f xs = Ok () \<longleftrightarrow> list_all (\<lambda>x. \<exists>y. f x = Ok y) xs"
  by (induction xs) (auto simp: ok_simps)

lemma unit_Ok: "(\<exists>y. r = Ok (y :: unit)) \<longleftrightarrow> r = Ok ()"
  by auto

lemma validate_buffer_iff: "validate_buffer limits b = Ok () \<longleftrightarrow> buffer_ok limits b"
  by (auto simp: validate_buffer_def buffer_ok_def ok_simps each_iff unit_Ok reject_partial_clear_iff
      ensure_count_iff validate_data_iff)

lemma validate_use_buffers_iff:
  "ub_mix_id v \<noteq> Some INVALID_ID \<Longrightarrow> validate_port_use_buffers v limits = Ok () \<longleftrightarrow> use_buffers_ok limits v"
  by (auto simp: validate_port_use_buffers_def use_buffers_ok_def ok_simps each_iff unit_Ok validate_buffer_iff
      ensure_count_iff)

lemma buffer_size_le:
  "buffer_ok default_wire_limits b \<Longrightarrow> buffer_size b \<le> 22608"
  by (simp add: buffer_ok_def buffer_size_def default_wire_limits_def count_ok_def)

lemma use_buffers_size_le:
  assumes "use_buffers_ok default_wire_limits v"
  shows "8 + use_buffers_size v \<le> MAX_ENCODE_CAPACITY"
proof -
  have "sum_list (map buffer_size (ub_buffers v)) \<le> sum_list (map (\<lambda>_. 22608) (ub_buffers v))"
    using assms buffer_size_le by (intro sum_list_mono) (auto simp: use_buffers_ok_def list_all_iff)
  moreover have "length (ub_buffers v) \<le> 64"
    using assms by (simp add: use_buffers_ok_def count_ok_def default_wire_limits_def)
  ultimately show ?thesis
    by (simp add: use_buffers_size_def sum_list_triv MAX_ENCODE_CAPACITY_def)
qed

lemma encode_fits:
  assumes "codes True f g v s" and "8 + s \<le> MAX_ENCODE_CAPACITY"
  obtains out where "encode_payload f = Ok out" and "length out = 8 + s" and "parse_payload out g = Ok v"
  using encode_payload_total [OF assms(1)] assms(2) by auto

section \<open>Properties\<close>

text \<open>
  C5. Client methods survive the wire. Whatever \<open>encode_method_with_limits\<close> accepts and encodes,
  \<open>decode_method\<close> with the same limits decodes to the message that was sent: the same parameters,
  identifiers and flags, with the change masks cut to the known bits and node properties and
  parameters left out unless their mask bit announces them.\<close>

theorem methods_round_trip:
  assumes "method_wf m" and "encode_method_with_limits m limits = Ok out"
  shows "decode_method (method_opcode m) out limits = Ok (sent_method m)"
  using assms by (rule encode_method_decode)

theorem methods_round_trip_witness:
  "\<exists>out. encode_method_with_limits (SetActive True) default_wire_limits = Ok out \<and>
     decode_method 4 out default_wire_limits = Ok (SetActive True)"
proof -
  obtain out where out: "encode_payload (push_bool True) = Ok out"
    by (rule encode_fits [OF codes_set_active [of True True]]) (auto simp: MAX_ENCODE_CAPACITY_def)
  then have enc: "encode_method_with_limits (SetActive True) default_wire_limits = Ok out"
    by (simp add: encode_method_with_limits_def validate_method_def)
  moreover have "method_wf (SetActive True)"
    by (simp add: method_wf_def)
  ultimately have "decode_method (method_opcode (SetActive True)) out default_wire_limits = Ok (sent_method (SetActive True))"
    by (intro methods_round_trip)
  with enc show ?thesis
    by (simp add: method_opcode_def method_SET_ACTIVE_def sent_method_def)
qed

text \<open>
  C32. When the encoder of an update with an info block panics: exactly when the header, the fields
  and the parameters before the block end at the end of one of the fifteen buffer sizes that are
  tried, 1024 bytes to 16 MiB. The nested struct then reserves its header past the end of the
  buffer instead of reporting \<open>NoSpace\<close>.\<close>

theorem update_encoder_panics:
  assumes "update_ok limits u" and "up_info u = Some info"
  shows "encode_method_with_limits (Update u) limits = Panic \<longleftrightarrow>
    (\<exists>k\<le>14. 40 + pods_size (up_params u) = 1024 * 2 ^ k)"
proof -
  have "method_wf (Update u)"
    using assms by (auto simp: method_wf_def update_ok_def pods_ok_def node_info_ok_def)
  then have "validate_method (Update u) limits = Ok ()"
    using assms(1) by (simp add: validate_method_iff method_ok_def)
  then show ?thesis
    using update_encode_panics [OF assms]
    by (simp add: encode_method_with_limits_def capacity_at_def INITIAL_ENCODE_CAPACITY_def)
qed

definition full_pod :: raw_pod where
  "full_pod = \<lparr>rp_size = 984, rp_type = Type_Bytes,
     rp_data = u32_bytes 976 @ u32_bytes (type_u32 Type_Bytes) @ replicate 976 0\<rparr>"

definition full_update :: update where
  "full_update = \<lparr>up_change_mask = 1, up_params = [full_pod], up_info = Some
     \<lparr>ni_max_input_ports = 0, ni_max_output_ports = 0, ni_change_mask = 0, ni_flags = 0,
      ni_properties = [], ni_params = []\<rparr>\<rparr>"

lemma full_pod_wf: "raw_pod_wf full_pod"
  by (simp add: raw_pod_wf_def full_pod_def raw_pod_owned_wrap_def codec_simps
      pod_total_size_u32 [of 976, simplified] pad_8_def type_u32_table [symmetric] del: type_u32_table)

theorem update_encoder_panics_witness: "encode_method (Update full_update) = Panic"
proof -
  have "update_ok default_wire_limits full_update"
    using full_pod_wf
    by (simp add: update_ok_def full_update_def pods_ok_def count_ok_def default_wire_limits_def node_info_ok_def
        sent_node_info_def node_info_size_def tail_size_def full_pod_def)
  moreover have "40 + pods_size (up_params full_update) = 1024 * 2 ^ 0"
    by (simp add: full_update_def pods_size_def full_pod_def)
  ultimately show ?thesis
    using update_encoder_panics [of default_wire_limits full_update] unfolding encode_method_def
    by (metis full_update_def le0 update.select_convs(3))
qed

text \<open>
  C31. An update without an info block is always encoded: the encoder terminates without a panic,
  with a payload of the exact size that decodes to the update, or with an error that says that it
  is larger than 16 MiB.\<close>

theorem update_encoder_returns:
  assumes "update_ok limits u" and "up_info u = None"
  shows "if 8 + update_size u \<le> MAX_ENCODE_CAPACITY
    then \<exists>out. encode_method_with_limits (Update u) limits = Ok out \<and> length out = 8 + update_size u \<and>
      decode_method method_UPDATE out limits = Ok (Update u)
    else encode_method_with_limits (Update u) limits =
      Err (Invalid_input (Payload_exceeds_limit MAX_ENCODE_CAPACITY))"
proof -
  have "method_wf (Update u)"
    using assms by (auto simp: method_wf_def update_ok_def pods_ok_def)
  then have valid: "validate_method (Update u) limits = Ok ()"
    using assms(1) by (simp add: validate_method_iff method_ok_def)
  moreover have "sent_method (Update u) = Update u"
    using assms(2) by (simp add: sent_method_def)
  ultimately show ?thesis
    using encode_payload_total [OF codes_update [OF assms(1), of True]] assms(2)
    by (cases "8 + update_size u \<le> MAX_ENCODE_CAPACITY") (auto simp: encode_method_with_limits_def decode_method_def)
qed

theorem update_encoder_returns_witness:
  "\<exists>out. encode_method (Update (full_update\<lparr>up_info := None\<rparr>)) = Ok out \<and> length out = 1032"
proof -
  let ?u = "full_update\<lparr>up_info := None\<rparr>"
  have "update_ok default_wire_limits ?u" "update_size ?u = 1024"
    using full_pod_wf
    by (simp_all add: update_ok_def full_update_def pods_ok_def count_ok_def default_wire_limits_def
        full_pod_def update_size_def pods_size_def opt_size_def)
  then show ?thesis
    using update_encoder_returns [of default_wire_limits ?u]
    by (auto simp: MAX_ENCODE_CAPACITY_def encode_method_def)
qed

text \<open>
  C28. A Transport event arrives with its descriptors: the encoder always returns for an acceptable
  activation region, and the decoder gives back the region and the two descriptors behind the two
  frame-local indices, in their roles, and leaves none in the frame.\<close>

theorem transport_round_trip:
  assumes "region_ok r" and "i \<noteq> j" and "length fds = 2" and "fds_get fds i = Ok a" and "fds_get fds j = Ok b"
  shows "\<exists>out. encode_transport i j r = Ok out \<and>
    decode_event event_TRANSPORT out fds limits =
      (Ok (Ev_Transport \<lparr>tr_trigger_fd = a, tr_completion_fd = b, tr_activation = r\<rparr>), [None, None])"
proof -
  have small: "unat i < 2 ^ 31" "unat j < 2 ^ 31"
    using assms(3-5) by (simp_all add: fds_get_Ok)
  obtain out where out: "encode_payload (push_chain [push_fd i, push_fd j, push_region r]) = Ok out"
      "parse_payload out pop_transport = Ok (i, j, r)"
    by (rule encode_fits [OF codes_transport [OF assms(1) small, of True]]) (auto simp: MAX_ENCODE_CAPACITY_def)
  have req: "require_fds fds [i, j] = Ok ()"
    using assms by (simp add: require_fds_def)
  obtain a' b' fds1 where "take_fd fds i = (Ok a', fds1)" "take_fd fds1 j = (Ok b', [None, None])"
    using require_two [OF req] by metis
  moreover have "unat i \<noteq> unat j"
    using assms(2) unsigned_word_eqI [where 'a = nat] by blast
  ultimately have "take_fd fds i = (Ok a, fds1)" "take_fd fds1 j = (Ok b, [None, None])"
    using take_fd_get [OF assms(4)] take_fd_get [of fds1 j b] assms(5) by (auto simp: fds_get_Ok)
  then have "decode_event event_TRANSPORT out fds limits =
      (Ok (Ev_Transport \<lparr>tr_trigger_fd = a, tr_completion_fd = b, tr_activation = r\<rparr>), [None, None])"
    using out(2) req by (simp add: decode_event_def decode_transport_def)
  moreover have "reject_partial_clear r = Ok ()"
    using assms(1) by (simp add: reject_partial_clear_iff)
  then have "encode_transport i j r = Ok out"
    using out(1) small by (simp add: encode_transport_def i32_try_from_u32_def)
  ultimately show ?thesis
    by blast
qed

theorem transport_round_trip_witness:
  "\<exists>out. encode_transport 1 0 \<lparr>rr_memory_id = 3, rr_offset = 64, rr_size = 2312\<rparr> = Ok out \<and>
    decode_event 0 out [Some 11, Some 12] default_wire_limits =
      (Ok (Ev_Transport \<lparr>tr_trigger_fd = 12, tr_completion_fd = 11,
         tr_activation = \<lparr>rr_memory_id = 3, rr_offset = 64, rr_size = 2312\<rparr>\<rparr>), [None, None])"
  using transport_round_trip [of "\<lparr>rr_memory_id = 3, rr_offset = 64, rr_size = 2312\<rparr>" 1 0 "[Some 11, Some 12]" 12 11
      default_wire_limits]
  by (simp add: region_ok_def INVALID_ID_def fds_get_def event_TRANSPORT_def)

text \<open>
  C29. SetActivation events survive the wire: a peer with its signal descriptor and region, and the
  removal of a peer, which is encoded as the all-clear region with descriptor index -1.\<close>

theorem set_activation_round_trip:
  assumes "region_ok r"
  shows "(\<exists>out. encode_set_activation n (Some (0, r)) = Ok out \<and>
      decode_event event_SET_ACTIVATION out [Some a] limits =
        (Ok (Ev_SetActivation (Activation_Set n a r)), [None])) \<and>
    (\<exists>out. encode_set_activation n None = Ok out \<and>
      decode_event event_SET_ACTIVATION out [] limits = (Ok (Ev_SetActivation (Activation_Remove n)), []))"
proof -
  obtain out where out: "encode_payload (push_chain [push_int n, push_fd 0, push_region r]) = Ok out"
      "parse_payload out pop_set_activation = Ok (n, scast (0 :: 32 word), r)"
    by (rule encode_fits [OF codes_set_activation [of True n 0 r]]) (auto simp: MAX_ENCODE_CAPACITY_def)
  obtain out' where out': "encode_payload (push_chain [push_int n, push_fd (- 1), push_region clear_region]) = Ok out'"
      "parse_payload out' pop_set_activation = Ok (n, scast (- 1 :: 32 word), clear_region)"
    by (rule encode_fits [OF codes_set_activation [of True n "- 1" clear_region]]) (auto simp: MAX_ENCODE_CAPACITY_def)
  have "fds_get [Some a] 0 = Ok a"
    by (simp add: fds_get_def)
  then have "require_fds [Some a] [0] = Ok ()" "take_fd [Some a] 0 = (Ok a, [None])"
    by (simp_all add: require_fds_def take_fd_get)
  moreover have "fd_index 0 = Ok 0"
    using fd_index_small(2) [of 0] by simp
  moreover have "is_clear_region clear_region" "\<not> is_clear_region r"
    using region_ok_not_clear [OF assms] by (simp_all add: is_clear_region_def clear_region_def)
  ultimately show ?thesis
    using out out' assms
    by (auto simp: encode_set_activation_def decode_event_def decode_set_activation_def i32_try_from_u32_def opcode_defs)
qed

theorem set_activation_round_trip_witness:
  "\<exists>out. encode_set_activation 42 None = Ok out \<and>
    decode_event 10 out [] default_wire_limits = (Ok (Ev_SetActivation (Activation_Remove 42)), [])"
  using set_activation_round_trip [of "\<lparr>rr_memory_id = 3, rr_offset = 0, rr_size = 16\<rparr>" 42 7 default_wire_limits]
  by (auto simp: region_ok_def INVALID_ID_def event_SET_ACTIVATION_def)

text \<open>
  C6. PortUseBuffers survives the wire: every buffer set within the default limits, with valid
  regions and data ranges and without the allocation flag, is encoded (it never reaches the 16 MiB
  bound) and decoded to the same buffers, metas and datas.\<close>

theorem use_buffers_round_trip:
  assumes "use_buffers_ok default_wire_limits v"
  shows "\<exists>out. encode_port_use_buffers v = Ok out \<and>
    decode_event event_PORT_USE_BUFFERS out [] default_wire_limits = (Ok (Ev_PortUseBuffers v), [])"
proof -
  obtain out where out: "encode_payload (push_use_buffers v) = Ok out"
      "parse_payload out (pop_port_use_buffers default_wire_limits) = Ok (Ev_PortUseBuffers v)"
    by (rule encode_fits [OF codes_use_buffers [OF assms, of True] use_buffers_size_le [OF assms]])
  moreover have "validate_port_use_buffers v default_wire_limits = Ok ()"
    using assms validate_use_buffers_iff [of v] by (simp add: use_buffers_ok_def)
  ultimately show ?thesis
    by (simp add: encode_port_use_buffers_def decode_event_def opcode_defs)
qed

definition demo_buffers :: port_use_buffers where
  "demo_buffers = \<lparr>ub_direction = Output, ub_port_id = 0, ub_mix_id = Some 1, ub_flags = 0,
     ub_buffers = [\<lparr>bd_metadata = \<lparr>rr_memory_id = 5, rr_offset = 0, rr_size = 64\<rparr>,
       bd_metas = [\<lparr>md_type_id = 1, md_size = 32\<rparr>],
       bd_datas = [\<lparr>dd_type_id = 2, dd_data_id = 6, dd_flags = 3, dd_map_offset = 0, dd_max_size = 4096\<rparr>]\<rparr>]\<rparr>"

lemma demo_buffers_ok: "use_buffers_ok default_wire_limits demo_buffers"
  by (simp add: use_buffers_ok_def demo_buffers_def buffer_ok_def region_ok_def data_ok_def count_ok_def
      default_wire_limits_def INVALID_ID_def SPA_NODE_BUFFERS_FLAG_ALLOC_def)

theorem use_buffers_round_trip_witness:
  "\<exists>out. encode_port_use_buffers demo_buffers = Ok out \<and>
    decode_event 8 out [] default_wire_limits = (Ok (Ev_PortUseBuffers demo_buffers), [])"
  using use_buffers_round_trip [OF demo_buffers_ok] by (simp add: event_PORT_USE_BUFFERS_def)

text \<open>
  C30. The remaining events survive the wire: port IO assignments and clears, format parameters and
  their removal, and the three node commands.\<close>

theorem port_events_round_trip:
  assumes "m \<noteq> Some INVALID_ID" and "region_ok r" and "set_param_ok limits v" and
    "72 + param_size (sp_param v) \<le> MAX_ENCODE_CAPACITY"
  shows "(\<exists>out. encode_port_set_io (Io_Set d p m SPA_IO_BUFFERS r) = Ok out \<and>
      decode_event event_PORT_SET_IO out [] limits = (Ok (Ev_PortSetIo (Io_Set d p m SPA_IO_BUFFERS r)), [])) \<and>
    (\<exists>out. encode_port_set_io (Io_Clear d p m SPA_IO_BUFFERS) = Ok out \<and>
      decode_event event_PORT_SET_IO out [] limits = (Ok (Ev_PortSetIo (Io_Clear d p m SPA_IO_BUFFERS)), [])) \<and>
    (\<exists>out. encode_port_set_param v = Ok out \<and>
      decode_event event_PORT_SET_PARAM out [] limits = (Ok (Ev_PortSetParam v), [])) \<and>
    (\<exists>out. encode_command c = Ok out \<and> decode_event event_COMMAND out [] limits = (Ok (Ev_Command c), []))"
proof (intro conjI)
  obtain out where out: "encode_payload (push_chain [push_int (direction_u32 d), push_int p, push_int (wire_id m),
      push_id_u32 SPA_IO_BUFFERS, push_region r]) = Ok out"
      "parse_payload out pop_port_set_io = Ok (Ev_PortSetIo (Io_Set d p m SPA_IO_BUFFERS r))"
    by (rule encode_fits [OF codes_set_io [OF assms(1,2), of True]]) (auto simp: MAX_ENCODE_CAPACITY_def)
  then show "\<exists>out. encode_port_set_io (Io_Set d p m SPA_IO_BUFFERS r) = Ok out \<and>
      decode_event event_PORT_SET_IO out [] limits = (Ok (Ev_PortSetIo (Io_Set d p m SPA_IO_BUFFERS r)), [])"
    using assms(2) by (simp add: encode_port_set_io_def decode_event_def opcode_defs)
next
  obtain out where out: "encode_payload (push_chain [push_int (direction_u32 d), push_int p, push_int (wire_id m),
      push_id_u32 SPA_IO_BUFFERS, push_region clear_region]) = Ok out"
      "parse_payload out pop_port_set_io = Ok (Ev_PortSetIo (Io_Clear d p m SPA_IO_BUFFERS))"
    by (rule encode_fits [OF codes_clear_io [OF assms(1), of True]]) (auto simp: MAX_ENCODE_CAPACITY_def)
  then show "\<exists>out. encode_port_set_io (Io_Clear d p m SPA_IO_BUFFERS) = Ok out \<and>
      decode_event event_PORT_SET_IO out [] limits = (Ok (Ev_PortSetIo (Io_Clear d p m SPA_IO_BUFFERS)), [])"
    by (simp add: encode_port_set_io_def decode_event_def opcode_defs is_clear_region_def clear_region_def)
next
  obtain out where out: "encode_payload (push_set_param v) = Ok out"
      "parse_payload out (pop_port_set_param limits) = Ok (Ev_PortSetParam v)"
    by (rule encode_fits [OF codes_set_param [OF assms(3), of True]]) (use assms(4) in auto)
  then show "\<exists>out. encode_port_set_param v = Ok out \<and>
      decode_event event_PORT_SET_PARAM out [] limits = (Ok (Ev_PortSetParam v), [])"
    using assms(3)
    by (auto simp: encode_port_set_param_def push_set_param_def decode_event_def opcode_defs set_param_ok_def
        format_pod_def split: option.splits)
next
  obtain out where "encode_payload (push_pod pod_raw \<lparr>rp_size = 16, rp_type = Type_Object, rp_data = command_bytes c\<rparr>) = Ok out"
      "parse_payload out pop_command = Ok (Ev_Command c)"
    by (rule encode_fits [OF codes_command [OF command_pod_eq, of True c]]) (auto simp: MAX_ENCODE_CAPACITY_def)
  then show "\<exists>out. encode_command c = Ok out \<and> decode_event event_COMMAND out [] limits = (Ok (Ev_Command c), [])"
    by (simp add: encode_command_def command_pod_eq decode_event_def opcode_defs)
qed

theorem port_events_round_trip_witness:
  "\<exists>out. encode_command Pause = Ok out \<and> decode_event 4 out [] default_wire_limits = (Ok (Ev_Command Pause), [])"
  using port_events_round_trip [of None "\<lparr>rr_memory_id = 3, rr_offset = 0, rr_size = 16\<rparr>" default_wire_limits
      "\<lparr>sp_direction = Input, sp_port_id = 0, sp_param_id = 4, sp_flags = 0, sp_param = None\<rparr>" Input 0 Pause]
  by (simp add: region_ok_def INVALID_ID_def set_param_ok_def SPA_PARAM_FORMAT_def param_size_def
      MAX_ENCODE_CAPACITY_def event_COMMAND_def)

text \<open>
  C4. No payload, opcode, descriptor list or limit makes a ClientNode decoder panic.\<close>

theorem decoders_never_panic:
  "decode_method op payload limits \<noteq> Panic \<and> fst (decode_event op payload fds limits) \<noteq> Panic"
proof -
  obtain r fds' where "decode_event op payload fds limits = (r, fds')"
    by (cases "decode_event op payload fds limits")
  with decode_event_fds [of fds op payload limits] show ?thesis
    by (auto simp: fds_post_def decode_method_total)
qed

text \<open>
  C12. Whatever is decoded is within the limits: counts and parameter sizes are bounded, strings are
  UTF-8, regions and data ranges are not empty and do not overflow 32 bits, and only the supported
  parameters, IO areas and flags come through.\<close>

theorem decoded_within_limits:
  "(case decode_method op payload limits of Ok m \<Rightarrow> method_within limits m | _ \<Rightarrow> True) \<and>
   (case fst (decode_event op payload fds limits) of Ok ev \<Rightarrow> event_within limits ev | _ \<Rightarrow> True)"
  using decode_method_within [of op payload limits] decode_event_within [of op payload fds limits]
  by (cases "decode_event op payload fds limits") (auto split: result.splits)

text \<open>
  C10. An event owns its descriptors, all or none: after a decoded event no descriptor is left in the
  frame and the event holds exactly the descriptors the frame carried; a rejected event has taken
  none, so dropping the frame closes every one of them.\<close>

theorem event_fds_all_or_none:
  "(case decode_event op payload fds limits of
      (Ok ev, fds') \<Rightarrow> mset (map Some (event_fds ev)) = mset fds \<and> fds' = map (\<lambda>_. None) fds
    | (Err e, fds') \<Rightarrow> fds' = fds
    | (Panic, fds') \<Rightarrow> False)"
  using decode_event_fds [of fds op payload limits] by (simp add: fds_post_def)

end
