(* ===== verification/Op_Logic.thy ===== *)
theory Op_Logic
  imports Prelude
begin

text \<open>
  Operations on a state that may fail: the sequencing of Rust statements with \<open>?\<close>, and a small
  Hoare logic for them. A triple \<open>valid P m Q E\<close> says that from a state in \<open>P\<close> the operation does
  not panic, that a value and the state left behind satisfy \<open>Q\<close>, and that an error and the state
  left behind satisfy \<open>E\<close>: an early return keeps what was done before it.
\<close>

type_synonym ('s, 'a, 'e) op = "'s \<Rightarrow> ('a, 'e) result \<times> 's"

section \<open>Sequencing\<close>

definition obind :: "('s, 'a, 'e) op \<Rightarrow> ('a \<Rightarrow> ('s, 'b, 'e) op) \<Rightarrow> ('s, 'b, 'e) op" where
  "obind m f s = (case m s of
     (Ok x, s') \<Rightarrow> f x s'
   | (Err e, s') \<Rightarrow> (Err e, s')
   | (Panic, s') \<Rightarrow> (Panic, s'))"

definition olift :: "('a, 'e) result \<Rightarrow> ('s, 'a, 'e) op" where
  "olift r s = (r, s)"

abbreviation oreturn :: "'a \<Rightarrow> ('s, 'a, 'e) op" where
  "oreturn x \<equiv> olift (Ok x)"

abbreviation ofail :: "'e \<Rightarrow> ('s, 'a, 'e) op" where
  "ofail e \<equiv> olift (Err e)"

abbreviation othen :: "('s, 'a, 'e) op \<Rightarrow> ('s, 'b, 'e) op \<Rightarrow> ('s, 'b, 'e) op" where
  "othen m n \<equiv> obind m (\<lambda>_. n)"

definition oget :: "('s, 's, 'e) op" where
  "oget s = (Ok s, s)"

definition omodify :: "('s \<Rightarrow> 's) \<Rightarrow> ('s, unit, 'e) op" where
  "omodify f s = (Ok (), f s)"

text \<open>\<open>map_err\<close> and \<open>let _ = \<dots>\<close>, the call whose result is dropped.\<close>

definition omap_err :: "('e \<Rightarrow> 'f) \<Rightarrow> ('s, 'a, 'e) op \<Rightarrow> ('s, 'a, 'f) op" where
  "omap_err g m s = (case m s of (r, s') \<Rightarrow> (map_err g r, s'))"

definition oignore :: "('s, 'a, 'e) op \<Rightarrow> ('s, unit, 'f) op" where
  "oignore m s = (case m s of
     (Ok _, s') \<Rightarrow> (Ok (), s')
   | (Err _, s') \<Rightarrow> (Ok (), s')
   | (Panic, s') \<Rightarrow> (Panic, s'))"

text \<open>A value whose destructor runs when the statements that follow return early.\<close>

definition on_error :: "('s, 'a, 'e) op \<Rightarrow> ('s, unit, 'e) op \<Rightarrow> ('s, 'a, 'e) op" where
  "on_error m cleanup s = (case m s of
     (Ok x, s') \<Rightarrow> (Ok x, s')
   | (Err e, s') \<Rightarrow> othen cleanup (ofail e) s'
   | (Panic, s') \<Rightarrow> othen cleanup (olift Panic) s')"

text \<open>A branch that handles an error and passes it on.\<close>

definition on_failure :: "('s, 'a, 'e) op \<Rightarrow> ('s, unit, 'e) op \<Rightarrow> ('s, 'a, 'e) op" where
  "on_failure m handler s = (case m s of (Err e, s') \<Rightarrow> othen handler (ofail e) s' | res \<Rightarrow> res)"

text \<open>A destructor that runs however the statements before it end.\<close>

definition ofinally :: "('s, 'a, 'e) op \<Rightarrow> ('s, unit, 'e) op \<Rightarrow> ('s, 'a, 'e) op" where
  "ofinally m destroy s = (case m s of (r, s') \<Rightarrow>
     (case destroy s' of (Ok _, s'') \<Rightarrow> (r, s'') | (_, s'') \<Rightarrow> (Panic, s'')))"

text \<open>An operation on the second component, the world that a session acts on.\<close>

definition on_snd :: "('w, 'a, 'e) op \<Rightarrow> ('s \<times> 'w, 'a, 'e) op" where
  "on_snd m sw = (case m (snd sw) of (r, w') \<Rightarrow> (r, (fst sw, w')))"

fun oeach :: "('x \<Rightarrow> ('s, 'a, 'e) op) \<Rightarrow> 'x list \<Rightarrow> ('s, 'a list, 'e) op" where
  "oeach f [] = oreturn []"
| "oeach f (x # xs) = obind (f x) (\<lambda>y. obind (oeach f xs) (\<lambda>ys. oreturn (y # ys)))"

lemma olift_apply [simp]: "olift r s = (r, s)"
  by (simp add: olift_def)

lemma obind_apply [simp]:
  "m s = (Ok x, s') \<Longrightarrow> obind m f s = f x s'"
  "m s = (Err e, s') \<Longrightarrow> obind m f s = (Err e, s')"
  "m s = (Panic, s') \<Longrightarrow> obind m f s = (Panic, s')"
  by (simp_all add: obind_def)

lemma obind_olift [simp]:
  "obind (olift (Ok x)) f = f x"
  "obind (olift (Err e)) f = olift (Err e)"
  "obind (olift Panic) f = olift Panic"
  by (auto simp: fun_eq_iff obind_def)

lemma obind_assoc: "obind (obind m f) g = obind m (\<lambda>x. obind (f x) g)"
  by (auto simp: fun_eq_iff obind_def split: result.splits prod.splits)

lemma oget_apply [simp]: "oget s = (Ok s, s)"
  by (simp add: oget_def)

lemma omodify_apply [simp]: "omodify f s = (Ok (), f s)"
  by (simp add: omodify_def)

lemma obind_eq_Ok_iff:
  "obind m f s = (Ok y, s'') \<longleftrightarrow> (\<exists>x s'. m s = (Ok x, s') \<and> f x s' = (Ok y, s''))"
  by (auto simp: obind_def split: result.splits prod.splits)

lemma on_snd_apply: "m w = (r, w') \<Longrightarrow> on_snd m (s, w) = (r, (s, w'))"
  by (simp add: on_snd_def)

section \<open>Triples\<close>

definition ends :: "('a \<Rightarrow> 's \<Rightarrow> bool) \<Rightarrow> ('e \<Rightarrow> 's \<Rightarrow> bool) \<Rightarrow> ('a, 'e) result \<times> 's \<Rightarrow> bool" where
  "ends Q E rs = (case rs of (Ok x, s) \<Rightarrow> Q x s | (Err e, s) \<Rightarrow> E e s | (Panic, s) \<Rightarrow> False)"

definition valid :: "('s \<Rightarrow> bool) \<Rightarrow> ('s, 'a, 'e) op \<Rightarrow> ('a \<Rightarrow> 's \<Rightarrow> bool) \<Rightarrow> ('e \<Rightarrow> 's \<Rightarrow> bool) \<Rightarrow> bool" where
  "valid P m Q E \<longleftrightarrow> (\<forall>s. P s \<longrightarrow> ends Q E (m s))"

text \<open>An operation that keeps a property of the state on every path.\<close>

abbreviation keeps :: "('s \<Rightarrow> bool) \<Rightarrow> ('s, 'a, 'e) op \<Rightarrow> bool" where
  "keeps I m \<equiv> valid I m (\<lambda>_. I) (\<lambda>_. I)"

named_theorems op_rules \<open>triples of operations, for use with \<open>intro\<close>\<close>

lemma ends_simps [simp]:
  "ends Q E (Ok x, s) = Q x s"
  "ends Q E (Err e, s) = E e s"
  "ends Q E (Panic, s) = False"
  by (simp_all add: ends_def)

lemma validI: "(\<And>s. P s \<Longrightarrow> ends Q E (m s)) \<Longrightarrow> valid P m Q E"
  by (simp add: valid_def)

lemma validD: "valid P m Q E \<Longrightarrow> P s \<Longrightarrow> ends Q E (m s)"
  by (simp add: valid_def)

lemma valid_Ok: "valid P m Q E \<Longrightarrow> P s \<Longrightarrow> m s = (Ok x, s') \<Longrightarrow> Q x s'"
  using validD [of P m Q E s] by simp

lemma valid_Err: "valid P m Q E \<Longrightarrow> P s \<Longrightarrow> m s = (Err e, s') \<Longrightarrow> E e s'"
  using validD [of P m Q E s] by simp

lemma valid_no_panic: "valid P m Q E \<Longrightarrow> P s \<Longrightarrow> fst (m s) \<noteq> Panic"
  using validD [of P m Q E s] by (auto simp: ends_def split: prod.splits)

lemma valid_bind:
  assumes "valid P m R E" and "\<And>x. valid (R x) (f x) Q E"
  shows "valid P (obind m f) Q E"
proof (rule validI)
  fix s
  assume "P s"
  then have m: "ends R E (m s)"
    using assms(1) by (simp add: valid_def)
  obtain r s' where "m s = (r, s')"
    by (cases "m s")
  then show "ends Q E (obind m f s)"
    using m assms(2) by (cases r) (auto simp: valid_def obind_def)
qed

lemma valid_olift [op_rules]:
  assumes "\<And>s. P s \<Longrightarrow> (case r of Ok x \<Rightarrow> Q x s | Err e \<Rightarrow> E e s | Panic \<Rightarrow> False)"
  shows "valid P (olift r) Q E"
  using assms by (auto simp: valid_def ends_def split: result.splits)

lemma valid_oreturn: "(\<And>s. P s \<Longrightarrow> Q x s) \<Longrightarrow> valid P (oreturn x) Q E"
  by (simp add: valid_def)

lemma valid_ofail: "(\<And>s. P s \<Longrightarrow> E e s) \<Longrightarrow> valid P (ofail e) Q E"
  by (simp add: valid_def)

lemma valid_oget: "(\<And>s. P s \<Longrightarrow> Q s s) \<Longrightarrow> valid P oget Q E"
  by (simp add: valid_def)

lemma valid_omodify: "(\<And>s. P s \<Longrightarrow> Q () (f s)) \<Longrightarrow> valid P (omodify f) Q E"
  by (simp add: valid_def)

lemma valid_conseq:
  assumes "valid P' m Q' E'" and "\<And>s. P s \<Longrightarrow> P' s" and "\<And>x s. Q' x s \<Longrightarrow> Q x s" and "\<And>e s. E' e s \<Longrightarrow> E e s"
  shows "valid P m Q E"
  using assms by (fastforce simp: valid_def ends_def split: result.splits prod.splits)

lemma valid_pre: "valid P' m Q E \<Longrightarrow> (\<And>s. P s \<Longrightarrow> P' s) \<Longrightarrow> valid P m Q E"
  by (rule valid_conseq)

lemma valid_if: "(b \<Longrightarrow> valid P m Q E) \<Longrightarrow> (\<not> b \<Longrightarrow> valid P n Q E) \<Longrightarrow> valid P (if b then m else n) Q E"
  by simp

lemma valid_omap_err:
  assumes "valid P m Q (\<lambda>e. E (g e))"
  shows "valid P (omap_err g m) Q E"
  using assms by (fastforce simp: valid_def ends_def omap_err_def map_err_def split: result.splits prod.splits)

lemma valid_oignore:
  assumes "valid P m (\<lambda>_. Q ()) (\<lambda>_. Q ())"
  shows "valid P (oignore m) Q E"
  using assms by (fastforce simp: valid_def ends_def oignore_def split: result.splits prod.splits)

lemma valid_on_error:
  assumes "valid P m Q R" and "\<And>e. valid (R e) cleanup (\<lambda>_. E e) (\<lambda>_ _. False)"
  shows "valid P (on_error m cleanup) Q E"
proof (rule validI)
  fix s
  assume P: "P s"
  obtain r s' where m: "m s = (r, s')"
    by (cases "m s")
  show "ends Q E (on_error m cleanup s)"
  proof (cases r)
    case (Err e)
    then have "ends (\<lambda>_. E e) (\<lambda>_ _. False) (cleanup s')"
      using validD [OF assms(1) P] validD [OF assms(2)] m by simp
    then show ?thesis
      using m Err by (auto simp: on_error_def obind_def ends_def split: result.splits prod.splits)
  qed (use validD [OF assms(1) P] m in \<open>simp_all add: on_error_def\<close>)
qed

lemma valid_oeach:
  assumes "\<And>x. x \<in> set xs \<Longrightarrow> keeps I (f x)"
  shows "keeps I (oeach f xs)"
  using assms
proof (induction xs)
  case (Cons x xs)
  then show ?case
    by (auto intro!: valid_bind [where R = "\<lambda>_. I"] valid_oreturn)
qed (simp add: valid_oreturn)

text \<open>What holds of the session holds after any operation on the world that does not panic.\<close>

definition total_op :: "('s, 'a, 'e) op \<Rightarrow> bool" where
  "total_op m \<longleftrightarrow> (\<forall>s. fst (m s) \<noteq> Panic)"

named_theorems total_intros \<open>operations that never panic\<close>

lemma total_olift [total_intros]: "r \<noteq> Panic \<Longrightarrow> total_op (olift r)"
  by (simp add: total_op_def)

lemma total_obind [total_intros]: "total_op m \<Longrightarrow> (\<And>x. total_op (f x)) \<Longrightarrow> total_op (obind m f)"
  unfolding total_op_def obind_def
  by (auto split: prod.splits result.splits) (metis fst_conv)

lemma total_oget [total_intros]: "total_op oget"
  by (simp add: total_op_def)

lemma total_omodify [total_intros]: "total_op (omodify f)"
  by (simp add: total_op_def)

lemma total_omap_err [total_intros]: "total_op m \<Longrightarrow> total_op (omap_err g m)"
  unfolding total_op_def omap_err_def
  by (auto simp: map_err_eq_Panic_iff split: prod.splits) (metis fst_conv)

lemma total_oignore [total_intros]: "total_op m \<Longrightarrow> total_op (oignore m)"
  unfolding total_op_def oignore_def by (auto split: prod.splits result.splits) (metis fst_conv)

lemma total_if [total_intros]:
  "(b \<Longrightarrow> total_op m) \<Longrightarrow> (\<not> b \<Longrightarrow> total_op n) \<Longrightarrow> total_op (if b then m else n)"
  by simp

lemma total_case_option [total_intros]:
  "total_op m \<Longrightarrow> (\<And>x. total_op (f x)) \<Longrightarrow> total_op (case v of None \<Rightarrow> m | Some x \<Rightarrow> f x)"
  by (cases v) simp_all

lemma total_case_prod [total_intros]: "(\<And>x y. total_op (f x y)) \<Longrightarrow> total_op (case v of (x, y) \<Rightarrow> f x y)"
  by (cases v) simp

lemma total_oeach [total_intros]: "(\<And>x. total_op (f x)) \<Longrightarrow> total_op (oeach f xs)"
  by (induction xs) (auto intro!: total_intros)

lemma total_on_error [total_intros]:
  "total_op m \<Longrightarrow> total_op cleanup \<Longrightarrow> total_op (on_error m cleanup)"
  unfolding total_op_def on_error_def obind_def
  by (auto split: prod.splits result.splits) (metis fst_conv)+

lemma valid_on_snd:
  assumes "total_op m"
  shows "valid (\<lambda>sw. P (fst sw)) (on_snd m) (\<lambda>_ sw. P (fst sw)) (\<lambda>_ sw. P (fst sw))"
  using assms by (auto simp: valid_def total_op_def on_snd_def ends_def split: prod.splits result.splits)
    (metis fst_conv)

section \<open>Weakest preconditions\<close>

text \<open>
  Rules whose precondition is computed from the operation and the two postconditions. A triple is
  proved by \<open>valid_pre\<close>, these rules, and one implication between state predicates.
\<close>

named_theorems wp \<open>weakest preconditions\<close>

lemma wp_bind [wp]: "(\<And>x. valid (R x) (f x) Q E) \<Longrightarrow> valid P m R E \<Longrightarrow> valid P (obind m f) Q E"
  by (rule valid_bind)

lemma wp_olift [wp]:
  "valid (\<lambda>s. case r of Ok x \<Rightarrow> Q x s | Err e \<Rightarrow> E e s | Panic \<Rightarrow> False) (olift r) Q E"
  by (rule valid_olift)

lemma wp_oget [wp]: "valid (\<lambda>s. Q s s) oget Q E"
  by (rule valid_oget)

lemma wp_omodify [wp]: "valid (\<lambda>s. Q () (f s)) (omodify f) Q E"
  by (rule valid_omodify)

lemma wp_if [wp]:
  "valid P m Q E \<Longrightarrow> valid P' n Q E \<Longrightarrow> valid (\<lambda>s. (b \<longrightarrow> P s) \<and> (\<not> b \<longrightarrow> P' s)) (if b then m else n) Q E"
  by (simp add: valid_def)

lemma wp_case_option [wp]:
  "valid P m Q E \<Longrightarrow> (\<And>x. valid (P' x) (f x) Q E) \<Longrightarrow>
    valid (\<lambda>s. case v of None \<Rightarrow> P s | Some x \<Rightarrow> P' x s) (case v of None \<Rightarrow> m | Some x \<Rightarrow> f x) Q E"
  by (cases v) simp_all

lemma wp_case_prod [wp]:
  "(\<And>x y. valid (P x y) (f x y) Q E) \<Longrightarrow>
    valid (\<lambda>s. case v of (x, y) \<Rightarrow> P x y s) (case v of (x, y) \<Rightarrow> f x y) Q E"
  by (cases v) simp

lemma wp_omap_err [wp]: "valid P m Q (\<lambda>e. E (g e)) \<Longrightarrow> valid P (omap_err g m) Q E"
  by (rule valid_omap_err)

lemma wp_oignore [wp]: "valid P m (\<lambda>_. Q ()) (\<lambda>_. Q ()) \<Longrightarrow> valid P (oignore m) Q E"
  by (rule valid_oignore)

lemma wp_on_error [wp]:
  "(\<And>e. valid (R e) cleanup (\<lambda>_. E e) (\<lambda>_ _. False)) \<Longrightarrow> valid P m Q R \<Longrightarrow> valid P (on_error m cleanup) Q E"
  by (rule valid_on_error)

lemma wp_on_failure [wp]:
  assumes "\<And>e. valid (R e) handler (\<lambda>_. E e) (\<lambda>_ _. False)" and "valid P m Q R"
  shows "valid P (on_failure m handler) Q E"
proof (rule validI)
  fix s
  assume P: "P s"
  obtain r s' where m: "m s = (r, s')"
    by (cases "m s")
  show "ends Q E (on_failure m handler s)"
  proof (cases r)
    case (Err e)
    then have "ends (\<lambda>_. E e) (\<lambda>_ _. False) (handler s')"
      using validD [OF assms(2) P] validD [OF assms(1)] m by simp
    then show ?thesis
      using m Err by (auto simp: on_failure_def obind_def ends_def split: result.splits prod.splits)
  qed (use validD [OF assms(2) P] m in \<open>simp_all add: on_failure_def\<close>)
qed

text \<open>What every value of an operation satisfies, whatever the state.\<close>

definition yields :: "('s, 'a, 'e) op \<Rightarrow> ('a \<Rightarrow> bool) \<Rightarrow> bool" where
  "yields m R \<longleftrightarrow> (\<forall>s x s'. m s = (Ok x, s') \<longrightarrow> R x)"

lemma yields_obind:
  assumes "yields m R" and "\<And>x. R x \<Longrightarrow> yields (f x) S"
  shows "yields (obind m f) S"
  using assms unfolding yields_def obind_eq_Ok_iff by blast

lemma yields_olift: "(\<And>x. r = Ok x \<Longrightarrow> R x) \<Longrightarrow> yields (olift r) R"
  by (simp add: yields_def)

lemma yields_omap_err: "yields m R \<Longrightarrow> yields (omap_err g m) R"
  by (auto simp: yields_def omap_err_def map_err_eq_Ok_iff split: prod.splits)

lemma yields_True: "yields m (\<lambda>_. True)"
  by (simp add: yields_def)

lemma wp_on_snd_yields:
  "total_op m \<Longrightarrow> yields m R \<Longrightarrow>
    valid (\<lambda>sw. \<forall>w'. (\<forall>x. R x \<longrightarrow> Q x (fst sw, w')) \<and> (\<forall>e. E e (fst sw, w'))) (on_snd m) Q E"
  unfolding valid_def total_op_def on_snd_def ends_def yields_def
  by (auto split: prod.splits result.splits) (metis fst_conv)+

lemma wp_on_snd:
  "total_op m \<Longrightarrow> valid (\<lambda>sw. \<forall>w'. (\<forall>x. Q x (fst sw, w')) \<and> (\<forall>e. E e (fst sw, w'))) (on_snd m) Q E"
  by (auto simp: valid_def total_op_def on_snd_def ends_def split: prod.splits result.splits) (metis fst_conv)

lemma wp_assuming: "(c \<Longrightarrow> valid P m Q E) \<Longrightarrow> valid (\<lambda>s. c \<and> P s) m Q E"
  by (auto simp: valid_def)

lemma wp_triple:
  "valid P m R S \<Longrightarrow> valid (\<lambda>s. P s \<and> (\<forall>x s'. R x s' \<longrightarrow> Q x s') \<and> (\<forall>e s'. S e s' \<longrightarrow> E e s')) m Q E"
  by (auto simp: valid_def ends_def split: prod.splits result.splits)

lemma valid_snd: "valid P m (\<lambda>_. Q) (\<lambda>_. Q) \<Longrightarrow> P s \<Longrightarrow> Q (snd (m s))"
  by (cases "m s"; cases "fst (m s)") (auto dest!: validD [of P m _ _ s])

lemma valid_conj: "valid P m Q E \<Longrightarrow> valid P m Q' E' \<Longrightarrow> valid P m (\<lambda>x s. Q x s \<and> Q' x s) (\<lambda>e s. E e s \<and> E' e s)"
  by (auto simp: valid_def ends_def split: prod.splits result.splits)

lemma yieldsD: "yields m R \<Longrightarrow> m s = (Ok x, s') \<Longrightarrow> R x"
  by (auto simp: yields_def)

lemma yields_if: "yields m R \<Longrightarrow> yields n R \<Longrightarrow> yields (if b then m else n) R"
  by simp

lemma omap_err_eq_Ok_iff: "omap_err g m s = (Ok x, s') \<longleftrightarrow> m s = (Ok x, s')"
  by (auto simp: omap_err_def map_err_eq_Ok_iff split: prod.splits)

lemma yields_ofail [simp]: "yields (ofail e) R"
  by (simp add: yields_def)

end
