(* ===== verification/Node_World.thy ===== *)
theory Node_World
  imports Op_Logic Frame_Header
begin

text \<open>
  The world a node session acts on: the shared memory behind imported descriptors, event counters
  and the answers of the kernel. Other processes and the kernel are a script of arbitrary changes
  of that state; one entry takes effect before each access of the session, so a script is one
  interleaving. Accesses are sequentially consistent. Constants of the C library are the fields of
  a record.
\<close>

section \<open>State\<close>

record backing_identity =
  device :: u64
  inode :: u64

type_synonym shared_memory = "backing_identity \<Rightarrow> nat \<Rightarrow> byte"

text \<open>\<open>struct stat\<close> as the code reads it; \<open>st_size\<close> is signed.\<close>

record stat =
  st_size :: i64
  st_identity :: backing_identity

text \<open>
  \<open>c_seals\<close> is \<open>None\<close> where \<open>F_GET_SEALS\<close> fails (no caller looks at its errno). Duplicated descriptors share an open file
  description and so its counter. \<open>c_errno\<close> makes the next system call fail, \<open>c_short\<close> makes the
  next \<open>read\<close> or \<open>write\<close> move fewer than eight bytes. \<open>c_mmap\<close> is the address the next mapping
  gets and \<open>c_dup\<close> the number the next duplicate gets.
\<close>

record core =
  c_mem :: shared_memory
  c_stat :: "raw_fd \<Rightarrow> stat"
  c_seals :: "raw_fd \<Rightarrow> i32 option"
  c_flags :: "raw_fd \<Rightarrow> i32"
  c_description :: "raw_fd \<Rightarrow> nat"
  c_counter :: "nat \<Rightarrow> u64"
  c_mmap :: nat
  c_dup :: raw_fd
  c_page_size :: i64
  c_errno :: "i32 option"
  c_short :: bool

record libc =
  EAGAIN :: i32
  EWOULDBLOCK :: i32
  EIO :: i32
  O_NONBLOCK :: i32
  F_SEAL_SHRINK :: i32

record world =
  w_core :: core
  w_script :: "(core \<Rightarrow> core) list"
  w_libc :: libc

definition tick :: "world \<Rightarrow> world" where
  "tick w = (case w_script w of
     [] \<Rightarrow> w
   | f # fs \<Rightarrow> w\<lparr>w_core := f (w_core w), w_script := fs\<rparr>)"

lemma tick_quiet [simp]: "w_script w = [] \<Longrightarrow> tick w = w"
  by (simp add: tick_def)

lemma tick_script [simp]: "w_script (tick w) = tl (w_script w)"
  by (cases "w_script w") (simp_all add: tick_def)

lemma tick_libc [simp]: "w_libc (tick w) = w_libc w"
  by (cases "w_script w") (simp_all add: tick_def)

definition get_libc :: "(world, libc, 'e) op" where
  "get_libc w = (Ok (w_libc w), w)"

lemma total_get_libc [total_intros]: "total_op get_libc"
  by (simp add: total_op_def get_libc_def)

section \<open>Errors of the system interface\<close>

datatype (plugins only: code size) sys_error =
    Os i32
  | Would_block
  | Short_read
  | Short_write
  | Unsupported_size
  | Zero_length
  | Range_overflow
  | Too_large
  | Beyond_file
  | Not_sealed
  | No_page_size
  | Zero_page_size
  | Physical_overflow
  | Physical_too_large
  | Offset_too_large
  | Null_mapping
  | Memory_not_registered u32

text \<open>\<open>error.kind() == ErrorKind::WouldBlock\<close>; the standard library maps both names to it.\<close>

definition kind_would_block :: "libc \<Rightarrow> sys_error \<Rightarrow> bool" where
  "kind_would_block l e = (case e of Would_block \<Rightarrow> True | Os n \<Rightarrow> n = EAGAIN l \<or> n = EWOULDBLOCK l | _ \<Rightarrow> False)"

section \<open>System calls\<close>

definition syscall :: "(core \<Rightarrow> ('a, i32) result \<times> core) \<Rightarrow> (world, 'a, i32) op" where
  "syscall f w =
     (let w = tick w in
      case c_errno (w_core w) of
        Some e \<Rightarrow> (Err e, w\<lparr>w_core := (w_core w)\<lparr>c_errno := None\<rparr>\<rparr>)
      | None \<Rightarrow> (case f (w_core w) of (r, c) \<Rightarrow> (r, w\<lparr>w_core := c\<rparr>)))"

definition sys_fstat :: "raw_fd \<Rightarrow> (world, stat, i32) op" where
  "sys_fstat fd = syscall (\<lambda>c. (Ok (c_stat c fd), c))"

definition sys_get_seals :: "raw_fd \<Rightarrow> (world, i32, i32) op" where
  "sys_get_seals fd = syscall (\<lambda>c. (case c_seals c fd of Some s \<Rightarrow> Ok s | None \<Rightarrow> Err 22, c))"

definition sys_getfl :: "raw_fd \<Rightarrow> (world, i32, i32) op" where
  "sys_getfl fd = syscall (\<lambda>c. (Ok (c_flags c fd), c))"

definition sys_setfl :: "raw_fd \<Rightarrow> i32 \<Rightarrow> (world, unit, i32) op" where
  "sys_setfl fd flags = syscall (\<lambda>c. (Ok (), c\<lparr>c_flags := (c_flags c)(fd := flags)\<rparr>))"

definition sys_mmap :: "(world, nat, i32) op" where
  "sys_mmap = syscall (\<lambda>c. (Ok (c_mmap c), c))"

definition sys_page_size :: "(world, i64, 'e) op" where
  "sys_page_size w = (let w = tick w in (Ok (c_page_size (w_core w)), w))"

definition sys_dup :: "raw_fd \<Rightarrow> (world, raw_fd, i32) op" where
  "sys_dup fd = syscall (\<lambda>c. (Ok (c_dup c),
     c\<lparr>c_description := (c_description c)(c_dup c := c_description c fd),
       c_flags := (c_flags c)(c_dup c := c_flags c fd)\<rparr>))"

text \<open>
  \<open>read\<close> of an event counter hands out and clears it, and fails with \<open>EAGAIN\<close> at zero; \<open>write\<close>
  adds to it, and fails with \<open>EAGAIN\<close> where the sum exceeds the largest counter \<open>2^64 - 2\<close>. The
  value comes with the number of bytes moved.
\<close>

definition sys_read :: "raw_fd \<Rightarrow> (world, nat \<times> u64, i32) op" where
  "sys_read fd w = syscall (\<lambda>c.
     (let d = c_description c fd; n = c_counter c d in
      if c_short c then (Ok (0, 0), c\<lparr>c_short := False\<rparr>)
      else if n = 0 then (Err (EAGAIN (w_libc w)), c)
      else (Ok (8, n), c\<lparr>c_counter := (c_counter c)(d := 0)\<rparr>))) w"

definition sys_write :: "raw_fd \<Rightarrow> u64 \<Rightarrow> (world, nat, i32) op" where
  "sys_write fd v w = syscall (\<lambda>c.
     (let d = c_description c fd; n = c_counter c d in
      if c_short c then (Ok 0, c\<lparr>c_short := False\<rparr>)
      else if unat n + unat v > 2 ^ 64 - 2 then (Err (EAGAIN (w_libc w)), c)
      else (Ok 8, c\<lparr>c_counter := (c_counter c)(d := n + v)\<rparr>))) w"

lemma syscall_total: "(\<And>c. fst (f c) \<noteq> Panic) \<Longrightarrow> total_op (syscall f)"
  by (auto simp: total_op_def syscall_def Let_def split: option.splits prod.splits) (metis fst_conv)

lemma sys_total [total_intros]:
  "total_op (sys_fstat fd)" "total_op (sys_get_seals fd)" "total_op (sys_getfl fd)"
  "total_op (sys_setfl fd flags)" "total_op sys_mmap" "total_op (sys_dup fd)" "total_op sys_page_size"
  unfolding sys_fstat_def sys_get_seals_def sys_getfl_def sys_setfl_def sys_mmap_def sys_dup_def
  by (rule syscall_total; simp split: option.splits)+ (simp_all add: total_op_def sys_page_size_def Let_def)

lemma sys_rw_total [total_intros]: "total_op (sys_read fd)" "total_op (sys_write fd v)"
  by (auto simp: total_op_def sys_read_def sys_write_def syscall_def Let_def split: option.splits)

section \<open>Event descriptors\<close>

text \<open>\<open>signal::eventfd\<close>. An \<open>EventFd\<close> is the descriptor it owns.\<close>

definition set_nonblocking :: "raw_fd \<Rightarrow> (world, unit, sys_error) op" where
  "set_nonblocking fd =
     obind get_libc (\<lambda>l.
     obind (omap_err Os (sys_getfl fd)) (\<lambda>flags.
       if flags AND O_NONBLOCK l = O_NONBLOCK l then oreturn ()
       else omap_err Os (sys_setfl fd (flags OR O_NONBLOCK l))))"

definition from_owned_fd :: "raw_fd \<Rightarrow> (world, raw_fd, sys_error) op" where
  "from_owned_fd fd = othen (set_nonblocking fd) (oreturn fd)"

definition try_clone :: "raw_fd \<Rightarrow> (world, raw_fd, sys_error) op" where
  "try_clone fd = obind (omap_err Os (sys_dup fd)) from_owned_fd"

definition read_eventfd :: "raw_fd \<Rightarrow> (world, u64, sys_error) op" where
  "read_eventfd fd w = (case sys_read fd w of
     (Ok (n, v), w') \<Rightarrow> (if n \<noteq> 8 then Err Short_read else Ok v, w')
   | (Err e, w') \<Rightarrow> (if e = EAGAIN (w_libc w) \<or> e = EWOULDBLOCK (w_libc w) then Err Would_block else Err (Os e), w')
   | (Panic, w') \<Rightarrow> (Panic, w'))"

definition write_eventfd :: "raw_fd \<Rightarrow> u64 \<Rightarrow> (world, unit, sys_error) op" where
  "write_eventfd fd v = obind (omap_err Os (sys_write fd v)) (\<lambda>n. if n \<noteq> 8 then ofail Short_write else oreturn ())"

definition drain :: "raw_fd \<Rightarrow> (world, u64, sys_error) op" where
  "drain fd = read_eventfd fd"

definition signal :: "raw_fd \<Rightarrow> u64 \<Rightarrow> (world, unit, sys_error) op" where
  "signal fd v = write_eventfd fd v"

lemma total_set_nonblocking [total_intros]: "total_op (set_nonblocking fd)"
  unfolding set_nonblocking_def by (intro total_intros) simp

lemma total_eventfd [total_intros]:
  "total_op (from_owned_fd fd)" "total_op (try_clone fd)" "total_op (drain fd)" "total_op (signal fd v)"
proof -
  show "total_op (drain fd)"
    using sys_rw_total(1) [of fd]
    by (auto simp: total_op_def drain_def read_eventfd_def split: prod.splits result.splits) (metis fst_conv)
qed (auto simp: from_owned_fd_def try_clone_def signal_def write_eventfd_def intro!: total_intros)

section \<open>Shared memory\<close>

text \<open>
  A pointer into a mapping: its address, which the code tests for null and alignment, and the byte
  of the backing object it denotes.
\<close>

record mptr =
  mp_addr :: nat
  mp_backing :: backing_identity
  mp_offset :: nat

definition ptr_add :: "mptr \<Rightarrow> nat \<Rightarrow> mptr" where
  "ptr_add p n = p\<lparr>mp_addr := mp_addr p + n, mp_offset := mp_offset p + n\<rparr>"

definition read_mem :: "shared_memory \<Rightarrow> mptr \<Rightarrow> nat \<Rightarrow> nat \<Rightarrow> byte list" where
  "read_mem m p off n = map (m (mp_backing p)) [mp_offset p + off ..< mp_offset p + off + n]"

definition write_mem :: "shared_memory \<Rightarrow> mptr \<Rightarrow> nat \<Rightarrow> byte list \<Rightarrow> shared_memory" where
  "write_mem m p off bs = m(mp_backing p := (\<lambda>i.
     if mp_offset p + off \<le> i \<and> i < mp_offset p + off + length bs then bs ! (i - (mp_offset p + off))
     else m (mp_backing p) i))"

definition access :: "(shared_memory \<Rightarrow> 'a \<times> shared_memory) \<Rightarrow> (world, 'a, 'e) op" where
  "access f w =
     (let w = tick w in
      case f (c_mem (w_core w)) of (x, m) \<Rightarrow> (Ok x, w\<lparr>w_core := (w_core w)\<lparr>c_mem := m\<rparr>\<rparr>))"

definition load_u32 :: "mptr \<Rightarrow> nat \<Rightarrow> (world, u32, 'e) op" where
  "load_u32 p off = access (\<lambda>m. (u32_of_bytes (read_mem m p off 4), m))"

definition load_u64 :: "mptr \<Rightarrow> nat \<Rightarrow> (world, u64, 'e) op" where
  "load_u64 p off = access (\<lambda>m. (u64_of_bytes (read_mem m p off 8), m))"

definition store_u32 :: "mptr \<Rightarrow> nat \<Rightarrow> u32 \<Rightarrow> (world, unit, 'e) op" where
  "store_u32 p off v = access (\<lambda>m. ((), write_mem m p off (u32_bytes v)))"

definition store_u64 :: "mptr \<Rightarrow> nat \<Rightarrow> u64 \<Rightarrow> (world, unit, 'e) op" where
  "store_u64 p off v = access (\<lambda>m. ((), write_mem m p off (u64_bytes v)))"

definition swap_u32 :: "mptr \<Rightarrow> nat \<Rightarrow> u32 \<Rightarrow> (world, u32, 'e) op" where
  "swap_u32 p off v = access (\<lambda>m. (u32_of_bytes (read_mem m p off 4), write_mem m p off (u32_bytes v)))"

text \<open>\<open>compare_exchange\<close>: the value seen, and whether it was the expected one and got replaced.\<close>

definition cas_u32 :: "mptr \<Rightarrow> nat \<Rightarrow> u32 \<Rightarrow> u32 \<Rightarrow> (world, bool \<times> u32, 'e) op" where
  "cas_u32 p off current v = access (\<lambda>m.
     let seen = u32_of_bytes (read_mem m p off 4) in
     if seen = current then ((True, seen), write_mem m p off (u32_bytes v)) else ((False, seen), m))"

lemma total_access [total_intros]: "total_op (access f)"
  by (simp add: total_op_def access_def Let_def split: prod.splits)

lemma total_loads [total_intros]:
  "total_op (load_u32 p off)" "total_op (load_u64 p off)" "total_op (store_u32 p off v)"
  "total_op (store_u64 p off x)" "total_op (swap_u32 p off v)" "total_op (cas_u32 p off a v)"
  unfolding load_u32_def load_u64_def store_u32_def store_u64_def swap_u32_def cas_u32_def
  by (rule total_access)+

lemma length_read_mem [simp]: "length (read_mem m p off n) = n"
  by (simp add: read_mem_def)

lemma read_write_same [simp]: "read_mem (write_mem m p off bs) p off (length bs) = bs"
  by (auto simp: read_mem_def write_mem_def intro!: nth_equalityI)

lemma read_write_u32 [simp]: "read_mem (write_mem m p off (u32_bytes v)) p off 4 = u32_bytes v"
  using read_write_same [of m p off "u32_bytes v"] by simp

lemma read_write_u64 [simp]: "read_mem (write_mem m p off (u64_bytes v)) p off 8 = u64_bytes v"
  using read_write_same [of m p off "u64_bytes v"] by simp

text \<open>Bytes that a write does not reach: another field of the record, or another region.\<close>

definition apart :: "mptr \<Rightarrow> nat \<Rightarrow> nat \<Rightarrow> mptr \<Rightarrow> nat \<Rightarrow> nat \<Rightarrow> bool" where
  "apart p off n q off' n' \<longleftrightarrow> mp_backing p \<noteq> mp_backing q \<or>
     mp_offset p + off + n \<le> mp_offset q + off' \<or> mp_offset q + off' + n' \<le> mp_offset p + off"

lemma read_write_apart:
  "apart p off (length bs) q off' n \<Longrightarrow> read_mem (write_mem m p off bs) q off' n = read_mem m q off' n"
  by (auto simp: read_mem_def write_mem_def apart_def)

lemma read_write_field [simp]:
  "off + length bs \<le> off' \<or> off' + n \<le> off \<Longrightarrow>
    read_mem (write_mem m p off bs) p off' n = read_mem m p off' n"
  by (rule read_write_apart) (auto simp: apart_def)

section \<open>Undisturbed accesses\<close>

abbreviation mem :: "world \<Rightarrow> shared_memory" where
  "mem w \<equiv> c_mem (w_core w)"

definition set_mem :: "shared_memory \<Rightarrow> world \<Rightarrow> world" where
  "set_mem m w = w\<lparr>w_core := (w_core w)\<lparr>c_mem := m\<rparr>\<rparr>"

definition field32 :: "shared_memory \<Rightarrow> mptr \<Rightarrow> nat \<Rightarrow> u32" where
  "field32 m p off = u32_of_bytes (read_mem m p off 4)"

definition field64 :: "shared_memory \<Rightarrow> mptr \<Rightarrow> nat \<Rightarrow> u64" where
  "field64 m p off = u64_of_bytes (read_mem m p off 8)"

definition put32 :: "mptr \<Rightarrow> nat \<Rightarrow> u32 \<Rightarrow> shared_memory \<Rightarrow> shared_memory" where
  "put32 p off v m = write_mem m p off (u32_bytes v)"

definition put64 :: "mptr \<Rightarrow> nat \<Rightarrow> u64 \<Rightarrow> shared_memory \<Rightarrow> shared_memory" where
  "put64 p off v m = write_mem m p off (u64_bytes v)"

text \<open>An access after one step of the others; with an empty script there is none.\<close>

named_theorems access_simps \<open>evaluation of accesses\<close>

lemma set_mem_simps [simp]:
  "mem (set_mem m w) = m" "w_script (set_mem m w) = w_script w" "w_libc (set_mem m w) = w_libc w"
  "set_mem m (set_mem m' w) = set_mem m w" "set_mem (mem w) w = w"
  by (simp_all add: set_mem_def)

lemma access_eqs [access_simps]:
  "load_u32 p off w = (Ok (field32 (mem (tick w)) p off), tick w)"
  "load_u64 p off w = (Ok (field64 (mem (tick w)) p off), tick w)"
  "store_u32 p off v w = (Ok (), set_mem (put32 p off v (mem (tick w))) (tick w))"
  "store_u64 p off x w = (Ok (), set_mem (put64 p off x (mem (tick w))) (tick w))"
  "swap_u32 p off v w = (Ok (field32 (mem (tick w)) p off), set_mem (put32 p off v (mem (tick w))) (tick w))"
  "cas_u32 p off a v w = (let seen = field32 (mem (tick w)) p off in
     if seen = a then (Ok (True, seen), set_mem (put32 p off v (mem (tick w))) (tick w))
     else (Ok (False, seen), tick w))"
  by (simp_all add: load_u32_def load_u64_def store_u32_def store_u64_def swap_u32_def cas_u32_def access_def
      set_mem_def field32_def field64_def put32_def put64_def Let_def)

lemma field_same [simp]:
  "field32 (put32 p off v m) p off = v"
  "field64 (put64 p off x m) p off = x"
  by (simp_all add: field32_def field64_def put32_def put64_def)

lemma field_other [simp]:
  "off + 4 \<le> off' \<or> off' + 4 \<le> off \<Longrightarrow> field32 (put32 p off v m) p off' = field32 m p off'"
  "off + 4 \<le> off' \<or> off' + 8 \<le> off \<Longrightarrow> field64 (put32 p off v m) p off' = field64 m p off'"
  "off + 8 \<le> off' \<or> off' + 4 \<le> off \<Longrightarrow> field32 (put64 p off x m) p off' = field32 m p off'"
  "off + 8 \<le> off' \<or> off' + 8 \<le> off \<Longrightarrow> field64 (put64 p off x m) p off' = field64 m p off'"
  by (simp_all add: field32_def field64_def put32_def put64_def)

section \<open>Constants stay\<close>

text \<open>No operation changes the constants of the C library.\<close>

definition stable_op :: "(world, 'a, 'e) op \<Rightarrow> bool" where
  "stable_op m \<longleftrightarrow> (\<forall>w. w_libc (snd (m w)) = w_libc w)"

named_theorems stable_intros \<open>operations that keep the constants\<close>

lemma stable_D: "stable_op m \<Longrightarrow> m w = (r, w') \<Longrightarrow> w_libc w' = w_libc w"
  unfolding stable_op_def by (metis snd_conv)

lemma stable_combinators [stable_intros]:
  "stable_op (olift r)" "stable_op get_libc"
  "stable_op m \<Longrightarrow> stable_op (omap_err g m)" "stable_op m \<Longrightarrow> stable_op (oignore m)"
  by (auto simp: stable_op_def get_libc_def omap_err_def oignore_def split: prod.splits result.splits)
    (metis snd_conv)+

lemma stable_obind [stable_intros]:
  assumes "stable_op m" and "\<And>x. stable_op (f x)"
  shows "stable_op (obind m f)"
  unfolding stable_op_def obind_def using assms
  by (auto simp: stable_op_def split: prod.splits result.splits) (metis snd_conv)+

lemma stable_if [stable_intros]: "stable_op m \<Longrightarrow> stable_op n \<Longrightarrow> stable_op (if b then m else n)"
  by simp

lemma stable_case_option [stable_intros]:
  "stable_op m \<Longrightarrow> (\<And>x. stable_op (f x)) \<Longrightarrow> stable_op (case v of None \<Rightarrow> m | Some x \<Rightarrow> f x)"
  by (cases v) simp_all

lemma stable_syscall [stable_intros]: "stable_op (syscall f)"
  by (auto simp: stable_op_def syscall_def Let_def split: option.splits prod.splits)

lemma stable_access [stable_intros]: "stable_op (access f)"
  by (simp add: stable_op_def access_def Let_def split: prod.splits)

lemma stable_sys [stable_intros]:
  "stable_op (sys_fstat fd)" "stable_op (sys_get_seals fd)" "stable_op (sys_getfl fd)"
  "stable_op (sys_setfl fd flags)" "stable_op sys_mmap" "stable_op (sys_dup fd)" "stable_op sys_page_size"
  unfolding sys_fstat_def sys_get_seals_def sys_getfl_def sys_setfl_def sys_mmap_def sys_dup_def
  by (rule stable_syscall)+ (simp add: stable_op_def sys_page_size_def Let_def)

end
