(* ===== verification/Rust_Maps.thy ===== *)
theory Rust_Maps
  imports Main "HOL-Library.AList"
begin

text \<open>
  The two maps of the standard library the session uses, as association lists: \<open>HashMap\<close>, whose
  iteration order is unspecified (here the order of first insertion), and \<open>BTreeMap\<close>, which is
  iterated in the order of its keys. What clients need is proved once, from the laws of a keyed
  collection.
\<close>

type_synonym ('k, 'v) amap = "('k \<times> 'v) list"

abbreviation keys :: "('k, 'v) amap \<Rightarrow> 'k set" where
  "keys m \<equiv> fst ` set m"

locale keyed =
  fixes wf :: "('k, 'v) amap \<Rightarrow> bool"
    and ins :: "'k \<Rightarrow> 'v \<Rightarrow> ('k, 'v) amap \<Rightarrow> ('k, 'v) amap"
    and del :: "'k \<Rightarrow> ('k, 'v) amap \<Rightarrow> ('k, 'v) amap"
  assumes wf_empty: "wf []"
    and wf_ins: "wf m \<Longrightarrow> wf (ins k v m)"
    and wf_del: "wf m \<Longrightarrow> wf (del k m)"
    and wf_retain: "wf m \<Longrightarrow> wf (filter p m)"
    and wf_distinct: "wf m \<Longrightarrow> distinct (map fst m)"
    and get_ins: "wf m \<Longrightarrow> map_of (ins k v m) = (map_of m)(k \<mapsto> v)"
    and get_del: "wf m \<Longrightarrow> map_of (del k m) = (map_of m)(k := None)"
begin

lemma mem_iff: "wf m \<Longrightarrow> (k, v) \<in> set m \<longleftrightarrow> map_of m k = Some v"
  using map_of_eq_Some_iff [OF wf_distinct] by metis

lemma set_ins: "wf m \<Longrightarrow> set (ins k v m) = insert (k, v) {x \<in> set m. fst x \<noteq> k}"
  using get_ins [of m k v] by (auto simp: mem_iff mem_iff [OF wf_ins] split: if_splits)

lemma set_del: "wf m \<Longrightarrow> set (del k m) = {x \<in> set m. fst x \<noteq> k}"
  using get_del [of m k] by (auto simp: mem_iff mem_iff [OF wf_del] split: if_splits)

lemma keys_ins: "wf m \<Longrightarrow> keys (ins k v m) = insert k (keys m)"
  by (auto simp: set_ins image_iff)

lemma keys_del: "wf m \<Longrightarrow> keys (del k m) = keys m - {k}"
  by (auto simp: set_del image_iff)

lemma card_keys: "wf m \<Longrightarrow> card (keys m) = length m"
  using distinct_card [OF wf_distinct, of m] by simp

lemma length_ins: "wf m \<Longrightarrow> length (ins k v m) = (if k \<in> keys m then length m else Suc (length m))"
  using card_keys [OF wf_ins, of m k v] card_keys [of m] by (auto simp: keys_ins card_insert_if split: if_splits)

lemma length_del: "wf m \<Longrightarrow> length (del k m) = (if k \<in> keys m then length m - 1 else length m)"
  using card_keys [OF wf_del, of m k] card_keys [of m] by (auto simp: keys_del card_Diff_singleton_if split: if_splits)

lemma get_none_iff: "map_of m k = None \<longleftrightarrow> k \<notin> keys m"
  by (simp add: map_of_eq_None_iff)

end

section \<open>Hash maps\<close>

definition hm_wf :: "('k, 'v) amap \<Rightarrow> bool" where
  "hm_wf m \<longleftrightarrow> distinct (map fst m)"

definition hm_insert :: "'k \<Rightarrow> 'v \<Rightarrow> ('k, 'v) amap \<Rightarrow> ('k, 'v) amap" where
  "hm_insert = AList.update"

definition hm_remove :: "'k \<Rightarrow> ('k, 'v) amap \<Rightarrow> ('k, 'v) amap" where
  "hm_remove = AList.delete"

lemma distinct_keys_filter: "distinct (map fst m) \<Longrightarrow> distinct (map fst (filter p m))"
  by (simp add: distinct_map inj_on_def)

interpretation hm: keyed hm_wf hm_insert hm_remove
  by unfold_locales
    (auto simp: hm_wf_def hm_insert_def hm_remove_def update_conv' delete_conv' distinct_update distinct_keys_filter
      intro: distinct_delete)

lemma hm_insert_new: "k \<notin> keys m \<Longrightarrow> hm_insert k v m = m @ [(k, v)]"
  unfolding hm_insert_def by (induction m) (auto split: if_splits)

lemma hm_remove_filter: "hm_remove k m = filter (\<lambda>kv. fst kv \<noteq> k) m"
  unfolding hm_remove_def by (induction m) auto

section \<open>Ordered maps\<close>

definition bt_wf :: "('k :: linorder, 'v) amap \<Rightarrow> bool" where
  "bt_wf m \<longleftrightarrow> sorted_wrt (<) (map fst m)"

fun bt_insert :: "'k :: linorder \<Rightarrow> 'v \<Rightarrow> ('k, 'v) amap \<Rightarrow> ('k, 'v) amap" where
  "bt_insert k v [] = [(k, v)]"
| "bt_insert k v ((k', v') # m) =
     (if k < k' then (k, v) # (k', v') # m
      else if k = k' then (k, v) # m
      else (k', v') # bt_insert k v m)"

definition bt_remove :: "'k :: linorder \<Rightarrow> ('k, 'v) amap \<Rightarrow> ('k, 'v) amap" where
  "bt_remove k m = filter (\<lambda>kv. fst kv \<noteq> k) m"

lemma set_bt_insert_keys: "fst ` set (bt_insert k v m) = insert k (fst ` set m)"
  by (induction m rule: bt_insert.induct) auto

lemma bt_insert_wf: "bt_wf m \<Longrightarrow> bt_wf (bt_insert k v m)"
  by (induction k v m rule: bt_insert.induct)
    (auto simp: bt_wf_def set_bt_insert_keys dest: order.strict_trans)

lemma bt_insert_get: "bt_wf m \<Longrightarrow> map_of (bt_insert k v m) = (map_of m)(k \<mapsto> v)"
  by (induction k v m rule: bt_insert.induct) (auto simp: bt_wf_def fun_eq_iff)

lemma bt_remove_get: "map_of (bt_remove k m) = (map_of m)(k := None)"
  by (induction m) (auto simp: bt_remove_def)

lemma bt_filter_wf: "bt_wf m \<Longrightarrow> bt_wf (filter p m)"
  unfolding bt_wf_def by (simp add: sorted_wrt_filter sorted_wrt_map)

lemma bt_distinct: "bt_wf m \<Longrightarrow> distinct (map fst m)"
  unfolding bt_wf_def by (rule strict_sorted_iff [THEN iffD1, THEN conjunct2])

interpretation bt: keyed bt_wf bt_insert bt_remove
  by unfold_locales
    (auto simp: bt_insert_wf bt_insert_get bt_remove_get bt_filter_wf bt_distinct, simp_all add: bt_wf_def bt_remove_def
      sorted_wrt_filter sorted_wrt_map)

end
