(* ===== verification/Node_Memory.thy ===== *)
theory Node_Memory
  imports Node_World Rust_Maps Pod_Types Op_Sequences
begin

text \<open>
  Memory imported from the connection: shared mappings with their bounds and seal checks
  (\<open>shm::memfd\<close>), and the pool of imported descriptors with its generations, leases and mappings
  (\<open>session::memory\<close>).
\<close>

section \<open>Memory kinds\<close>

datatype data_type = DT_Invalid | DT_MemPtr | DT_MemFd | DT_DmaBuf | DT_MemId | DT_SyncObj

definition data_type_variants :: "(data_type \<times> u32 option) list" where
  "data_type_variants =
     [(DT_Invalid, None), (DT_MemPtr, None), (DT_MemFd, None), (DT_DmaBuf, None), (DT_MemId, None), (DT_SyncObj, None)]"

lemma data_type_values:
  "enum_values None data_type_variants =
     [(DT_Invalid, 0), (DT_MemPtr, 1), (DT_MemFd, 2), (DT_DmaBuf, 3), (DT_MemId, 4), (DT_SyncObj, 5)]"
  by (simp add: data_type_variants_def)

interpretation data_type: enum_u32 data_type_variants
proof
  show "v \<in> fst ` set (enum_values None data_type_variants)" for v
    by (cases v) (simp_all add: data_type_values)
qed (simp_all add: data_type_values)

section \<open>Shared mappings\<close>

definition isize_max :: nat where
  "isize_max = 2 ^ 63 - 1"

definition usize_try_from_i64 :: "i64 \<Rightarrow> nat option" where
  "usize_try_from_i64 v = (if sint v < 0 then None else Some (unat v))"

datatype seal_status = Available i32 | Seals_unsupported

definition prevents_shrink :: "libc \<Rightarrow> seal_status \<Rightarrow> bool" where
  "prevents_shrink l s = (case s of Available seals \<Rightarrow> seals AND F_SEAL_SHRINK l \<noteq> 0 | Seals_unsupported \<Rightarrow> False)"

datatype shrink_policy = Allow | RequireSealed

definition read_seal_status :: "raw_fd \<Rightarrow> (world, seal_status, 'e) op" where
  "read_seal_status fd w = (case sys_get_seals fd w of
     (Ok seals, w') \<Rightarrow> (Ok (if sint seals < 0 then Seals_unsupported else Available seals), w')
   | (Err _, w') \<Rightarrow> (Ok Seals_unsupported, w')
   | (Panic, w') \<Rightarrow> (Panic, w'))"

text \<open>\<open>mr_ptr\<close> is the first byte of the logical region, \<open>mr_mapping_ptr\<close> that of the pages mapped for it.\<close>

record mapped_region =
  mr_mapping_ptr :: nat
  mr_mapping_len :: nat
  mr_ptr :: mptr
  mr_len :: nat
  mr_seal_status :: seal_status

definition page_size :: "(world, nat, sys_error) op" where
  "page_size = obind sys_page_size (\<lambda>size.
     case usize_try_from_i64 size of
       None \<Rightarrow> ofail No_page_size
     | Some n \<Rightarrow> if n = 0 then ofail Zero_page_size else oreturn n)"

text \<open>
  \<open>prot\<close> only decides whether a store traps; the session maps every region writable.
\<close>

definition map_shared_with_policy ::
    "raw_fd \<Rightarrow> nat \<Rightarrow> nat \<Rightarrow> bool \<Rightarrow> shrink_policy \<Rightarrow> (world, mapped_region, sys_error) op" where
  "map_shared_with_policy fd offset len writable policy =
     (if len = 0 then ofail Zero_length else
      obind (olift (ok_or (checked_add_usize offset len) Range_overflow)) (\<lambda>end.
      if len > isize_max then ofail Too_large else
      obind (omap_err Os (sys_fstat fd)) (\<lambda>stat.
      obind (olift (ok_or (usize_try_from_i64 (st_size stat)) Unsupported_size)) (\<lambda>file_size.
      if end > file_size then ofail Beyond_file else
      obind (read_seal_status fd) (\<lambda>seals.
      obind get_libc (\<lambda>l.
      if policy = RequireSealed \<and> \<not> prevents_shrink l seals then ofail Not_sealed else
      obind page_size (\<lambda>page.
      obind (olift (ok_or (checked_add_usize (offset - offset div page * page) len) Physical_overflow)) (\<lambda>mapping_len.
      if mapping_len > isize_max then ofail Physical_too_large
      else if offset div page * page > isize_max then ofail Offset_too_large else
      obind (omap_err Os sys_mmap) (\<lambda>addr.
      if addr = 0 then ofail Null_mapping
      else oreturn \<lparr>mr_mapping_ptr = addr, mr_mapping_len = mapping_len,
        mr_ptr = \<lparr>mp_addr = addr + (offset - offset div page * page), mp_backing = st_identity stat, mp_offset = offset\<rparr>,
        mr_len = len, mr_seal_status = seals\<rparr>)))))))))"

definition map_shared :: "raw_fd \<Rightarrow> nat \<Rightarrow> nat \<Rightarrow> bool \<Rightarrow> (world, mapped_region, sys_error) op" where
  "map_shared fd offset len writable = map_shared_with_policy fd offset len writable Allow"

lemma total_seal_status [total_intros]: "total_op (read_seal_status fd)"
  using sys_total(2) [of fd] unfolding total_op_def read_seal_status_def
  by (auto split: prod.splits result.splits) (metis fst_conv)

lemma total_page_size [total_intros]: "total_op page_size"
  unfolding page_size_def by (intro total_intros) simp_all

lemma total_map_shared [total_intros]: "total_op (map_shared_with_policy fd offset len writable policy)"
  unfolding map_shared_with_policy_def by (intro total_intros) simp_all

text \<open>A mapping that is returned lies inside the file and starts where it was asked to.\<close>

lemma stable_seal_status [stable_intros]: "stable_op (read_seal_status fd)"
  using stable_sys(2) [of fd] unfolding stable_op_def read_seal_status_def
  by (auto split: prod.splits result.splits) (metis snd_conv)+

lemma get_libc_Ok: "get_libc w = (Ok l, w') \<longleftrightarrow> l = w_libc w \<and> w' = w"
  by (auto simp: get_libc_def)

lemma page_start_less: "0 < x \<Longrightarrow> a div p * p < x + (a :: nat)"
  using div_times_less_eq_dividend [of a p] by linarith

lemma map_shared_with_policy_Ok:
  assumes "map_shared_with_policy fd offset len writable policy w = (Ok r, w')"
  shows "mr_len r = len" and "mp_offset (mr_ptr r) = offset" and "0 < len" and "offset + len < usize_limit"
    and "mp_addr (mr_ptr r) \<noteq> 0"
    and "policy = RequireSealed \<Longrightarrow> prevents_shrink (w_libc w) (mr_seal_status r)"
  using assms unfolding map_shared_with_policy_def
  by (auto simp: obind_eq_Ok_iff ok_simps checked_add_usize_def get_libc_Ok split: if_splits
      dest!: stable_D [OF stable_seal_status] stable_D [OF stable_combinators(3) [OF stable_sys(1)]]
      intro: page_start_less)

section \<open>Imported memory\<close>

record memory_key =
  mk_id :: u32
  mk_generation :: nat

record memory_region =
  mem_memory :: u32
  mem_offset :: nat
  mem_len :: nat

datatype memory_kind = Kind_MemFd

record memory_entry =
  me_key :: memory_key
  me_backing :: backing_identity
  me_kind :: memory_kind
  me_flags :: u32
  me_file_len :: nat
  me_fd :: raw_fd

record memory_interval =
  iv_backing :: backing_identity
  iv_start :: nat
  iv_end :: nat

definition overlaps :: "memory_interval \<Rightarrow> memory_interval \<Rightarrow> bool" where
  "overlaps a b \<longleftrightarrow> iv_backing a = iv_backing b \<and> iv_start a < iv_end b \<and> iv_start b < iv_end a"

datatype (plugins only: code size) memory_error =
    UnknownMemoryType u32
  | UnsupportedMemoryType data_type
  | DuplicateActiveId u32
  | UnknownMemory u32
  | StaleGeneration memory_key "memory_key option"
  | InvalidRegion memory_key nat nat nat
  | GenerationExhausted
  | ShrinkableMemory u32
  | Inspect sys_error
  | Map memory_key sys_error
  | Pool_disconnected

record memory_mapping =
  mm_mapped :: mapped_region
  mm_entry :: memory_entry
  mm_offset :: nat

record memory_lease =
  ml_entry :: memory_entry
  ml_shrink_policy :: shrink_policy

record memory_pool =
  pool_next_generation :: nat
  pool_live :: "(u32, memory_entry) amap"
  pool_shrink_policy :: shrink_policy
  pool_disconnected :: bool

definition map_entry :: "memory_entry \<Rightarrow> shrink_policy \<Rightarrow> nat \<Rightarrow> nat \<Rightarrow> bool \<Rightarrow> (world, memory_mapping, memory_error) op" where
  "map_entry entry policy offset len writable =
     (let valid = (len > 0 \<and> len \<le> isize_max \<and>
            (case checked_add_usize offset len of Some end \<Rightarrow> end \<le> me_file_len entry | None \<Rightarrow> False)) in
      if \<not> valid then ofail (InvalidRegion (me_key entry) offset len (me_file_len entry))
      else obind (omap_err (Map (me_key entry)) (map_shared_with_policy (me_fd entry) offset len writable policy))
        (\<lambda>mapped. oreturn \<lparr>mm_mapped = mapped, mm_entry = entry, mm_offset = offset\<rparr>))"

definition mapping_key :: "memory_mapping \<Rightarrow> memory_key" where
  "mapping_key m = me_key (mm_entry m)"

definition mapping_len :: "memory_mapping \<Rightarrow> nat" where
  "mapping_len m = mr_len (mm_mapped m)"

definition mapping_ptr :: "memory_mapping \<Rightarrow> mptr" where
  "mapping_ptr m = mr_ptr (mm_mapped m)"

definition mapping_interval :: "memory_mapping \<Rightarrow> memory_interval" where
  "mapping_interval m = \<lparr>iv_backing = me_backing (mm_entry m), iv_start = mm_offset m,
     iv_end = mm_offset m + mapping_len m\<rparr>"

definition lease_key :: "memory_lease \<Rightarrow> memory_key" where
  "lease_key l = me_key (ml_entry l)"

definition lease_map :: "memory_lease \<Rightarrow> nat \<Rightarrow> nat \<Rightarrow> bool \<Rightarrow> (world, memory_mapping, memory_error) op" where
  "lease_map l = map_entry (ml_entry l) (ml_shrink_policy l)"

definition file_identity :: "raw_fd \<Rightarrow> (world, nat \<times> backing_identity, sys_error) op" where
  "file_identity fd =
     obind (omap_err Os (sys_fstat fd)) (\<lambda>stat.
     obind (olift (ok_or (usize_try_from_i64 (st_size stat)) Unsupported_size)) (\<lambda>len.
     oreturn (len, st_identity stat)))"

section \<open>The pool\<close>

definition pool_new :: "shrink_policy \<Rightarrow> memory_pool" where
  "pool_new policy = \<lparr>pool_next_generation = 1, pool_live = [], pool_shrink_policy = policy, pool_disconnected = False\<rparr>"

definition pool_add :: "u32 \<Rightarrow> u32 \<Rightarrow> u32 \<Rightarrow> raw_fd \<Rightarrow> (memory_pool \<times> world, memory_key, memory_error) op" where
  "pool_add mid memory_type mflags fd =
     obind oget (\<lambda>(pool, _).
     if pool_disconnected pool then ofail Pool_disconnected
     else if map_of (pool_live pool) mid \<noteq> None then ofail (DuplicateActiveId mid)
     else
     obind (olift (ok_or (enum_try_from data_type_variants memory_type) (UnknownMemoryType memory_type))) (\<lambda>t.
     obind (olift (case t of DT_MemFd \<Rightarrow> Ok Kind_MemFd | other \<Rightarrow> Err (UnsupportedMemoryType other))) (\<lambda>kind.
     obind (omap_err Inspect (on_snd (file_identity fd))) (\<lambda>(file_len, backing).
     othen (if pool_shrink_policy pool = RequireSealed
            then obind (on_snd (read_seal_status fd)) (\<lambda>seals. obind (on_snd get_libc) (\<lambda>l.
              if \<not> prevents_shrink l seals then ofail (ShrinkableMemory mid) else oreturn ()))
            else oreturn ())
     (let generation = pool_next_generation pool in
      obind (olift (ok_or (checked_add_usize generation 1) GenerationExhausted)) (\<lambda>following.
      let mkey = \<lparr>mk_id = mid, mk_generation = generation\<rparr>;
          entry = \<lparr>me_key = mkey, me_backing = backing, me_kind = kind, me_flags = mflags,
                   me_file_len = file_len, me_fd = fd\<rparr> in
      othen (omodify (\<lambda>(pool, w). (pool\<lparr>pool_next_generation := following,
                                       pool_live := hm_insert mid entry (pool_live pool)\<rparr>, w)))
        (oreturn mkey)))))))"

definition pool_resolve :: "memory_pool \<Rightarrow> u32 \<Rightarrow> (memory_key, memory_error) result" where
  "pool_resolve pool mid =
     (if pool_disconnected pool then Err Pool_disconnected
      else ok_or (map_option me_key (map_of (pool_live pool) mid)) (UnknownMemory mid))"

text \<open>The entry a key names, if it is still the active generation; both \<open>map\<close> and \<open>lease\<close> start with it.\<close>

definition pool_active :: "memory_pool \<Rightarrow> memory_key \<Rightarrow> (memory_entry, memory_error) result" where
  "pool_active pool mkey =
     (if pool_disconnected pool then Err Pool_disconnected
      else rbind (ok_or (map_of (pool_live pool) (mk_id mkey)) (StaleGeneration mkey None)) (\<lambda>entry.
        if me_key entry \<noteq> mkey then Err (StaleGeneration mkey (Some (me_key entry))) else Ok entry))"

definition pool_map :: "memory_pool \<Rightarrow> memory_key \<Rightarrow> nat \<Rightarrow> nat \<Rightarrow> bool \<Rightarrow> (world, memory_mapping, memory_error) op" where
  "pool_map pool mkey offset len writable =
     obind (olift (pool_active pool mkey)) (\<lambda>entry. map_entry entry (pool_shrink_policy pool) offset len writable)"

definition pool_bind :: "memory_pool \<Rightarrow> memory_region \<Rightarrow> bool \<Rightarrow> (world, memory_mapping, memory_error) op" where
  "pool_bind pool region writable =
     obind (olift (pool_resolve pool (mem_memory region))) (\<lambda>mkey.
       pool_map pool mkey (mem_offset region) (mem_len region) writable)"

definition pool_lease :: "memory_pool \<Rightarrow> memory_key \<Rightarrow> (memory_lease, memory_error) result" where
  "pool_lease pool mkey =
     rbind (pool_active pool mkey) (\<lambda>entry. Ok \<lparr>ml_entry = entry, ml_shrink_policy = pool_shrink_policy pool\<rparr>)"

definition pool_remove :: "u32 \<Rightarrow> (memory_pool, memory_key, memory_error) op" where
  "pool_remove mid pool =
     (if pool_disconnected pool then (Err Pool_disconnected, pool)
      else case map_of (pool_live pool) mid of
        None \<Rightarrow> (Err (UnknownMemory mid), pool)
      | Some entry \<Rightarrow> (Ok (me_key entry), pool\<lparr>pool_live := hm_remove mid (pool_live pool)\<rparr>))"

definition pool_clear :: "memory_pool \<Rightarrow> memory_pool" where
  "pool_clear pool = pool\<lparr>pool_live := []\<rparr>"

definition pool_disconnect :: "memory_pool \<Rightarrow> memory_pool" where
  "pool_disconnect pool = pool\<lparr>pool_live := [], pool_disconnected := True\<rparr>"

definition pool_len :: "memory_pool \<Rightarrow> nat" where
  "pool_len pool = length (pool_live pool)"

definition active_keys :: "memory_pool \<Rightarrow> memory_key list" where
  "active_keys pool = map (\<lambda>(_, entry). me_key entry) (pool_live pool)"

section \<open>What a mapping guarantees\<close>

text \<open>
  Clients see the pool and the leases through \<open>MemoryResolver\<close>. The contract: a resolved key
  carries the identifier that was asked for, and a mapping is of the exact generation, offset and
  length that were asked for, not empty and inside the file.
\<close>

locale memory_resolver =
  fixes ok :: "'m \<Rightarrow> bool"
    and resolve :: "'m \<Rightarrow> u32 \<Rightarrow> (memory_key, memory_error) result"
    and mem_map :: "'m \<Rightarrow> memory_key \<Rightarrow> nat \<Rightarrow> nat \<Rightarrow> bool \<Rightarrow> (world, memory_mapping, memory_error) op"
  assumes resolve_id: "ok m \<Longrightarrow> resolve m i = Ok mkey \<Longrightarrow> mk_id mkey = i"
    and resolve_total: "resolve m i \<noteq> Panic"
    and map_total: "total_op (mem_map m mkey offset len writable)"
    and map_exact: "ok m \<Longrightarrow> mem_map m mkey offset len writable w = (Ok mapping, w') \<Longrightarrow>
      mapping_key mapping = mkey \<and> mm_offset mapping = offset \<and> mapping_len mapping = len \<and>
      0 < len \<and> offset + len \<le> me_file_len (mm_entry mapping)"
begin

definition bind_region :: "'m \<Rightarrow> memory_region \<Rightarrow> bool \<Rightarrow> (world, memory_mapping, memory_error) op" where
  "bind_region m region writable =
     obind (olift (resolve m (mem_memory region))) (\<lambda>mkey. mem_map m mkey (mem_offset region) (mem_len region) writable)"

lemma bind_region_total: "total_op (bind_region m region writable)"
  unfolding bind_region_def by (intro total_intros map_total resolve_total)

lemma bind_region_interval:
  assumes "ok m" and "bind_region m region writable w = (Ok mapping, w')"
  shows "mk_id (mapping_key mapping) = mem_memory region"
    and "mapping_interval mapping = \<lparr>iv_backing = me_backing (mm_entry mapping), iv_start = mem_offset region,
      iv_end = mem_offset region + mem_len region\<rparr>"
  using assms map_exact [OF assms(1)] resolve_id [OF assms(1)]
  by (auto simp: bind_region_def obind_eq_Ok_iff mapping_interval_def)

end

lemma total_map_entry [total_intros]: "total_op (map_entry entry policy offset len writable)"
  unfolding map_entry_def Let_def by (intro total_intros) simp_all

lemma map_entry_Ok:
  assumes "map_entry entry policy offset len writable w = (Ok mapping, w')"
  shows "mm_entry mapping = entry" and "mm_offset mapping = offset" and "mapping_len mapping = len"
    and "0 < len" and "offset + len \<le> me_file_len entry"
    and "mp_offset (mapping_ptr mapping) = offset" and "mp_addr (mapping_ptr mapping) \<noteq> 0"
    and "policy = RequireSealed \<Longrightarrow> prevents_shrink (w_libc w) (mr_seal_status (mm_mapped mapping))"
  using assms unfolding map_entry_def Let_def
  by (auto simp: obind_eq_Ok_iff omap_err_def map_err_eq_Ok_iff mapping_len_def mapping_ptr_def checked_add_usize_def
      split: if_splits option.splits prod.splits dest: map_shared_with_policy_Ok)

lemma map_entry_invalid:
  "len = 0 \<or> isize_max < len \<or> usize_limit \<le> offset + len \<or> me_file_len entry < offset + len \<Longrightarrow>
    map_entry entry policy offset len writable w = (Err (InvalidRegion (me_key entry) offset len (me_file_len entry)), w)"
  by (auto simp: map_entry_def Let_def checked_add_usize_def)

section \<open>Invariant of the pool\<close>

definition entry_ok :: "nat \<Rightarrow> u32 \<times> memory_entry \<Rightarrow> bool" where
  "entry_ok bound x \<longleftrightarrow> mk_id (me_key (snd x)) = fst x \<and> mk_generation (me_key (snd x)) < bound"

definition pool_ok :: "memory_pool \<Rightarrow> bool" where
  "pool_ok pool \<longleftrightarrow> hm_wf (pool_live pool) \<and> pool_next_generation pool < usize_limit \<and>
     list_all (entry_ok (pool_next_generation pool)) (pool_live pool) \<and>
     distinct (map mk_generation (active_keys pool)) \<and>
     (pool_disconnected pool \<longrightarrow> pool_live pool = [])"

interpretation pool: memory_resolver pool_ok pool_resolve pool_map
proof
  show "mk_id mkey = i" if "pool_ok m" "pool_resolve m i = Ok mkey" for m i mkey
    using that by (auto simp: pool_ok_def pool_resolve_def ok_simps list_all_iff entry_ok_def dest!: map_of_SomeD
        split: if_splits)
  show "pool_resolve m i \<noteq> Panic" for m i
    by (simp add: pool_resolve_def)
  show "total_op (pool_map m mkey offset len writable)" for m mkey offset len writable
    unfolding pool_map_def by (intro total_intros) (auto simp: pool_active_def panic_simps split: if_splits)
  show "mapping_key mapping = mkey \<and> mm_offset mapping = offset \<and> mapping_len mapping = len \<and>
      0 < len \<and> offset + len \<le> me_file_len (mm_entry mapping)"
    if "pool_ok m" "pool_map m mkey offset len writable w = (Ok mapping, w')" for m mkey offset len writable w mapping w'
    using that(2) by (auto simp: pool_map_def obind_eq_Ok_iff pool_active_def ok_simps mapping_key_def
        split: if_splits dest: map_entry_Ok)
qed

lemma pool_bind_eq: "pool_bind pool region writable = pool.bind_region pool region writable"
  by (simp add: pool_bind_def pool.bind_region_def)

lemma pool_new_ok: "pool_ok (pool_new policy)"
  by (simp add: pool_ok_def pool_new_def active_keys_def usize_limit_def hm_wf_def)

definition imported :: "u32 \<Rightarrow> u32 \<Rightarrow> raw_fd \<Rightarrow> memory_pool \<Rightarrow> memory_entry \<Rightarrow> bool" where
  "imported mid mflags fd pool entry \<longleftrightarrow>
     me_key entry = \<lparr>mk_id = mid, mk_generation = pool_next_generation pool\<rparr> \<and> me_fd entry = fd \<and> me_flags entry = mflags"

definition add_post :: "u32 \<Rightarrow> u32 \<Rightarrow> raw_fd \<Rightarrow> memory_pool \<Rightarrow> memory_key \<Rightarrow> memory_pool \<Rightarrow> bool" where
  "add_post mid mflags fd pool mkey pool' \<longleftrightarrow>
     map_of (pool_live pool) mid = None \<and> \<not> pool_disconnected pool \<and> pool_next_generation pool + 1 < usize_limit \<and>
     (\<exists>entry. imported mid mflags fd pool entry \<and> mkey = me_key entry \<and>
       pool' = pool\<lparr>pool_next_generation := pool_next_generation pool + 1,
         pool_live := hm_insert mid entry (pool_live pool)\<rparr>)"

lemma add_postI:
  assumes "map_of (pool_live pool) mid = None" and "\<not> pool_disconnected pool"
    and "Suc (pool_next_generation pool) < usize_limit" and "imported mid mflags fd pool entry" and "mkey = me_key entry"
  shows "add_post mid mflags fd pool mkey (pool\<lparr>pool_next_generation := Suc (pool_next_generation pool),
    pool_live := hm_insert mid entry (pool_live pool)\<rparr>)"
  using assms by (auto simp: add_post_def)

lemma total_file_identity [total_intros]: "total_op (file_identity fd)"
  unfolding file_identity_def by (intro total_intros) simp_all

lemma pool_add_valid:
  "valid (\<lambda>pw. fst pw = pool) (pool_add mid memory_type mflags fd)
     (\<lambda>mkey pw. add_post mid mflags fd pool mkey (fst pw)) (\<lambda>_ pw. fst pw = pool)"
  unfolding pool_add_def Let_def
  by (rule valid_pre, (rule wp wp_on_snd total_intros)+)
    (auto simp: ok_or_def checked_add_usize_def imported_def intro!: add_postI
      split: option.splits data_type.splits if_splits)

lemma add_post_ok:
  assumes "pool_ok pool" and "add_post mid mflags fd pool mkey pool'"
  shows "pool_ok pool'" and "pool_active pool' mkey = Ok (the (map_of (pool_live pool') mid))"
    and "mkey \<notin> set (active_keys pool)" and "mk_generation mkey = pool_next_generation pool"
    and "pool_next_generation pool < pool_next_generation pool'"
    and "pool_resolve pool' mid = Ok mkey"
proof -
  obtain entry where e: "imported mid mflags fd pool entry" "mkey = me_key entry"
      "map_of (pool_live pool) mid = None" "\<not> pool_disconnected pool" "pool_next_generation pool + 1 < usize_limit"
      "pool' = pool\<lparr>pool_next_generation := pool_next_generation pool + 1, pool_live := hm_insert mid entry (pool_live pool)\<rparr>"
    using assms(2) by (auto simp: add_post_def)
  have wf: "hm_wf (pool_live pool)"
    using assms(1) by (simp add: pool_ok_def)
  have live: "pool_live pool' = pool_live pool @ [(mid, entry)]"
    using e(3,6) by (simp add: hm_insert_new map_of_eq_None_iff)
  have old: "mk_generation (me_key (snd x)) < pool_next_generation pool" "mk_id (me_key (snd x)) = fst x"
    if "x \<in> set (pool_live pool)" for x
    using assms(1) that by (auto simp: pool_ok_def list_all_iff entry_ok_def)
  have live_old: "distinct (map (mk_generation \<circ> (\<lambda>(_, entry). me_key entry)) (pool_live pool))"
    using assms(1) by (simp add: pool_ok_def active_keys_def)
  show "pool_ok pool'"
    using wf hm.wf_ins [OF wf, of mid entry] e(1,4,5,6) live live_old old
    by (fastforce simp: pool_ok_def active_keys_def imported_def list_all_iff entry_ok_def less_Suc_eq)
  show "pool_active pool' mkey = Ok (the (map_of (pool_live pool') mid))" "pool_resolve pool' mid = Ok mkey"
    using e hm.get_ins [OF wf] by (simp_all add: pool_active_def pool_resolve_def imported_def)
  show "mkey \<notin> set (active_keys pool)"
  proof
    assume "mkey \<in> set (active_keys pool)"
    then obtain x where "x \<in> set (pool_live pool)" "mkey = me_key (snd x)"
      by (auto simp: active_keys_def)
    with old(1) [of x] e(1,2) show False
      by (simp add: imported_def)
  qed
qed (use assms(2) in \<open>auto simp: add_post_def imported_def\<close>)

lemma pool_remove_ok:
  assumes "pool_ok pool" and "pool_remove mid pool = (r, pool')"
  shows "pool_ok pool'" and "r \<noteq> Panic" and "\<not> (\<exists>mkey. r = Ok mkey) \<Longrightarrow> pool' = pool"
    and "r = Ok mkey \<Longrightarrow> pool_resolve pool mid = Ok mkey \<and> pool_resolve pool' mid = Err (UnknownMemory mid) \<and>
      mkey \<notin> set (active_keys pool')"
proof -
  show "pool_ok pool'"
    using assms hm.wf_del [of "pool_live pool" mid]
    by (auto simp: pool_remove_def pool_ok_def active_keys_def hm_remove_filter list_all_iff
        intro!: distinct_map_filter split: if_splits option.splits)
  show "r = Ok mkey \<Longrightarrow> pool_resolve pool mid = Ok mkey \<and> pool_resolve pool' mid = Err (UnknownMemory mid) \<and>
      mkey \<notin> set (active_keys pool')"
    using assms hm.get_del [of "pool_live pool" mid]
    by (auto simp: pool_remove_def pool_resolve_def active_keys_def pool_ok_def list_all_iff entry_ok_def hm.set_del
        split: if_splits option.splits dest!: map_of_SomeD)
      (metis fst_conv snd_conv)
qed (use assms in \<open>auto simp: pool_remove_def split: if_splits option.splits\<close>)

lemma pool_clear_ok: "pool_ok pool \<Longrightarrow> pool_ok (pool_clear pool)" "pool_ok pool \<Longrightarrow> pool_ok (pool_disconnect pool)"
  by (simp_all add: pool_ok_def pool_clear_def pool_disconnect_def active_keys_def hm.wf_empty)

section \<open>Clients of the pool\<close>

text \<open>Any sequence of operations, each with its own state of the world.\<close>

datatype pool_op = Op_add u32 u32 u32 raw_fd world | Op_remove u32 | Op_clear | Op_disconnect

definition pool_step :: "memory_pool \<Rightarrow> pool_op \<Rightarrow> memory_pool" where
  "pool_step pool x = (case x of
       Op_add mid t mflags fd w \<Rightarrow> fst (snd (pool_add mid t mflags fd (pool, w)))
     | Op_remove mid \<Rightarrow> snd (pool_remove mid pool)
     | Op_clear \<Rightarrow> pool_clear pool
     | Op_disconnect \<Rightarrow> pool_disconnect pool)"

definition retired :: "memory_key \<Rightarrow> memory_pool \<Rightarrow> bool" where
  "retired mkey pool \<longleftrightarrow> mk_generation mkey < pool_next_generation pool \<and> mkey \<notin> set (active_keys pool)"

lemma pool_add_cases:
  obtains (same) "fst (snd (pool_add mid t mflags fd (pool, w))) = pool"
  | (added) mkey where "add_post mid mflags fd pool mkey (fst (snd (pool_add mid t mflags fd (pool, w))))"
  using validD [OF pool_add_valid [of pool mid t mflags fd], of "(pool, w)"]
  by (auto simp: ends_def split: prod.splits result.splits)

lemma pool_step_ok: "pool_ok pool \<Longrightarrow> pool_ok (pool_step pool x)"
proof (cases x)
  case (Op_add mid t mflags fd w)
  assume "pool_ok pool"
  then show ?thesis
    by (cases rule: pool_add_cases [of mid t mflags fd pool w]) (auto simp: Op_add pool_step_def dest: add_post_ok)
next
  case (Op_remove mid)
  assume "pool_ok pool"
  with Op_remove show ?thesis
    using pool_remove_ok(1) [of pool mid] by (cases "pool_remove mid pool") (auto simp: pool_step_def)
qed (simp_all add: pool_step_def pool_clear_ok)

lemma add_post_keys:
  "pool_ok pool \<Longrightarrow> add_post mid mflags fd pool mkey pool' \<Longrightarrow> set (active_keys pool') = insert mkey (set (active_keys pool))"
  by (auto simp: add_post_def active_keys_def hm_insert_new map_of_eq_None_iff)

lemma pool_remove_keys: "set (active_keys (snd (pool_remove mid pool))) \<subseteq> set (active_keys pool)"
  by (auto simp: pool_remove_def active_keys_def hm_remove_filter split: option.splits)

lemma pool_remove_generation: "pool_next_generation (snd (pool_remove mid pool)) = pool_next_generation pool"
  by (simp add: pool_remove_def split: option.splits)

lemma pool_step_retired:
  assumes "pool_ok pool" and "retired mkey pool"
  shows "retired mkey (pool_step pool x)"
proof (cases x)
  case (Op_add mid t mflags fd w)
  show ?thesis
  proof (cases rule: pool_add_cases [of mid t mflags fd pool w])
    case (added mkey')
    with add_post_ok [OF assms(1) added] add_post_keys [OF assms(1) added] assms(2) show ?thesis
      by (auto simp: Op_add pool_step_def retired_def)
  qed (use assms in \<open>simp add: Op_add pool_step_def\<close>)
next
  case (Op_remove mid)
  with assms(2) pool_remove_keys [of mid pool] show ?thesis
    by (auto simp: pool_step_def retired_def pool_remove_generation)
qed (use assms in \<open>simp_all add: pool_step_def pool_clear_def pool_disconnect_def retired_def active_keys_def\<close>)

lemma pool_step_disconnected: "pool_disconnected pool \<Longrightarrow> pool_disconnected (pool_step pool x)"
  by (cases x) (auto simp: pool_step_def pool_remove_def pool_clear_def pool_disconnect_def pool_add_def obind_def)

interpretation retirement: op_terminal pool_step "\<lambda>_. True" pool_ok "retired mkey" for mkey
  by unfold_locales (simp_all add: pool_step_ok pool_step_retired)

interpretation disconnection: op_terminal pool_step "\<lambda>_. True" pool_ok pool_disconnected
  by unfold_locales (simp_all add: pool_step_ok pool_step_disconnected)

lemma retired_active: "pool_ok pool \<Longrightarrow> retired mkey pool \<Longrightarrow> \<exists>e. pool_active pool mkey = Err e"
  by (force simp: retired_def pool_active_def active_keys_def ok_or_def dest: map_of_SomeD split: option.splits)

lemma active_not_retired: "pool_ok pool \<Longrightarrow> pool_active pool mkey = Ok entry \<Longrightarrow> mkey \<in> set (active_keys pool)"
  by (force simp: pool_active_def active_keys_def ok_simps dest: map_of_SomeD split: if_splits)

end
