(* ===== verification/Node_Activation.thy ===== *)
theory Node_Activation
  imports Node_Memory
begin

text \<open>
  The activation record shared with the server and with downstream nodes (\<open>session::activation\<close>):
  a view checks size, alignment and version once and then addresses single fields. The transitions
  of the status are compare-and-swap steps, between which other processes may act.
\<close>

section \<open>Layout\<close>

definition ACT_SIZE :: nat where "ACT_SIZE = 2312"
definition ACT_ALIGN :: nat where "ACT_ALIGN = 8"
definition STATUS :: nat where "STATUS = 0"
definition STATE0_STATUS :: nat where "STATE0_STATUS = 8"
definition STATE0_REQUIRED :: nat where "STATE0_REQUIRED = 12"
definition STATE0_PENDING :: nat where "STATE0_PENDING = 16"
definition SIGNAL_TIME :: nat where "SIGNAL_TIME = 32"
definition AWAKE_TIME :: nat where "AWAKE_TIME = 40"
definition FINISH_TIME :: nat where "FINISH_TIME = 48"
definition CLIENT_VERSION :: nat where "CLIENT_VERSION = 540"
definition SERVER_VERSION :: nat where "SERVER_VERSION = 544"
definition ACTIVATION_VERSION :: u32 where "ACTIVATION_VERSION = 1"

lemmas layout = ACT_SIZE_def ACT_ALIGN_def STATUS_def STATE0_STATUS_def STATE0_REQUIRED_def STATE0_PENDING_def
  SIGNAL_TIME_def AWAKE_TIME_def FINISH_TIME_def CLIENT_VERSION_def SERVER_VERSION_def ACTIVATION_VERSION_def

datatype activation_status = NotTriggered | Triggered | Awake | Finished | Inactive

definition status_u32 :: "activation_status \<Rightarrow> u32" where
  "status_u32 s = (case s of NotTriggered \<Rightarrow> 0 | Triggered \<Rightarrow> 1 | Awake \<Rightarrow> 2 | Finished \<Rightarrow> 3 | Inactive \<Rightarrow> 4)"

datatype (plugins only: code size) activation_error =
    Act_null
  | Undersized nat nat
  | Act_misaligned nat nat
  | UnsupportedVersion u32
  | UnknownStatus u32
  | Act_invalid_transition activation_status activation_status
  | InvalidPending i32

definition activation_status_of :: "u32 \<Rightarrow> (activation_status, activation_error) result" where
  "activation_status_of v =
     (if v = 0 then Ok NotTriggered else if v = 1 then Ok Triggered else if v = 2 then Ok Awake
      else if v = 3 then Ok Finished else if v = 4 then Ok Inactive else Err (UnknownStatus v))"

datatype trigger_outcome = Waiting i32 | Outcome_triggered

section \<open>Views\<close>

text \<open>A view is the pointer to the record.\<close>

definition activation_from_raw_parts :: "mptr \<Rightarrow> nat \<Rightarrow> (world, mptr, activation_error) op" where
  "activation_from_raw_parts base len =
     (if mp_addr base = 0 then ofail Act_null
      else if len < ACT_SIZE then ofail (Undersized len ACT_SIZE)
      else if mp_addr base mod ACT_ALIGN \<noteq> 0 then ofail (Act_misaligned (mp_addr base) ACT_ALIGN)
      else obind (load_u32 base SERVER_VERSION) (\<lambda>version.
        if version \<noteq> ACTIVATION_VERSION then ofail (UnsupportedVersion version) else oreturn base))"

definition initialize_client_v1 :: "mptr \<Rightarrow> (world, unit, 'e) op" where
  "initialize_client_v1 view = store_u32 view CLIENT_VERSION ACTIVATION_VERSION"

definition read_status :: "mptr \<Rightarrow> (world, activation_status, activation_error) op" where
  "read_status view = obind (load_u32 view STATUS) (\<lambda>v. olift (activation_status_of v))"

definition transition :: "mptr \<Rightarrow> activation_status \<Rightarrow> activation_status \<Rightarrow> (world, unit, activation_error) op" where
  "transition view frm to =
     obind (cas_u32 view STATUS (status_u32 frm) (status_u32 to)) (\<lambda>(swapped, actual).
       if swapped then oreturn ()
       else obind (olift (activation_status_of actual)) (\<lambda>actual. ofail (Act_invalid_transition frm actual)))"

definition mark_ready :: "mptr \<Rightarrow> (world, unit, activation_error) op" where
  "mark_ready view = transition view Inactive Finished"

definition deactivate :: "mptr \<Rightarrow> (world, activation_status, activation_error) op" where
  "deactivate view = obind (swap_u32 view STATUS (status_u32 Inactive)) (\<lambda>v. olift (activation_status_of v))"

text \<open>A claim is the view it was made on.\<close>

definition claim_cycle :: "mptr \<Rightarrow> u64 \<Rightarrow> (world, mptr, activation_error) op" where
  "claim_cycle view now = othen (transition view Triggered Awake) (othen (store_u64 view AWAKE_TIME now) (oreturn view))"

definition process_result :: "mptr \<Rightarrow> (world, i32, 'e) op" where
  "process_result view = load_u32 view STATE0_STATUS"

definition required :: "mptr \<Rightarrow> (world, i32, 'e) op" where
  "required view = load_u32 view STATE0_REQUIRED"

definition set_required :: "mptr \<Rightarrow> i32 \<Rightarrow> (world, unit, 'e) op" where
  "set_required view n = store_u32 view STATE0_REQUIRED n"

definition pending :: "mptr \<Rightarrow> (world, i32, 'e) op" where
  "pending view = load_u32 view STATE0_PENDING"

definition reset_pending :: "mptr \<Rightarrow> (world, i32, activation_error) op" where
  "reset_pending view =
     obind (required view) (\<lambda>n.
       if sint n < 0 then ofail (InvalidPending n)
       else othen (store_u32 view STATE0_PENDING n) (oreturn n))"

text \<open>
  The retry loop. A swap fails only when another process changed the counter since it was read; the
  loop ends with the script of interferences.
\<close>

lemma cas_script: "cas_u32 p off a v w = (r, w') \<Longrightarrow> w_script w' = tl (w_script w)"
  by (auto simp: cas_u32_def access_def Let_def split: prod.splits)

lemma cas_quiet:
  assumes "w_script w = []" and "cas_u32 p off a v w = (Ok (False, actual), w')"
  shows "w' = w" and "actual = u32_of_bytes (read_mem (c_mem (w_core w)) p off 4)" and "actual \<noteq> a"
  using assms by (auto simp: cas_u32_def access_def Let_def split: if_splits)

lemma cas_retry:
  assumes "cas_u32 view off current v w = (Ok (False, actual), w')"
  shows "length (w_script w') < length (w_script w) \<or>
    (w' = w \<and> actual = u32_of_bytes (read_mem (c_mem (w_core w)) view off 4) \<and> actual \<noteq> current)"
  using cas_script [OF assms] cas_quiet [OF _ assms] by (cases "w_script w") auto

function decrement_pending :: "mptr \<Rightarrow> i32 \<Rightarrow> (world, i32, activation_error) op" where
  "decrement_pending view current w =
     (if sint current \<le> 0 then (Err (InvalidPending current), w)
      else case cas_u32 view STATE0_PENDING current (current - 1) w of
        (Ok (True, _), w') \<Rightarrow> (Ok current, w')
      | (Ok (False, actual), w') \<Rightarrow> decrement_pending view actual w'
      | (Err e, w') \<Rightarrow> (Err e, w')
      | (Panic, w') \<Rightarrow> (Panic, w'))"
  by pat_completeness auto

termination
  by (relation "measures [\<lambda>(view, current, w). length (w_script w),
      \<lambda>(view, current, w). if u32_of_bytes (read_mem (c_mem (w_core w)) view STATE0_PENDING 4) = current then 0 else 1]")
    (auto dest!: cas_retry [OF sym])

declare decrement_pending.simps [simp del]

definition decrement_pending_and_trigger :: "mptr \<Rightarrow> u64 \<Rightarrow> (world, trigger_outcome, activation_error) op" where
  "decrement_pending_and_trigger view now =
     obind (pending view) (\<lambda>current.
     obind (decrement_pending view current) (\<lambda>current.
       if sint current > 1 then oreturn (Waiting (current - 1))
       else othen (transition view NotTriggered Triggered)
              (othen (store_u64 view SIGNAL_TIME now) (oreturn Outcome_triggered))))"

definition signal_time :: "mptr \<Rightarrow> (world, u64, 'e) op" where
  "signal_time view = load_u64 view SIGNAL_TIME"

definition awake_time :: "mptr \<Rightarrow> (world, u64, 'e) op" where
  "awake_time view = load_u64 view AWAKE_TIME"

definition finish_time :: "mptr \<Rightarrow> (world, u64, 'e) op" where
  "finish_time view = load_u64 view FINISH_TIME"

definition publish_result_and_finish :: "mptr \<Rightarrow> i32 \<Rightarrow> u64 \<Rightarrow> (world, unit, activation_error) op" where
  "publish_result_and_finish claim process_status now =
     othen (store_u32 claim STATE0_STATUS process_status)
    (othen (store_u64 claim FINISH_TIME now)
           (transition claim Awake Finished))"

section \<open>No panics\<close>

lemma status_of_not_panic [simp]: "activation_status_of v \<noteq> Panic"
  by (simp add: activation_status_of_def)

lemma total_transition [total_intros]: "total_op (transition view a b)"
  unfolding transition_def by (intro total_intros) simp_all

lemma cas_value: "\<exists>ok actual w'. cas_u32 p off a v w = (Ok (ok, actual), w')"
  using total_loads(6) [of p off a v] unfolding cas_u32_def access_def Let_def by (auto split: prod.splits)

lemma total_decrement [total_intros]: "total_op (decrement_pending view current)"
  unfolding total_op_def
proof
  fix w
  show "fst (decrement_pending view current w) \<noteq> Panic"
  proof (induction view current w rule: decrement_pending.induct)
    case (1 view current w)
    obtain ok actual w' where cas: "cas_u32 view STATE0_PENDING current (current - 1) w =
        ((Ok (ok, actual) :: (_, activation_error) result), w')"
      using cas_value by blast
    with 1 [OF _ cas [symmetric]] show ?case
      by (cases ok) (simp_all add: decrement_pending.simps [of view current w])
  qed
qed

lemma total_activation [total_intros]:
  "total_op (activation_from_raw_parts base len)" "total_op (initialize_client_v1 view)"
  "total_op (read_status view)" "total_op (mark_ready view)" "total_op (deactivate view)"
  "total_op (claim_cycle view now)" "total_op (reset_pending view)"
  "total_op (decrement_pending_and_trigger view now)" "total_op (publish_result_and_finish view s now)"
  unfolding activation_from_raw_parts_def initialize_client_v1_def read_status_def mark_ready_def deactivate_def
    claim_cycle_def reset_pending_def required_def pending_def decrement_pending_and_trigger_def
    publish_result_and_finish_def
  by (intro total_intros; simp)+

section \<open>Undisturbed transitions\<close>

lemma status_u32_inj [simp]: "status_u32 a = status_u32 b \<longleftrightarrow> a = b"
  by (cases a; cases b) (simp_all add: status_u32_def)

lemma status_of_u32 [simp]: "activation_status_of (status_u32 s) = Ok s"
  by (cases s) (simp_all add: activation_status_of_def status_u32_def)

definition act_status :: "shared_memory \<Rightarrow> mptr \<Rightarrow> u32" where
  "act_status m view = field32 m view STATUS"

definition act_pending :: "shared_memory \<Rightarrow> mptr \<Rightarrow> i32" where
  "act_pending m view = field32 m view STATE0_PENDING"

text \<open>What a view needs of its region.\<close>

definition view_ok :: "shared_memory \<Rightarrow> mptr \<Rightarrow> nat \<Rightarrow> bool" where
  "view_ok m p len \<longleftrightarrow> mp_addr p \<noteq> 0 \<and> ACT_SIZE \<le> len \<and> mp_addr p mod ACT_ALIGN = 0 \<and>
     field32 m p SERVER_VERSION = ACTIVATION_VERSION"

lemma from_raw_parts_quiet:
  assumes "w_script w = []"
  shows "activation_from_raw_parts p len w = (Ok v, w') \<longleftrightarrow> view_ok (mem w) p len \<and> v = p \<and> w' = w"
  using assms
  by (auto simp: activation_from_raw_parts_def view_ok_def obind_def access_simps)

lemma transition_quiet:
  assumes "w_script w = []"
  shows "transition view a b w =
    (if act_status (mem w) view = status_u32 a
     then (Ok (), set_mem (put32 view STATUS (status_u32 b) (mem w)) w)
     else (rbind (activation_status_of (act_status (mem w) view)) (\<lambda>s. Err (Act_invalid_transition a s)), w))"
  using assms
  by (auto simp: transition_def obind_def access_simps Let_def act_status_def rbind_def split: result.splits)

section \<open>Concurrent decrements\<close>

text \<open>
  Other processes decrement the same counter. A script of such decrements, in any interleaving
  with steps that leave the counter alone, never makes this process lose or repeat one: it
  returns the value it replaced, and exactly one decrement of its own was made.
\<close>

definition foreign_decrement :: "mptr \<Rightarrow> core \<Rightarrow> core" where
  "foreign_decrement view c = c\<lparr>c_mem := put32 view STATE0_PENDING (act_pending (c_mem c) view - 1) (c_mem c)\<rparr>"

definition leaves_pending :: "mptr \<Rightarrow> (core \<Rightarrow> core) \<Rightarrow> bool" where
  "leaves_pending view f \<longleftrightarrow> (\<forall>c. act_pending (c_mem (f c)) view = act_pending (c_mem c) view)"

inductive decrements :: "mptr \<Rightarrow> (core \<Rightarrow> core) list \<Rightarrow> nat \<Rightarrow> bool" for view where
  none: "decrements view [] 0"
| decrement: "decrements view fs k \<Longrightarrow> decrements view (foreign_decrement view # fs) (Suc k)"
| other: "leaves_pending view f \<Longrightarrow> decrements view fs k \<Longrightarrow> decrements view (f # fs) k"

inductive_simps decrements_Nil [simp]: "decrements view [] k"

definition pending_nat :: "world \<Rightarrow> mptr \<Rightarrow> nat" where
  "pending_nat w view = unat (act_pending (mem w) view)"

lemma unat_minus_1: "0 < unat (v :: u32) \<Longrightarrow> unat (v - 1) = unat v - 1"
  by (metis less_not_refl2 unat_0 unat_minus_one)

lemma sint_pos: "0 < unat (v :: i32) \<Longrightarrow> unat v < 2 ^ 31 \<Longrightarrow> 0 < sint v"
  by (metis of_nat_0_less_iff sint_small)

lemma tick_decrements:
  assumes "decrements view (w_script w) k" and "k < pending_nat w view"
  obtains k' where "decrements view (w_script (tick w)) k'" and "k' \<le> k"
    and "pending_nat (tick w) view + (k - k') = pending_nat w view"
proof (cases "w_script w")
  case Nil
  with assms that [of k] show ?thesis by simp
next
  case (Cons f fs)
  with assms(1) have "decrements view (f # fs) k"
    by simp
  then show ?thesis
  proof cases
    case (decrement j)
    have "act_pending (mem (tick w)) view = act_pending (mem w) view - 1"
      using Cons decrement by (simp add: tick_def foreign_decrement_def act_pending_def)
    moreover have "0 < unat (act_pending (mem w) view)"
      using assms(2) by (simp add: pending_nat_def)
    ultimately have "pending_nat (tick w) view + 1 = pending_nat w view"
      by (simp add: pending_nat_def unat_minus_1)
    with decrement Cons that [of j] show ?thesis by simp
  next
    case other
    then have "pending_nat (tick w) view = pending_nat w view"
      using Cons by (simp add: pending_nat_def tick_def leaves_pending_def)
    with other Cons that [of k] show ?thesis by simp
  qed
qed

lemma decrement_concurrent:
  assumes "decrements view (w_script w) k" and "k < pending_nat w view" and "pending_nat w view < 2 ^ 31"
    and "0 < sint current"
  shows "\<exists>k' w'. decrement_pending view current w = (Ok (act_pending (mem w') view + 1), w') \<and>
    decrements view (w_script w') k' \<and> k' \<le> k \<and> pending_nat w' view + 1 + (k - k') = pending_nat w view"
  using assms
proof (induction view current w arbitrary: k rule: decrement_pending.induct)
  case (1 view current w)
  obtain j where j: "decrements view (w_script (tick w)) j" "j \<le> k"
      "pending_nat (tick w) view + (k - j) = pending_nat w view"
    using tick_decrements [OF "1.prems"(1,2)] .
  let ?seen = "act_pending (mem (tick w)) view"
  show ?case
  proof (cases "?seen = current")
    case True
    let ?w = "set_mem (put32 view STATE0_PENDING (current - 1) (mem (tick w))) (tick w)"
    have "decrement_pending view current w = (Ok current, ?w)"
      using True "1.prems"(4) by (simp add: decrement_pending.simps [of view current w] access_simps act_pending_def Let_def)
    moreover have "act_pending (mem ?w) view = current - 1"
      by (simp add: act_pending_def)
    moreover from this have "pending_nat ?w view + 1 = pending_nat (tick w) view"
      using True j "1.prems"(2) by (simp add: pending_nat_def unat_minus_1)
    ultimately show ?thesis
      using j by (intro exI [of _ j] exI [of _ ?w]) simp
  next
    case False
    have pos: "j < pending_nat (tick w) view" "pending_nat (tick w) view < 2 ^ 31"
      using j "1.prems"(2,3) by simp_all
    then have seen: "0 < sint ?seen"
      by (simp add: pending_nat_def sint_pos)
    have cas: "cas_u32 view STATE0_PENDING current (current - 1) w =
        ((Ok (False, ?seen) :: (_, activation_error) result), tick w)"
      using False by (simp add: access_simps act_pending_def Let_def)
    obtain k' w' where "decrement_pending view ?seen (tick w) = (Ok (act_pending (mem w') view + 1), w')"
        "decrements view (w_script w') k'" "k' \<le> j" "pending_nat w' view + 1 + (j - k') = pending_nat (tick w) view"
      using "1.IH" [OF _ cas [symmetric] refl refl _ j(1) pos seen] "1.prems"(4) by auto
    moreover have "decrement_pending view current w = decrement_pending view ?seen (tick w)"
      using cas "1.prems"(4) by (simp add: decrement_pending.simps [of view current w])
    ultimately show ?thesis
      using j(2,3) by (intro exI [of _ k'] exI [of _ w']) simp
  qed
qed

end
