(* ===== verification/Node_Error.thy ===== *)
theory Node_Error
  imports Node_Activation
begin

text \<open>
  The error vocabulary of a node session (\<open>session::error\<close>, with the errors of its ports and
  cycles). A static message of the source is kept as a literal.
\<close>

datatype (plugins only: code size) port_error =
    Port_null String.literal
  | InvalidSize String.literal nat nat
  | Port_misaligned String.literal nat nat
  | AsyncBuffersUnsupported
  | MediaRegionTooLarge
  | ZeroMaxSize
  | MaxSizeOutOfRange nat
  | MediaRangeOverflow
  | MediaRangeOutOfBounds nat nat
  | WrappedChunk nat nat nat
  | InvalidStride i32 nat

datatype (plugins only: code size) cycle_error =
    InvalidBufferId u32 nat
  | CapacityExceeded nat nat
  | ChunkSizeOverflow nat
  | FrameCountOverflow nat
  | Cycle_port port_error
  | NoCommittedCycle

datatype (plugins only: code size) unsupported_feature =
    InputDirection
  | Mix u32
  | Port u32
  | AsyncIo
  | ClientAllocatedBuffers
  | BufferFlags u32
  | DataPlane
  | DataFlags u32
  | MediaFormat
  | SampleFormat u32
  | Parameter u32
  | IoType u32

datatype (plugins only: code size) session_error =
    Unsupported unsupported_feature
  | Overflow String.literal
  | TooManyDescriptors String.literal
  | InvalidFormat String.literal
  | Memory_error memory_error
  | Activation_error activation_error
  | Port_error port_error
  | Cycle_error cycle_error
  | Signal_error sys_error
  | Session_stale_generation nat nat
  | PeerTrigger u32 activation_error
  | PeerSignal u32 sys_error
  | NotReady String.literal
  | InvalidTransition String.literal
  | Callback String.literal
  | CallbackPanicked
  | FinishClockPanicked
  | Session_disconnected

end
