(* ===== verification/Node_Config.thy ===== *)
theory Node_Config
  imports Node_Error Client_Node_Wire Pod_Robustness
begin

text \<open>
  The configuration a node session accepts (\<open>session::config\<close>): conversion of the wire events to
  descriptors with their checks, and the negotiated audio format read from a Format object.
  \<open>from_bits\<close> is the conversion of property flags that the flags library generates.
\<close>

section \<open>Constants and data\<close>

definition OUTPUT_PORT :: u32 where "OUTPUT_PORT = 0"
definition MAX_SESSION_BUFFERS :: nat where "MAX_SESSION_BUFFERS = 64"
definition MAX_SESSION_METAS :: nat where "MAX_SESSION_METAS = 64"
definition MAX_SESSION_DATAS :: nat where "MAX_SESSION_DATAS = 1"
definition MAX_AUDIO_CHANNELS :: u32 where "MAX_AUDIO_CHANNELS = 64"
definition SPA_AUDIO_FORMAT_S16_LE :: u32 where "SPA_AUDIO_FORMAT_S16_LE = 0x103"
definition SPA_IO_ASYNC_BUFFERS :: u32 where "SPA_IO_ASYNC_BUFFERS = 10"

datatype audio_sample_format = S16Le

record audio_format =
  af_sample_format :: audio_sample_format
  af_rate :: u32
  af_channels :: "u32 list"
  af_bytes_per_sample :: nat
  af_frame_stride :: nat

record transport_descriptor =
  td_trigger_fd :: raw_fd
  td_completion_fd :: raw_fd
  td_activation :: memory_region

record peer_descriptor =
  pd_node :: u32
  pd_signal_fd :: raw_fd
  pd_activation :: memory_region

record port_io_descriptor =
  pio_port :: u32
  pio_region :: memory_region

datatype port_io_update = Io_set port_io_descriptor | Io_clear

datatype peer_update = Peer_set peer_descriptor | Peer_remove u32

record session_meta =
  sm_type_id :: u32
  sm_size :: nat

record session_buffer =
  sb_metadata :: memory_region
  sb_metas :: "session_meta list"
  sb_media_memory :: u32
  sb_map_offset :: nat
  sb_max_size :: nat

record buffer_set =
  bs_port :: u32
  bs_buffers :: "session_buffer list"

section \<open>Formats\<close>

definition validate_port :: "direction \<Rightarrow> u32 \<Rightarrow> u32 option \<Rightarrow> (u32, session_error) result" where
  "validate_port dir port_id mix_id =
     (if dir \<noteq> Output then Err (Unsupported InputDirection)
      else if port_id \<noteq> OUTPUT_PORT then Err (Unsupported (Port port_id))
      else case mix_id of Some mix \<Rightarrow> Err (Unsupported (Mix mix)) | None \<Rightarrow> Ok port_id)"

definition pcm_s16le :: "u32 \<Rightarrow> u32 \<Rightarrow> (audio_format, session_error) result" where
  "pcm_s16le rate channels =
     (if rate = 0 then Err (InvalidFormat STR ''zero sample rate'')
      else if channels = 0 then Err (InvalidFormat STR ''zero channel count'')
      else if channels > MAX_AUDIO_CHANNELS then Err (TooManyDescriptors STR ''audio channels'')
      else case checked_mul_usize (unat channels) 2 of
        None \<Rightarrow> Err (Overflow STR ''PCM frame stride'')
      | Some 0 \<Rightarrow> Err (Overflow STR ''PCM frame stride'')
      | Some stride \<Rightarrow> Ok \<lparr>af_sample_format = S16Le, af_rate = rate, af_channels = replicate (unat channels) 0,
          af_bytes_per_sample = 2, af_frame_stride = stride\<rparr>)"

text \<open>The properties of a Format object that are kept; a later one replaces an earlier one.\<close>

record format_values =
  fv_media_type :: "media_type option"
  fv_media_subtype :: "media_subtype option"
  fv_sample_format :: "u32 option"
  fv_rate :: "i32 option"
  fv_channels :: "i32 option"
  fv_positions :: "u32 id list option"

definition no_values :: format_values where
  "no_values = \<lparr>fv_media_type = None, fv_media_subtype = None, fv_sample_format = None, fv_rate = None,
     fv_channels = None, fv_positions = None\<rparr>"

definition pod_decode :: "('a, 'd) pod \<Rightarrow> raw_pod \<Rightarrow> 'd pod_result" where
  "pod_decode C pod = rbind (decode C (rp_data pod)) (\<lambda>(v, _). Ok v)"

definition id_of :: "'a id \<Rightarrow> 'a" where
  "id_of i = (case i of Id x \<Rightarrow> x)"

definition prim_u32_id :: "u32 id primitive" where
  "prim_u32_id = prim_id (\<lambda>x. x) Some"

definition format_property :: "format_key \<Rightarrow> raw_pod \<Rightarrow> format_values \<Rightarrow> format_values pod_result" where
  "format_property k pod v = (case k of
     Fmt_MediaType \<Rightarrow> rbind (pod_decode (pod_prim (prim_id (enum_into_u32 media_type_variants) (enum_try_from media_type_variants))) pod)
       (\<lambda>x. Ok (v\<lparr>fv_media_type := Some (id_of x)\<rparr>))
   | Fmt_MediaSubtype \<Rightarrow> rbind (pod_decode (pod_prim (prim_id (enum_into_u32 media_subtype_variants) (enum_try_from media_subtype_variants))) pod)
       (\<lambda>x. Ok (v\<lparr>fv_media_subtype := Some (id_of x)\<rparr>))
   | Fmt_AudioFormat \<Rightarrow> rbind (pod_decode (pod_prim prim_u32_id) pod) (\<lambda>x. Ok (v\<lparr>fv_sample_format := Some (id_of x)\<rparr>))
   | Fmt_AudioRate \<Rightarrow> rbind (pod_decode (pod_prim prim_i32) pod) (\<lambda>x. Ok (v\<lparr>fv_rate := Some x\<rparr>))
   | Fmt_AudioChannels \<Rightarrow> rbind (pod_decode (pod_prim prim_i32) pod) (\<lambda>x. Ok (v\<lparr>fv_channels := Some x\<rparr>))
   | Fmt_AudioPosition \<Rightarrow> rbind (pod_decode (pod_array prim_u32_id) pod) (\<lambda>x. Ok (v\<lparr>fv_positions := Some x\<rparr>))
   | _ \<Rightarrow> Ok v)"

function format_properties :: "(u32 \<Rightarrow> 'f option) \<Rightarrow> format_values \<Rightarrow> format_values parse" where
  "format_properties from_bits v p =
     (if available p = 0 then (Ok v, p)
      else case pop_property (enum_try_from format_key_variants) from_bits p of
        (Ok None, p') \<Rightarrow> (Ok v, p')
      | (Ok (Some (k, _, pod)), p') \<Rightarrow>
          (case format_property k pod v of
             Ok v' \<Rightarrow> format_properties from_bits v' p'
           | Err e \<Rightarrow> (Err e, p')
           | Panic \<Rightarrow> (Panic, p'))
      | (Err e, p') \<Rightarrow> (Err e, p')
      | (Panic, p') \<Rightarrow> (Panic, p'))"
  by pat_completeness auto

termination
  by (relation "measure (\<lambda>(f, v, p). available p)") (auto dest: pop_property_shrinks [OF sym])

declare format_properties.simps [simp del]

definition parse_format :: "(u32 \<Rightarrow> 'f option) \<Rightarrow> byte list \<Rightarrow> format_values pod_result" where
  "parse_format from_bits data =
     rbind (fst (pop_object format_key_TYPE (enum_try_from param_type_variants)
       (\<lambda>i. if i \<noteq> PT_Format then lift_result (Err (wire_invalid Not_a_Format_object))
             else format_properties from_bits no_values) (parser_new data))) (\<lambda>(v, _). Ok v)"

definition u32_try_from_i32 :: "i32 \<Rightarrow> u32 option" where
  "u32_try_from_i32 v = (if sint v < 0 then None else Some v)"

definition format_from_wire :: "(u32 \<Rightarrow> 'f option) \<Rightarrow> port_set_param \<Rightarrow> (audio_format, session_error) result" where
  "format_from_wire from_bits x =
     rbind (validate_port (sp_direction x) (sp_port_id x) None) (\<lambda>_.
     if sp_param_id x \<noteq> SPA_PARAM_FORMAT then Err (Unsupported (Parameter (sp_param_id x)))
     else rbind (ok_or (sp_param x) (InvalidFormat STR ''format was cleared'')) (\<lambda>pod.
     rbind (map_err (\<lambda>_. InvalidFormat STR ''malformed Format POD'') (parse_format from_bits (rp_data pod))) (\<lambda>v.
     if fv_media_type v \<noteq> Some MT_Audio \<or> fv_media_subtype v \<noteq> Some MS_Raw then Err (Unsupported MediaFormat)
     else if fv_sample_format v \<noteq> Some SPA_AUDIO_FORMAT_S16_LE
       then Err (Unsupported (SampleFormat (case fv_sample_format v of Some f \<Rightarrow> f | None \<Rightarrow> 0)))
     else
     rbind (ok_or (fv_rate v) (InvalidFormat STR ''missing sample rate'')) (\<lambda>rate.
     rbind (ok_or (u32_try_from_i32 rate) (InvalidFormat STR ''invalid sample rate'')) (\<lambda>rate.
     rbind (ok_or (fv_channels v) (InvalidFormat STR ''missing channel count'')) (\<lambda>channels.
     rbind (ok_or (u32_try_from_i32 channels) (InvalidFormat STR ''invalid channel count'')) (\<lambda>channels.
     rbind (pcm_s16le rate channels) (\<lambda>format.
     case fv_positions v of
       None \<Rightarrow> Ok format
     | Some positions \<Rightarrow>
         if length positions \<noteq> length (af_channels format)
         then Err (InvalidFormat STR ''channel position count mismatch'')
         else Ok (format\<lparr>af_channels := map id_of positions\<rparr>)))))))))"

section \<open>Descriptors\<close>

definition region_try_from :: "region_ref \<Rightarrow> (memory_region, session_error) result" where
  "region_try_from r =
     (let len = unat (rr_size r) in
      if len = 0 \<or> checked_add_usize (unat (rr_offset r)) len = None then Err (Overflow STR ''memory region'')
      else Ok \<lparr>mem_memory = rr_memory_id r, mem_offset = unat (rr_offset r), mem_len = len\<rparr>)"

definition transport_try_from :: "transport \<Rightarrow> (transport_descriptor, session_error) result" where
  "transport_try_from t =
     rbind (region_try_from (tr_activation t)) (\<lambda>r.
     Ok \<lparr>td_trigger_fd = tr_trigger_fd t, td_completion_fd = tr_completion_fd t, td_activation = r\<rparr>)"

definition buffer_try_from :: "buffer_descriptor \<Rightarrow> (session_buffer, session_error) result" where
  "buffer_try_from b =
     (if length (bd_metas b) > MAX_SESSION_METAS then Err (TooManyDescriptors STR ''metadata'')
      else if length (bd_datas b) \<noteq> MAX_SESSION_DATAS then Err (Unsupported DataPlane)
      else rbind (index_at (bd_datas b) 0) (\<lambda>data.
        if enum_try_from data_type_variants (dd_type_id data) \<noteq> Some DT_MemId then Err (Unsupported DataPlane)
        else if dd_flags data \<noteq> 0 then Err (Unsupported (DataFlags (dd_flags data)))
        else rbind (region_try_from (bd_metadata b)) (\<lambda>metadata.
          Ok \<lparr>sb_metadata = metadata,
              sb_metas = map (\<lambda>m. \<lparr>sm_type_id = md_type_id m, sm_size = unat (md_size m)\<rparr>) (bd_metas b),
              sb_media_memory = dd_data_id data, sb_map_offset = unat (dd_map_offset data),
              sb_max_size = unat (dd_max_size data)\<rparr>)))"

fun each_try_from :: "('a \<Rightarrow> ('b, 'e) result) \<Rightarrow> 'a list \<Rightarrow> ('b list, 'e) result" where
  "each_try_from f [] = Ok []"
| "each_try_from f (x # xs) = rbind (f x) (\<lambda>y. rbind (each_try_from f xs) (\<lambda>ys. Ok (y # ys)))"

definition buffer_set_try_from :: "port_use_buffers \<Rightarrow> (buffer_set, session_error) result" where
  "buffer_set_try_from v =
     rbind (validate_port (ub_direction v) (ub_port_id v) (ub_mix_id v)) (\<lambda>port.
     if ub_flags v AND SPA_NODE_BUFFERS_FLAG_ALLOC \<noteq> 0 then Err (Unsupported ClientAllocatedBuffers)
     else if ub_flags v \<noteq> 0 then Err (Unsupported (BufferFlags (ub_flags v)))
     else if length (ub_buffers v) > MAX_SESSION_BUFFERS then Err (TooManyDescriptors STR ''buffers'')
     else rbind (each_try_from buffer_try_from (ub_buffers v)) (\<lambda>bs. Ok \<lparr>bs_port = port, bs_buffers = bs\<rparr>))"

definition port_io_try_from :: "port_set_io \<Rightarrow> (port_io_update, session_error) result" where
  "port_io_try_from v = (case v of
     Io_Set dir port_id mix_id io_id region \<Rightarrow>
       rbind (validate_port dir port_id mix_id) (\<lambda>port.
       if io_id = SPA_IO_BUFFERS then
         rbind (region_try_from region) (\<lambda>r. Ok (Io_set \<lparr>pio_port = port, pio_region = r\<rparr>))
       else if io_id = SPA_IO_ASYNC_BUFFERS then Err (Unsupported AsyncIo)
       else Err (Unsupported (IoType io_id)))
   | Io_Clear dir port_id mix_id io_id \<Rightarrow>
       rbind (validate_port dir port_id mix_id) (\<lambda>_.
       if io_id \<noteq> SPA_IO_BUFFERS then Err (Unsupported (IoType io_id)) else Ok Io_clear))"

definition peer_try_from :: "set_activation \<Rightarrow> (peer_update, session_error) result" where
  "peer_try_from v = (case v of
     Activation_Set node_id fd region \<Rightarrow>
       rbind (region_try_from region) (\<lambda>r.
       Ok (Peer_set \<lparr>pd_node = node_id, pd_signal_fd = fd, pd_activation = r\<rparr>))
   | Activation_Remove node_id \<Rightarrow> Ok (Peer_remove node_id))"

section \<open>No panics\<close>

lemma pod_decode_total: "decode C data \<noteq> Panic \<Longrightarrow> rp_data pod = data \<Longrightarrow> pod_decode C pod \<noteq> Panic"
  by (auto simp: pod_decode_def panic_simps)

lemma format_property_total: "format_property k pod v \<noteq> Panic"
  unfolding format_property_def prim_u32_id_def
  by (cases k) (simp_all add: panic_simps pod_decode_total media_type.id.as_pod.decode_total
      media_subtype.id.as_pod.decode_total u32_id.id.as_pod.decode_total i32.as_pod.decode_total
      u32_id.id.as_array.decode_total)

lemma safe_format_properties: "parse_safe (format_properties from_bits v)"
proof -
  have "stays p (format_properties from_bits v p)" if "parser_wf p" for p
    using that
  proof (induction from_bits v p rule: format_properties.induct)
    case (1 from_bits v p)
    have first: "stays p (pop_property (enum_try_from format_key_variants) from_bits p)"
      by (rule parse_safeD [OF safe_pop_property "1.prems"])
    obtain r p' where pop: "pop_property (enum_try_from format_key_variants) from_bits p = (r, p')"
      by (cases "pop_property (enum_try_from format_key_variants) from_bits p")
    show ?case
    proof (cases "available p = 0")
      case False
      have step: "stays p (format_properties from_bits v' p')"
        if "r = Ok (Some (k, f, pod))" "format_property k pod v = Ok v'" for k f pod v'
        using "1.IH" [OF False pop [symmetric] that(1) refl refl refl that(2)] first pop
        by (force simp: stays_def split: prod.splits)
      show ?thesis
      proof (cases r)
        case (Ok x)
        show ?thesis
        proof (cases x)
          case (Some y)
          obtain k f pod where y: "y = (k, f, pod)"
            by (cases y)
          then show ?thesis
            using first pop False Ok Some step [of k f pod] format_property_total [of k pod v]
            by (simp add: format_properties.simps [of from_bits v p] split: result.splits) (simp add: stays_def)
        qed (use first pop False Ok in \<open>simp add: format_properties.simps [of from_bits v p] stays_def\<close>)
      qed (use first pop False in \<open>simp_all add: format_properties.simps [of from_bits v p] stays_def\<close>)
    qed (use "1.prems" in \<open>simp add: format_properties.simps [of from_bits v p] stays_def\<close>)
  qed
  then show ?thesis
    by (simp add: parse_safe_def)
qed

lemma parse_format_total: "parse_format from_bits data \<noteq> Panic"
proof -
  have "parse_safe (pop_object format_key_TYPE (enum_try_from param_type_variants)
       (\<lambda>i. if i \<noteq> PT_Format then lift_result (Err (wire_invalid Not_a_Format_object))
             else format_properties from_bits no_values))"
    by (rule safe_pop_object) (auto intro: safe_format_properties safe_intros)
  then show ?thesis
    by (auto simp: parse_format_def panic_simps dest: safe_new)
qed

lemma validate_port_total [simp]: "validate_port d p m \<noteq> Panic"
  by (simp add: validate_port_def split: option.splits)

lemma validate_port_Ok: "validate_port d p m = Ok port \<longleftrightarrow> d = Output \<and> p = OUTPUT_PORT \<and> m = None \<and> port = p"
  by (auto simp: validate_port_def split: if_splits option.splits)

lemma pcm_total [simp]: "pcm_s16le rate channels \<noteq> Panic"
  by (auto simp: pcm_s16le_def split: option.splits nat.splits)

lemma format_from_wire_total: "format_from_wire from_bits v \<noteq> Panic"
  using parse_format_total by (auto simp: format_from_wire_def panic_simps split: option.splits if_splits)

lemma region_try_from_total [simp]: "region_try_from r \<noteq> Panic"
  by (simp add: region_try_from_def Let_def)

lemma each_try_from_total: "(\<And>x. f x \<noteq> Panic) \<Longrightarrow> each_try_from f xs \<noteq> Panic"
  by (induction xs) (auto simp: panic_simps)

lemma buffer_try_from_total [simp]: "buffer_try_from b \<noteq> Panic"
  by (auto simp: buffer_try_from_def panic_simps MAX_SESSION_DATAS_def)

lemma try_from_total [simp]:
  "transport_try_from t \<noteq> Panic" "buffer_set_try_from v \<noteq> Panic" "port_io_try_from x \<noteq> Panic" "peer_try_from y \<noteq> Panic"
  by (auto simp: transport_try_from_def buffer_set_try_from_def port_io_try_from_def peer_try_from_def panic_simps
      each_try_from_total split: port_set_io.splits set_activation.splits)

section \<open>What a conversion guarantees\<close>

definition format_ok :: "audio_format \<Rightarrow> bool" where
  "format_ok f \<longleftrightarrow> af_sample_format f = S16Le \<and> af_rate f \<noteq> 0 \<and> af_bytes_per_sample f = 2 \<and>
     af_frame_stride f = 2 * length (af_channels f) \<and> 1 \<le> length (af_channels f) \<and> length (af_channels f) \<le> 64"

definition region_wf :: "memory_region \<Rightarrow> bool" where
  "region_wf r \<longleftrightarrow> 0 < mem_len r \<and> mem_len r < 2 ^ 32 \<and> mem_offset r < 2 ^ 32"

definition session_buffer_ok :: "session_buffer \<Rightarrow> bool" where
  "session_buffer_ok b \<longleftrightarrow> region_wf (sb_metadata b) \<and> length (sb_metas b) \<le> MAX_SESSION_METAS \<and>
     sb_map_offset b < 2 ^ 32 \<and> sb_max_size b < 2 ^ 32"

definition buffer_set_ok :: "buffer_set \<Rightarrow> bool" where
  "buffer_set_ok b \<longleftrightarrow> bs_port b = OUTPUT_PORT \<and> length (bs_buffers b) \<le> MAX_SESSION_BUFFERS \<and>
     list_all session_buffer_ok (bs_buffers b)"

lemma pcm_Ok: "pcm_s16le rate channels = Ok f \<Longrightarrow> format_ok f \<and> af_rate f = rate \<and> length (af_channels f) = unat channels"
  by (auto simp: pcm_s16le_def format_ok_def checked_mul_usize_def MAX_AUDIO_CHANNELS_def word_less_nat_alt
      unat_eq_0 [symmetric] Suc_le_eq not_less split: if_splits option.splits nat.splits)

lemma format_from_wire_Ok:
  assumes "format_from_wire from_bits v = Ok f"
  shows "format_ok f" and "sp_direction v = Output" and "sp_port_id v = OUTPUT_PORT" and "sp_param_id v = SPA_PARAM_FORMAT"
  using assms pcm_Ok
  by (fastforce simp: format_from_wire_def ok_simps validate_port_Ok format_ok_def split: if_splits option.splits)+

lemma region_try_from_Ok:
  assumes "region_try_from r = Ok m"
  shows "region_wf m" and "mem_memory m = rr_memory_id r" and "mem_offset m = unat (rr_offset r)" and "mem_len m = unat (rr_size r)"
  using assms unat_u32_less [of "rr_offset r"] unat_u32_less [of "rr_size r"]
  by (auto simp: region_try_from_def region_wf_def Let_def split: if_splits)

text \<open>Two 32-bit numbers never overflow a 64-bit sum: only an empty region is refused.\<close>

lemma region_try_from_iff: "(\<exists>m. region_try_from r = Ok m) \<longleftrightarrow> rr_size r \<noteq> 0"
proof -
  have "unat (rr_offset r) + unat (rr_size r) < usize_limit"
    using add_less_mono [OF unat_u32_less [of "rr_offset r"] unat_u32_less [of "rr_size r"]]
    by (simp add: usize_limit_def)
  then show ?thesis
    by (simp add: region_try_from_def Let_def checked_add_usize_def unat_eq_0)
qed

lemma each_try_from_Ok: "each_try_from f xs = Ok ys \<Longrightarrow> length ys = length xs \<and> list_all2 (\<lambda>x y. f x = Ok y) xs ys"
  by (induction xs arbitrary: ys) (auto simp: ok_simps)

lemma buffer_try_from_Ok: "buffer_try_from b = Ok s \<Longrightarrow> session_buffer_ok s"
  by (auto simp: buffer_try_from_def session_buffer_ok_def ok_simps region_try_from_Ok split: if_splits)

lemma buffer_set_try_from_Ok:
  assumes "buffer_set_try_from v = Ok b"
  shows "buffer_set_ok b" and "length (bs_buffers b) = length (ub_buffers v)"
proof -
  have each: "each_try_from buffer_try_from (ub_buffers v) = Ok (bs_buffers b)" "length (ub_buffers v) \<le> MAX_SESSION_BUFFERS"
      "bs_port b = OUTPUT_PORT"
    using assms by (auto simp: buffer_set_try_from_def ok_simps validate_port_Ok split: if_splits)
  from each_try_from_Ok [OF each(1)] show "length (bs_buffers b) = length (ub_buffers v)"
    by simp
  have "list_all session_buffer_ok (bs_buffers b)"
    using each_try_from_Ok [OF each(1)] buffer_try_from_Ok
    by (fastforce simp: list_all_length list_all2_conv_all_nth)
  then show "buffer_set_ok b"
    using each each_try_from_Ok [OF each(1)] by (simp add: buffer_set_ok_def)
qed

end
