(* ===== verification/Node_Port.thy ===== *)
theory Node_Port
  imports Node_Config
begin

text \<open>
  Buffers of the output port in shared memory (\<open>session::port\<close>) and one cycle on them
  (\<open>session::cycle\<close>): the server selects a buffer, the callback fills and commits it, and chunk and
  IO record are published, or aborted when the cycle ends without a commit.
\<close>

section \<open>Layout\<close>

definition IO_BUFFERS_SIZE :: nat where "IO_BUFFERS_SIZE = 8"
definition IO_BUFFERS_ALIGN :: nat where "IO_BUFFERS_ALIGN = 4"
definition IO_STATUS :: nat where "IO_STATUS = 0"
definition IO_BUFFER_ID :: nat where "IO_BUFFER_ID = 4"
definition CHUNK_SIZE :: nat where "CHUNK_SIZE = 16"
definition CHUNK_ALIGN :: nat where "CHUNK_ALIGN = 4"
definition CHUNK_OFFSET :: nat where "CHUNK_OFFSET = 0"
definition CHUNK_DATA_SIZE :: nat where "CHUNK_DATA_SIZE = 4"
definition CHUNK_STRIDE :: nat where "CHUNK_STRIDE = 8"
definition CHUNK_FLAGS :: nat where "CHUNK_FLAGS = 12"

lemmas port_layout = IO_BUFFERS_SIZE_def IO_BUFFERS_ALIGN_def IO_STATUS_def IO_BUFFER_ID_def CHUNK_SIZE_def
  CHUNK_ALIGN_def CHUNK_OFFSET_def CHUNK_DATA_SIZE_def CHUNK_STRIDE_def CHUNK_FLAGS_def

datatype buffer_status = BS_Ok | NeedData | HaveData | Stopped_status | Drained

definition buffer_status_i32 :: "buffer_status \<Rightarrow> i32" where
  "buffer_status_i32 s = (case s of BS_Ok \<Rightarrow> 0 | NeedData \<Rightarrow> 1 | HaveData \<Rightarrow> 2 | Stopped_status \<Rightarrow> 4 | Drained \<Rightarrow> 8)"

datatype port_io_type = Buffers | AsyncBuffers

record buffers_io_state =
  io_status :: i32
  io_buffer_id :: u32

record chunk_state =
  ck_offset :: u32
  ck_size :: u32
  ck_stride :: i32
  ck_flags :: u32

section \<open>Views\<close>

definition checked_record :: "mptr \<Rightarrow> nat \<Rightarrow> nat \<Rightarrow> nat \<Rightarrow> String.literal \<Rightarrow> (mptr, port_error) result" where
  "checked_record base len needed align what =
     (if mp_addr base = 0 then Err (Port_null what)
      else if len \<noteq> needed then Err (InvalidSize what len needed)
      else if mp_addr base mod align \<noteq> 0 then Err (Port_misaligned what (mp_addr base) align)
      else Ok base)"

definition io_from_raw_parts :: "port_io_type \<Rightarrow> mptr \<Rightarrow> nat \<Rightarrow> (mptr, port_error) result" where
  "io_from_raw_parts kind base len =
     (if kind = AsyncBuffers then Err AsyncBuffersUnsupported
      else checked_record base len IO_BUFFERS_SIZE IO_BUFFERS_ALIGN STR ''spa_io_buffers'')"

definition io_state :: "mptr \<Rightarrow> (world, buffers_io_state, 'e) op" where
  "io_state io =
     obind (load_u32 io IO_STATUS) (\<lambda>status.
     obind (load_u32 io IO_BUFFER_ID) (\<lambda>buffer_id.
     oreturn \<lparr>io_status = status, io_buffer_id = buffer_id\<rparr>))"

definition publish_have_data :: "mptr \<Rightarrow> u32 \<Rightarrow> (world, unit, 'e) op" where
  "publish_have_data io buffer_id =
     othen (store_u32 io IO_BUFFER_ID buffer_id) (store_u32 io IO_STATUS (buffer_status_i32 HaveData))"

definition publish_need_data :: "mptr \<Rightarrow> u32 \<Rightarrow> (world, unit, 'e) op" where
  "publish_need_data io buffer_id =
     othen (store_u32 io IO_BUFFER_ID buffer_id) (store_u32 io IO_STATUS (buffer_status_i32 NeedData))"

definition chunk_from_raw_parts :: "mptr \<Rightarrow> nat \<Rightarrow> (mptr, port_error) result" where
  "chunk_from_raw_parts base len = checked_record base len CHUNK_SIZE CHUNK_ALIGN STR ''spa_chunk''"

definition chunk_view_state :: "mptr \<Rightarrow> (world, chunk_state, 'e) op" where
  "chunk_view_state c =
     obind (load_u32 c CHUNK_OFFSET) (\<lambda>offset.
     obind (load_u32 c CHUNK_DATA_SIZE) (\<lambda>sz.
     obind (load_u32 c CHUNK_STRIDE) (\<lambda>stride.
     obind (load_u32 c CHUNK_FLAGS) (\<lambda>fl.
     oreturn \<lparr>ck_offset = offset, ck_size = sz, ck_stride = stride, ck_flags = fl\<rparr>))))"

definition chunk_publish :: "mptr \<Rightarrow> chunk_state \<Rightarrow> (world, unit, 'e) op" where
  "chunk_publish c s =
     othen (store_u32 c CHUNK_OFFSET (ck_offset s))
    (othen (store_u32 c CHUNK_DATA_SIZE (ck_size s))
    (othen (store_u32 c CHUNK_STRIDE (ck_stride s))
           (store_u32 c CHUNK_FLAGS (ck_flags s))))"

record output_buffer =
  ob_chunk :: mptr
  ob_media :: mptr
  ob_max_size :: nat
  ob_data_offset :: nat

definition output_buffer_from_raw_parts ::
    "mptr \<Rightarrow> nat \<Rightarrow> mptr \<Rightarrow> nat \<Rightarrow> nat \<Rightarrow> nat \<Rightarrow> (world, output_buffer, port_error) op" where
  "output_buffer_from_raw_parts chunk_base chunk_len media_base media_len map_offset max_size =
     obind (olift (chunk_from_raw_parts chunk_base chunk_len)) (\<lambda>chunk.
     if mp_addr media_base = 0 then ofail (Port_null STR ''media plane'')
     else if media_len > isize_max then ofail MediaRegionTooLarge
     else if max_size = 0 then ofail ZeroMaxSize
     else if max_size > 0xFFFFFFFF then ofail (MaxSizeOutOfRange max_size)
     else obind (olift (ok_or (checked_add_usize map_offset max_size) MediaRangeOverflow)) (\<lambda>end.
     if end > media_len then ofail (MediaRangeOutOfBounds end media_len)
     else obind (chunk_view_state chunk) (\<lambda>state.
     let data_offset = unat (ck_offset state) mod max_size; sz = unat (ck_size state) in
     if sz > max_size - data_offset then ofail (WrappedChunk data_offset sz max_size)
     else if sint (ck_stride state) < 0 \<or> nat (sint (ck_stride state)) > max_size
       then ofail (InvalidStride (ck_stride state) max_size)
     else oreturn \<lparr>ob_chunk = chunk, ob_media = ptr_add media_base map_offset, ob_max_size = max_size,
       ob_data_offset = data_offset\<rparr>)))"

definition ob_capacity :: "output_buffer \<Rightarrow> nat" where
  "ob_capacity b = ob_max_size b - ob_data_offset b"

text \<open>\<open>media_capacity\<close>: the bytes from the ring offset to the end of the plane.\<close>

definition media_ptr :: "output_buffer \<Rightarrow> mptr" where
  "media_ptr b = ptr_add (ob_media b) (ob_data_offset b)"

definition ob_publish :: "output_buffer \<Rightarrow> nat \<Rightarrow> nat \<Rightarrow> u32 \<Rightarrow> (world, unit, port_error) op" where
  "ob_publish b bytes_used stride fl =
     (if stride > ob_max_size b \<or> stride > 0x7FFFFFFF
      then ofail (InvalidStride (if stride \<le> 0x7FFFFFFF then of_nat stride else 0x7FFFFFFF) (ob_max_size b))
      else chunk_publish (ob_chunk b) \<lparr>ck_offset = of_nat (ob_data_offset b), ck_size = of_nat bytes_used,
        ck_stride = of_nat stride, ck_flags = fl\<rparr>)"

definition ob_abort :: "output_buffer \<Rightarrow> (world, unit, 'e) op" where
  "ob_abort b = obind (chunk_view_state (ob_chunk b)) (\<lambda>s. chunk_publish (ob_chunk b) (s\<lparr>ck_size := 0\<rparr>))"

section \<open>Cycles\<close>

record output_cycle =
  oc_buffer :: output_buffer
  oc_buffer_id :: u32
  oc_format :: audio_format

record committed_output =
  co_buffer_id :: u32
  co_bytes_used :: nat
  co_stride :: nat
  co_flags :: u32

record published_output =
  po_buffer_id :: u32
  po_bytes_used :: nat

record publisher =
  pb_io :: mptr
  pb_buffers :: "output_buffer list"
  pb_format :: audio_format
  pb_selected :: "nat option"

definition publisher_new :: "mptr \<Rightarrow> output_buffer list \<Rightarrow> audio_format \<Rightarrow> publisher" where
  "publisher_new io buffers f = \<lparr>pb_io = io, pb_buffers = buffers, pb_format = f, pb_selected = None\<rparr>"

definition select_buffer :: "(publisher \<times> world, output_cycle option, cycle_error) op" where
  "select_buffer =
     obind oget (\<lambda>(pb, _).
     obind (on_snd (io_state (pb_io pb))) (\<lambda>state.
     if io_status state \<noteq> buffer_status_i32 NeedData then oreturn None
     else let index = unat (io_buffer_id state); n = length (pb_buffers pb) in
       if index < n then
         othen (omodify (\<lambda>(pb, w). (pb\<lparr>pb_selected := Some index\<rparr>, w)))
           (oreturn (Some \<lparr>oc_buffer = pb_buffers pb ! index, oc_buffer_id = io_buffer_id state, oc_format = pb_format pb\<rparr>))
       else ofail (InvalidBufferId (io_buffer_id state) n)))"

definition cycle_capacity :: "output_cycle \<Rightarrow> nat" where
  "cycle_capacity c = ob_capacity (oc_buffer c)"

text \<open>The stride is a \<open>NonZeroUsize\<close>.\<close>

definition frame_capacity :: "output_cycle \<Rightarrow> nat" where
  "frame_capacity c = cycle_capacity c div af_frame_stride (oc_format c)"

definition commit_bytes :: "output_cycle \<Rightarrow> nat \<Rightarrow> nat \<Rightarrow> u32 \<Rightarrow> (committed_output, cycle_error) result" where
  "commit_bytes c bytes_used stride fl =
     (if bytes_used > cycle_capacity c then Err (CapacityExceeded bytes_used (cycle_capacity c))
      else if bytes_used > 0xFFFFFFFF then Err (ChunkSizeOverflow bytes_used)
      else Ok \<lparr>co_buffer_id = oc_buffer_id c, co_bytes_used = bytes_used, co_stride = stride, co_flags = fl\<rparr>)"

definition commit :: "output_cycle \<Rightarrow> nat \<Rightarrow> (committed_output, cycle_error) result" where
  "commit c frames =
     rbind (ok_or (checked_mul_usize frames (af_frame_stride (oc_format c))) (FrameCountOverflow frames)) (\<lambda>bytes.
     commit_bytes c bytes (af_frame_stride (oc_format c)) 0)"

text \<open>\<open>silence\<close> also returns the media it leaves behind.\<close>

definition silence :: "output_cycle \<Rightarrow> nat \<Rightarrow> byte list \<Rightarrow> byte list \<times> (committed_output, cycle_error) result" where
  "silence c frames media =
     (case checked_mul_usize frames (af_frame_stride (oc_format c)) of
        None \<Rightarrow> (media, Err (FrameCountOverflow frames))
      | Some bytes \<Rightarrow>
          if bytes > cycle_capacity c then (media, Err (CapacityExceeded bytes (cycle_capacity c)))
          else (replicate bytes 0 @ drop bytes media, commit_bytes c bytes (af_frame_stride (oc_format c)) 0))"

text \<open>
  A callback gets the cycle with its media bytes, leaves other bytes in their place and ends in one
  of three ways. A committed output is a plain value: nothing ties it to the cycle it came from.
\<close>

datatype callback_result = Committed committed_output | Process_error String.literal | Callback_panics

type_synonym callback = "output_cycle \<Rightarrow> byte list \<Rightarrow> byte list \<times> callback_result"

definition run_callback :: "callback \<Rightarrow> output_cycle \<Rightarrow> (world, committed_output, session_error) op" where
  "run_callback callback c =
     obind (access (\<lambda>m.
       let p = media_ptr (oc_buffer c); media = read_mem m p 0 (cycle_capacity c); (media', r) = callback c media in
       (r, write_mem m p 0 (take (cycle_capacity c) media')))) (\<lambda>r.
     case r of
       Committed x \<Rightarrow> oreturn x
     | Process_error message \<Rightarrow> ofail (Callback message)
     | Callback_panics \<Rightarrow> olift Panic)"

definition publish_committed :: "committed_output \<Rightarrow> (publisher \<times> world, published_output, cycle_error) op" where
  "publish_committed x =
     obind oget (\<lambda>(pb, _).
     obind (olift (ok_or (pb_selected pb) NoCommittedCycle)) (\<lambda>selected.
     if unat (co_buffer_id x) \<noteq> selected then ofail (InvalidBufferId (co_buffer_id x) (length (pb_buffers pb)))
     else obind (olift (index_at (pb_buffers pb) selected)) (\<lambda>buffer.
     othen (on_snd (omap_err Cycle_port (ob_publish buffer (co_bytes_used x) (co_stride x) (co_flags x))))
    (othen (on_snd (publish_have_data (pb_io pb) (co_buffer_id x)))
    (othen (omodify (\<lambda>(pb, w). (pb\<lparr>pb_selected := None\<rparr>, w)))
      (oreturn \<lparr>po_buffer_id = co_buffer_id x, po_bytes_used = co_bytes_used x\<rparr>))))))"

definition publisher_drop :: "(publisher \<times> world, unit, 'e) op" where
  "publisher_drop =
     obind oget (\<lambda>(pb, _).
     case pb_selected pb of
       None \<Rightarrow> oreturn ()
     | Some selected \<Rightarrow>
         othen (omodify (\<lambda>(pb, w). (pb\<lparr>pb_selected := None\<rparr>, w)))
        (obind (olift (index_at (pb_buffers pb) selected)) (\<lambda>buffer.
         othen (on_snd (ob_abort buffer))
           (on_snd (publish_need_data (pb_io pb) (of_nat selected))))))"

end
