(* ===== verification/Node_Generations.thy ===== *)
theory Node_Generations
  imports Node_Port
begin

text \<open>
  The resources a session binds, each as one generation: the transport with its activation
  (\<open>session::transport\<close>), downstream peers (\<open>session::peer\<close>) and the output with its buffers
  (\<open>session::output\<close>). They resolve and map memory through the two operations of a
  \<open>MemoryResolver\<close>, which are arguments here.
\<close>

type_synonym resolver = "u32 \<Rightarrow> (memory_key, memory_error) result"
type_synonym mapper = "memory_key \<Rightarrow> nat \<Rightarrow> nat \<Rightarrow> bool \<Rightarrow> (world, memory_mapping, memory_error) op"

definition resolve_region :: "resolver \<Rightarrow> mapper \<Rightarrow> memory_region \<Rightarrow> (world, memory_key \<times> memory_mapping, session_error) op" where
  "resolve_region resolve mapr region =
     obind (olift (map_err Memory_error (resolve (mem_memory region)))) (\<lambda>mkey.
     obind (omap_err Memory_error (mapr mkey (mem_offset region) (mem_len region) True)) (\<lambda>mapping.
     oreturn (mkey, mapping)))"

definition mapping_view :: "memory_mapping \<Rightarrow> (world, mptr, session_error) op" where
  "mapping_view m = omap_err Activation_error (activation_from_raw_parts (mapping_ptr m) (mapping_len m))"

section \<open>Transport\<close>

record transport_generation =
  tg_id :: nat
  tg_trigger :: raw_fd
  tg_completion :: raw_fd
  tg_activation_key :: memory_key
  tg_activation :: memory_mapping

definition transport_bind ::
    "nat \<Rightarrow> transport_descriptor \<Rightarrow> resolver \<Rightarrow> mapper \<Rightarrow> (world, transport_generation, session_error) op" where
  "transport_bind gid d resolve mapr =
     obind (resolve_region resolve mapr (td_activation d)) (\<lambda>(mkey, mapping).
     obind (mapping_view mapping) (\<lambda>view.
     othen (initialize_client_v1 view)
    (obind (omap_err Signal_error (from_owned_fd (td_trigger_fd d))) (\<lambda>trigger.
     obind (omap_err Signal_error (from_owned_fd (td_completion_fd d))) (\<lambda>completion.
     oreturn \<lparr>tg_id = gid, tg_trigger = trigger, tg_completion = completion, tg_activation_key = mkey,
       tg_activation = mapping\<rparr>)))))"

definition tg_interval :: "transport_generation \<Rightarrow> memory_interval" where
  "tg_interval t = mapping_interval (tg_activation t)"

definition tg_drain :: "transport_generation \<Rightarrow> (world, u64, session_error) op" where
  "tg_drain t = omap_err Signal_error (drain (tg_trigger t))"

definition tg_try_clone_trigger :: "transport_generation \<Rightarrow> (world, raw_fd, session_error) op" where
  "tg_try_clone_trigger t = omap_err Signal_error (try_clone (tg_trigger t))"

definition tg_status :: "transport_generation \<Rightarrow> (world, activation_status, session_error) op" where
  "tg_status t = obind (mapping_view (tg_activation t)) (\<lambda>v. omap_err Activation_error (read_status v))"

definition tg_mark_ready :: "transport_generation \<Rightarrow> (world, unit, session_error) op" where
  "tg_mark_ready t = obind (mapping_view (tg_activation t)) (\<lambda>v. omap_err Activation_error (mark_ready v))"

definition tg_deactivate :: "transport_generation \<Rightarrow> (world, activation_status, session_error) op" where
  "tg_deactivate t = obind (mapping_view (tg_activation t)) (\<lambda>v. omap_err Activation_error (deactivate v))"

text \<open>The destructor.\<close>

definition tg_drop :: "transport_generation \<Rightarrow> (world, unit, 'e) op" where
  "tg_drop t = oignore (tg_deactivate t)"

datatype 't claim_completion = NotClaimed_completion | Finished_completion "('t, session_error) result" u64

text \<open>
  \<open>processed\<close> is the outcome of the callback under \<open>catch_unwind\<close>; a finish clock of \<open>None\<close> is one
  that panicked.
\<close>

definition completion_result ::
    "libc \<Rightarrow> ('t \<times> i32, session_error) result \<Rightarrow> u64 \<Rightarrow> u64 option \<Rightarrow> ('t, session_error) result \<times> i32 \<times> u64" where
  "completion_result l processed awake_ns finish =
     (let (result, status) = (case processed of
            Ok (v, status) \<Rightarrow> (Ok v, status)
          | Err e \<Rightarrow> (Err e, - EIO l)
          | Panic \<Rightarrow> (Err CallbackPanicked, - EIO l)) in
      case finish of
        Some finish_ns \<Rightarrow> (result, status, finish_ns)
      | None \<Rightarrow> (Err FinishClockPanicked, - EIO l, awake_ns))"

definition claim_and_finish ::
    "transport_generation \<Rightarrow> u64 \<Rightarrow> u64 option \<Rightarrow> (world, 't \<times> i32, session_error) op \<Rightarrow>
      (world, 't claim_completion, session_error) op" where
  "claim_and_finish t awake_ns finish process =
     obind (mapping_view (tg_activation t)) (\<lambda>view w.
       case claim_cycle view awake_ns w of
         (Ok claim, w') \<Rightarrow>
           (case process w' of (processed, w'') \<Rightarrow>
             (case completion_result (w_libc w'') processed awake_ns finish of (result, status, finish_ns) \<Rightarrow>
               othen (omap_err Activation_error (publish_result_and_finish claim status finish_ns))
                 (oreturn (Finished_completion result finish_ns)) w''))
       | (Err (Act_invalid_transition Triggered actual), w') \<Rightarrow> (Ok NotClaimed_completion, w')
       | (Err e, w') \<Rightarrow> (Err (Activation_error e), w')
       | (Panic, w') \<Rightarrow> (Panic, w'))"

section \<open>Peers\<close>

record peer_activation =
  pa_node :: u32
  pa_generation :: nat
  pa_signal :: raw_fd
  pa_key :: memory_key
  pa_mapping :: memory_mapping

definition peer_bind :: "nat \<Rightarrow> peer_descriptor \<Rightarrow> resolver \<Rightarrow> mapper \<Rightarrow> (world, peer_activation, session_error) op" where
  "peer_bind gid d resolve mapr =
     obind (resolve_region resolve mapr (pd_activation d)) (\<lambda>(mkey, mapping).
     othen (mapping_view mapping)
    (obind (omap_err Signal_error (from_owned_fd (pd_signal_fd d))) (\<lambda>fd.
     oreturn \<lparr>pa_node = pd_node d, pa_generation = gid, pa_signal = fd, pa_key = mkey, pa_mapping = mapping\<rparr>)))"

definition pa_interval :: "peer_activation \<Rightarrow> memory_interval" where
  "pa_interval p = mapping_interval (pa_mapping p)"

definition peer_trigger :: "peer_activation \<Rightarrow> u64 \<Rightarrow> (world, trigger_outcome, session_error) op" where
  "peer_trigger p now =
     obind (mapping_view (pa_mapping p)) (\<lambda>view.
     obind (omap_err Activation_error (decrement_pending_and_trigger view now)) (\<lambda>outcome.
     othen (if outcome = Outcome_triggered then omap_err Signal_error (signal (pa_signal p) 1) else oreturn ())
       (oreturn outcome)))"

type_synonym peer_set = "(u32, peer_activation) amap"

definition peer_error :: "u32 \<Rightarrow> session_error \<Rightarrow> session_error" where
  "peer_error node e = (case e of
     Activation_error source \<Rightarrow> PeerTrigger node source
   | Signal_error source \<Rightarrow> PeerSignal node source
   | other \<Rightarrow> other)"

text \<open>Every peer is triggered; the first error is reported at the end.\<close>

fun trigger_peers :: "peer_set \<Rightarrow> u64 \<Rightarrow> session_error option \<Rightarrow> (world, unit, session_error) op" where
  "trigger_peers [] now first = (case first of None \<Rightarrow> oreturn () | Some e \<Rightarrow> ofail e)"
| "trigger_peers ((node, peer) # peers) now first = (\<lambda>w.
     case peer_trigger peer now w of
       (Ok _, w') \<Rightarrow> trigger_peers peers now first w'
     | (Err e, w') \<Rightarrow> trigger_peers peers now (case first of None \<Rightarrow> Some (peer_error node e) | Some x \<Rightarrow> Some x) w'
     | (Panic, w') \<Rightarrow> (Panic, w'))"

definition trigger_all :: "peer_set \<Rightarrow> u64 \<Rightarrow> (world, unit, session_error) op" where
  "trigger_all peers now = trigger_peers peers now None"

definition peers_remove_memory :: "memory_key \<Rightarrow> peer_set \<Rightarrow> peer_set" where
  "peers_remove_memory mkey peers = filter (\<lambda>(_, peer). pa_key peer \<noteq> mkey) peers"

definition peers_intervals :: "peer_set \<Rightarrow> memory_interval list" where
  "peers_intervals peers = map (\<lambda>(_, peer). pa_interval peer) peers"

definition peers_intervals_except :: "u32 \<Rightarrow> peer_set \<Rightarrow> memory_interval list" where
  "peers_intervals_except node peers = map (\<lambda>(_, peer). pa_interval peer) (filter (\<lambda>(n, _). n \<noteq> node) peers)"

section \<open>Output\<close>

record bound_buffer =
  bb_metadata_key :: memory_key
  bb_metadata :: memory_mapping
  bb_chunk_offset :: nat
  bb_media_key :: memory_key
  bb_media :: memory_mapping

record output_generation =
  og_id :: nat
  og_format :: audio_format
  og_io_key :: memory_key
  og_io :: memory_mapping
  og_buffers :: "bound_buffer list"

definition IO_SIZE :: nat where
  "IO_SIZE = 8"

fun no_overlaps :: "memory_interval list \<Rightarrow> bool" where
  "no_overlaps [] = True"
| "no_overlaps (x # xs) = (list_all (\<lambda>y. \<not> overlaps x y) xs \<and> no_overlaps xs)"

definition reject_overlaps :: "memory_interval list \<Rightarrow> (unit, session_error) result" where
  "reject_overlaps xs =
     (if no_overlaps xs then Ok () else Err (InvalidTransition STR ''overlapping writable memory regions''))"

fun chunk_layout :: "nat \<Rightarrow> session_meta list \<Rightarrow> (nat, session_error) result" where
  "chunk_layout offset [] = Ok offset"
| "chunk_layout offset (meta # metas) =
     rbind (ok_or (Option.bind (checked_add_usize offset (sm_size meta)) (\<lambda>end. checked_add_usize end 7))
       (Overflow STR ''metadata layout'')) (\<lambda>end. chunk_layout (end div 8 * 8) metas)"

definition bind_buffer ::
    "session_buffer \<Rightarrow> resolver \<Rightarrow> mapper \<Rightarrow> memory_interval list \<Rightarrow>
      (world, bound_buffer \<times> memory_interval list, session_error) op" where
  "bind_buffer d resolve mapr intervals =
     obind (olift (chunk_layout 0 (sb_metas d))) (\<lambda>chunk_offset.
     obind (olift (ok_or (checked_add_usize chunk_offset CHUNK_SIZE) (Overflow STR ''chunk layout''))) (\<lambda>chunk_end.
     if chunk_end > mem_len (sb_metadata d) then ofail (NotReady STR ''metadata region does not contain chunk'')
     else if sb_max_size d = 0 then ofail (NotReady STR ''zero media capacity'')
     else
     obind (olift (map_err Memory_error (resolve (mem_memory (sb_metadata d))))) (\<lambda>metadata_key.
     obind (olift (map_err Memory_error (resolve (sb_media_memory d)))) (\<lambda>media_key.
     obind (omap_err Memory_error (mapr metadata_key (mem_offset (sb_metadata d)) (mem_len (sb_metadata d)) True)) (\<lambda>metadata.
     obind (omap_err Memory_error (mapr media_key (sb_map_offset d) (sb_max_size d) True)) (\<lambda>media.
     let intervals = intervals @ [mapping_interval metadata, mapping_interval media] in
     othen (olift (reject_overlaps intervals))
    (othen (omap_err Port_error (output_buffer_from_raw_parts (ptr_add (mapping_ptr metadata) chunk_offset) CHUNK_SIZE
        (mapping_ptr media) (mapping_len media) 0 (sb_max_size d)))
      (oreturn (\<lparr>bb_metadata_key = metadata_key, bb_metadata = metadata, bb_chunk_offset = chunk_offset,
        bb_media_key = media_key, bb_media = media\<rparr>, intervals)))))))))"

fun bind_buffers ::
    "session_buffer list \<Rightarrow> resolver \<Rightarrow> mapper \<Rightarrow> memory_interval list \<Rightarrow> (world, bound_buffer list, session_error) op" where
  "bind_buffers [] resolve mapr intervals = oreturn []"
| "bind_buffers (d # ds) resolve mapr intervals =
     obind (bind_buffer d resolve mapr intervals) (\<lambda>(b, intervals).
     obind (bind_buffers ds resolve mapr intervals) (\<lambda>bs. oreturn (b # bs)))"

definition output_bind ::
    "nat \<Rightarrow> audio_format \<Rightarrow> buffer_set \<Rightarrow> port_io_descriptor \<Rightarrow> resolver \<Rightarrow> mapper \<Rightarrow>
      (world, output_generation, session_error) op" where
  "output_bind gid f buffers io resolve mapr =
     (if bs_buffers buffers = [] then ofail (NotReady STR ''empty output buffer set'')
      else
      obind (resolve_region resolve mapr (pio_region io)) (\<lambda>(io_key, io_mapping).
      othen (olift (map_err Port_error (io_from_raw_parts Buffers (mapping_ptr io_mapping) (mapping_len io_mapping))))
     (if mem_len (pio_region io) \<noteq> IO_SIZE then ofail (NotReady STR ''invalid Buffers IO size'')
      else
      obind (bind_buffers (bs_buffers buffers) resolve mapr [mapping_interval io_mapping]) (\<lambda>bound.
      oreturn \<lparr>og_id = gid, og_format = f, og_io_key = io_key, og_io = io_mapping, og_buffers = bound\<rparr>))))"

definition depends_on :: "output_generation \<Rightarrow> memory_key \<Rightarrow> bool" where
  "depends_on og mkey \<longleftrightarrow> og_io_key og = mkey \<or>
     list_ex (\<lambda>b. bb_metadata_key b = mkey \<or> bb_media_key b = mkey) (og_buffers og)"

definition og_intervals :: "output_generation \<Rightarrow> memory_interval list" where
  "og_intervals og = mapping_interval (og_io og) #
     concat (map (\<lambda>b. [mapping_interval (bb_metadata b), mapping_interval (bb_media b)]) (og_buffers og))"

definition bound_output_buffer :: "bound_buffer \<Rightarrow> (world, output_buffer, session_error) op" where
  "bound_output_buffer b =
     omap_err Port_error (output_buffer_from_raw_parts (ptr_add (mapping_ptr (bb_metadata b)) (bb_chunk_offset b)) CHUNK_SIZE
       (mapping_ptr (bb_media b)) (mapping_len (bb_media b)) 0 (mapping_len (bb_media b)))"

definition run_cycle :: "callback \<Rightarrow> (publisher \<times> world, published_output option \<times> i32, session_error) op" where
  "run_cycle callback =
     obind (omap_err Cycle_error select_buffer) (\<lambda>cycle.
     case cycle of
       None \<Rightarrow> oreturn (None, buffer_status_i32 BS_Ok)
     | Some c \<Rightarrow>
         obind (on_snd (run_callback callback c)) (\<lambda>committed.
         obind (omap_err Cycle_error (publish_committed committed)) (\<lambda>published.
         oreturn (Some published, buffer_status_i32 HaveData))))"

definition output_process ::
    "output_generation \<Rightarrow> callback \<Rightarrow> (world, published_output option \<times> i32, session_error) op" where
  "output_process og callback =
     obind (olift (map_err Port_error (io_from_raw_parts Buffers (mapping_ptr (og_io og)) (mapping_len (og_io og))))) (\<lambda>io.
     obind (oeach bound_output_buffer (og_buffers og)) (\<lambda>buffers w.
       case ofinally (run_cycle callback) publisher_drop (publisher_new io buffers (og_format og), w) of
         (r, (pb, w')) \<Rightarrow> (r, w')))"

definition abort_published :: "output_generation \<Rightarrow> (world, unit, session_error) op" where
  "abort_published og =
     obind (olift (map_err Port_error (io_from_raw_parts Buffers (mapping_ptr (og_io og)) (mapping_len (og_io og))))) (\<lambda>io.
     obind (io_state io) (\<lambda>state.
     if io_status state \<noteq> buffer_status_i32 HaveData then oreturn ()
     else
     let selected = unat (io_buffer_id state) in
     if selected < length (og_buffers og) then
       obind (bound_output_buffer (og_buffers og ! selected)) (\<lambda>buffer.
       othen (ob_abort buffer) (publish_need_data io (io_buffer_id state)))
     else ofail (InvalidTransition STR ''published output buffer ID'')))"

end
