(* ===== verification/Node_Session.thy ===== *)
theory Node_Session
  imports Node_Generations
begin

text \<open>
  The owner of one node session (\<open>session::owner\<close>): commands change the configuration, wakes run at
  most one cycle. An operation acts on the session and on the world; an early return leaves both as
  they are at that point. The resolver \<open>_memory\<close> of the source is never used and has no field here.
\<close>

section \<open>State\<close>

definition MAX_SESSION_PEERS :: nat where
  "MAX_SESSION_PEERS = 64"

datatype node_command_state = NC_Pause | NC_Start | NC_Suspend

datatype session_state = Configuring | Ready | Running | CycleClaimed | Stopped | Failed | Disconnected

datatype (plugins only: code size) session_command =
    ReplaceTransport transport_descriptor
  | SetFormat audio_format
  | ClearFormat
  | UseBuffers buffer_set
  | ClearBuffers
  | SetPortIo port_io_descriptor
  | ClearPortIo
  | SetPeerActivation peer_descriptor
  | RemovePeerActivation u32
  | MemoryAvailable memory_lease
  | RemoveMemory memory_key
  | MemoryDisconnected
  | SetActiveCmd bool
  | SetNodeCommand node_command_state
  | Disconnect

datatype apply_outcome = Applied | PendingMemory | AlreadyDisconnected

datatype (plugins only: code size) wake_outcome =
    NoWake
  | Stale nat nat
  | NotRunning u64
  | NotClaimed u64 u64
  | Processed u64 u64 bool

record session =
  cs_available_memory :: "(u32, memory_lease) amap"
  cs_next_generation :: nat
  cs_transport :: "transport_generation option"
  cs_pending_transport :: "transport_descriptor option"
  cs_format :: "audio_format option"
  cs_buffer_descriptor :: "buffer_set option"
  cs_io_descriptor :: "port_io_descriptor option"
  cs_output :: "output_generation option"
  cs_peers :: peer_set
  cs_pending_peers :: "(u32, peer_descriptor) amap"
  cs_active_requested :: bool
  cs_command :: node_command_state
  cs_state :: session_state

type_synonym 'a sess = "(session \<times> world, 'a, session_error) op"

definition session_new :: session where
  "session_new = \<lparr>cs_available_memory = [], cs_next_generation = 1, cs_transport = None, cs_pending_transport = None,
     cs_format = None, cs_buffer_descriptor = None, cs_io_descriptor = None, cs_output = None, cs_peers = [],
     cs_pending_peers = [], cs_active_requested = False, cs_command = NC_Pause, cs_state = Configuring\<rparr>"

section \<open>Commands from the wire\<close>

definition command_from_wire :: "(u32 \<Rightarrow> 'f option) \<Rightarrow> event \<Rightarrow> (session_command, session_error) result" where
  "command_from_wire from_bits ev = (case ev of
     Ev_Transport v \<Rightarrow> rbind (transport_try_from v) (\<lambda>d. Ok (ReplaceTransport d))
   | Ev_PortSetParam v \<Rightarrow>
       if sp_param v = None then
         rbind (validate_port (sp_direction v) (sp_port_id v) None) (\<lambda>_.
         if sp_param_id v \<noteq> SPA_PARAM_FORMAT then Err (Unsupported (Parameter (sp_param_id v)))
         else Ok ClearFormat)
       else rbind (format_from_wire from_bits v) (\<lambda>f. Ok (SetFormat f))
   | Ev_PortUseBuffers v \<Rightarrow>
       rbind (buffer_set_try_from v) (\<lambda>d. if bs_buffers d = [] then Ok ClearBuffers else Ok (UseBuffers d))
   | Ev_PortSetIo v \<Rightarrow>
       rbind (port_io_try_from v) (\<lambda>u. case u of Io_set d \<Rightarrow> Ok (SetPortIo d) | Io_clear \<Rightarrow> Ok ClearPortIo)
   | Ev_SetActivation v \<Rightarrow>
       rbind (peer_try_from v) (\<lambda>u. case u of
         Peer_set d \<Rightarrow> Ok (SetPeerActivation d) | Peer_remove node \<Rightarrow> Ok (RemovePeerActivation node))
   | Ev_Command c \<Rightarrow> Ok (SetNodeCommand (case c of Start \<Rightarrow> NC_Start | Pause \<Rightarrow> NC_Pause | Suspend \<Rightarrow> NC_Suspend)))"

section \<open>Memory in command order\<close>

definition ordered_resolve :: "(u32, memory_lease) amap \<Rightarrow> u32 \<Rightarrow> (memory_key, memory_error) result" where
  "ordered_resolve leases mid = ok_or (map_option lease_key (map_of leases mid)) (UnknownMemory mid)"

definition ordered_map :: "(u32, memory_lease) amap \<Rightarrow> memory_key \<Rightarrow> nat \<Rightarrow> nat \<Rightarrow> bool \<Rightarrow> (world, memory_mapping, memory_error) op" where
  "ordered_map leases mkey offset len writable =
     obind (olift (ok_or (map_of leases (mk_id mkey)) (StaleGeneration mkey None))) (\<lambda>lease.
     if lease_key lease \<noteq> mkey then ofail (StaleGeneration mkey (Some (lease_key lease)))
     else lease_map lease offset len writable)"

definition unresolved :: "(memory_key, memory_error) result \<Rightarrow> (bool, session_error) result" where
  "unresolved r = (case r of
     Ok _ \<Rightarrow> Ok False
   | Err (UnknownMemory _) \<Rightarrow> Ok True
   | Err e \<Rightarrow> Err (Memory_error e)
   | Panic \<Rightarrow> Panic)"

definition buffer_memory_ids :: "buffer_set \<Rightarrow> u32 list" where
  "buffer_memory_ids b = concat (map (\<lambda>x. [mem_memory (sb_metadata x), sb_media_memory x]) (bs_buffers b))"

definition ensure_disjoint :: "memory_interval list \<Rightarrow> memory_interval list \<Rightarrow> (unit, session_error) result" where
  "ensure_disjoint candidate existing =
     (if list_all (\<lambda>x. list_all (\<lambda>y. \<not> overlaps x y) existing) candidate then Ok ()
      else Err (InvalidTransition STR ''overlapping generation mappings''))"

fun any_unresolved :: "(u32, memory_lease) amap \<Rightarrow> u32 list \<Rightarrow> (bool, session_error) result" where
  "any_unresolved leases [] = Ok False"
| "any_unresolved leases (i # is) =
     rbind (unresolved (ordered_resolve leases i)) (\<lambda>u. if u then Ok True else any_unresolved leases is)"

section \<open>State transitions\<close>

definition is_ready :: "session \<Rightarrow> bool" where
  "is_ready s \<longleftrightarrow> cs_transport s \<noteq> None \<and> cs_format s \<noteq> None \<and> cs_output s \<noteq> None"

definition gets :: "(session \<Rightarrow> 'a) \<Rightarrow> 'a sess" where
  "gets f sw = (Ok (f (fst sw)), sw)"

definition modifys :: "(session \<Rightarrow> session) \<Rightarrow> unit sess" where
  "modifys f sw = (Ok (), (f (fst sw), snd sw))"

definition set_transport :: "transport_generation option \<Rightarrow> unit sess" where
  "set_transport t =
     obind (gets cs_transport) (\<lambda>old.
     othen (modifys (\<lambda>s. s\<lparr>cs_transport := t\<rparr>))
       (case old of None \<Rightarrow> oreturn () | Some old \<Rightarrow> on_snd (tg_drop old)))"

definition stop :: "unit sess" where
  "stop =
     obind (gets cs_transport) (\<lambda>t.
     othen (case t of None \<Rightarrow> oreturn () | Some t \<Rightarrow> othen (on_snd (tg_deactivate t)) (oreturn ()))
       (modifys (\<lambda>s.
         if cs_state s \<noteq> Disconnected \<and> cs_state s \<noteq> Failed
         then s\<lparr>cs_state := (if is_ready s then Stopped else Configuring)\<rparr> else s)))"

definition fail_session :: "unit sess" where
  "fail_session =
     obind (gets cs_transport) (\<lambda>t.
     othen (case t of None \<Rightarrow> oreturn () | Some t \<Rightarrow> on_snd (oignore (tg_deactivate t)))
       (modifys (\<lambda>s. s\<lparr>cs_state := Failed\<rparr>)))"

definition ensure_running :: "unit sess" where
  "ensure_running =
     obind (gets (\<lambda>s. s)) (\<lambda>s.
     if \<not> cs_active_requested s \<or> cs_command s \<noteq> NC_Start then oreturn ()
     else if \<not> is_ready s then modifys (\<lambda>s. s\<lparr>cs_state := Configuring\<rparr>)
     else case cs_transport s of
       None \<Rightarrow> olift Panic
     | Some t \<Rightarrow>
         obind (on_snd (tg_status t)) (\<lambda>status.
         othen (case status of
             Inactive \<Rightarrow> on_snd (tg_mark_ready t)
           | Finished \<Rightarrow> oreturn ()
           | _ \<Rightarrow> ofail (InvalidTransition STR ''Start activation status''))
           (modifys (\<lambda>s. s\<lparr>cs_state := Running\<rparr>))))"

definition refresh_state :: "unit sess" where
  "refresh_state = modifys (\<lambda>s.
     if cs_state s \<in> {Running, CycleClaimed, Failed, Disconnected} then s
     else s\<lparr>cs_state := (if is_ready s then Ready else Configuring)\<rparr>)"

definition disconnect :: "unit sess" where
  "disconnect =
     othen (oignore stop)
    (othen (modifys (\<lambda>s. s\<lparr>cs_pending_peers := [], cs_peers := [], cs_output := None, cs_io_descriptor := None,
       cs_buffer_descriptor := None, cs_format := None, cs_pending_transport := None\<rparr>))
    (othen (set_transport None)
       (modifys (\<lambda>s. s\<lparr>cs_available_memory := [], cs_state := Disconnected\<rparr>))))"

definition allocate_generation :: "nat sess" where
  "allocate_generation =
     obind (gets cs_next_generation) (\<lambda>generation.
     obind (olift (ok_or (checked_add_usize generation 1) (Overflow STR ''session generation''))) (\<lambda>following.
     othen (modifys (\<lambda>s. s\<lparr>cs_next_generation := following\<rparr>)) (oreturn generation)))"

section \<open>Binding\<close>

definition output_intervals :: "session \<Rightarrow> memory_interval list" where
  "output_intervals s = (case cs_output s of None \<Rightarrow> [] | Some og \<Rightarrow> og_intervals og)"

definition transport_intervals :: "session \<Rightarrow> memory_interval list" where
  "transport_intervals s = (case cs_transport s of None \<Rightarrow> [] | Some t \<Rightarrow> [tg_interval t])"

text \<open>A candidate transport that is not installed is dropped, which deactivates it.\<close>

definition bind_transport :: "apply_outcome sess" where
  "bind_transport =
     obind (gets (\<lambda>s. s)) (\<lambda>s.
     case cs_pending_transport s of
       None \<Rightarrow> oreturn Applied
     | Some d \<Rightarrow>
         obind (olift (unresolved (ordered_resolve (cs_available_memory s) (mem_memory (td_activation d))))) (\<lambda>u.
         if u then oreturn PendingMemory
         else
         othen (modifys (\<lambda>s. s\<lparr>cs_pending_transport := None\<rparr>))
        (obind allocate_generation (\<lambda>generation.
         obind (on_snd (transport_bind generation d (ordered_resolve (cs_available_memory s))
            (ordered_map (cs_available_memory s)))) (\<lambda>candidate.
         othen (on_error
             (othen (olift (ensure_disjoint [tg_interval candidate] (output_intervals s @ peers_intervals (cs_peers s)))) stop)
             (on_snd (tg_drop candidate)))
        (othen (set_transport (Some candidate)) (oreturn Applied)))))))"

definition output_candidate :: "audio_format \<Rightarrow> buffer_set \<Rightarrow> port_io_descriptor \<Rightarrow> output_generation option sess" where
  "output_candidate f buffers io =
     obind (gets (\<lambda>s. s)) (\<lambda>s.
     obind (olift (any_unresolved (cs_available_memory s) (buffer_memory_ids buffers @ [mem_memory (pio_region io)]))) (\<lambda>u.
     if u then oreturn None
     else
     obind allocate_generation (\<lambda>generation.
     obind (on_snd (output_bind generation f buffers io (ordered_resolve (cs_available_memory s))
        (ordered_map (cs_available_memory s)))) (\<lambda>candidate.
     othen (olift (ensure_disjoint (og_intervals candidate) (transport_intervals s @ peers_intervals (cs_peers s))))
       (oreturn (Some candidate))))))"

definition bind_output :: "apply_outcome sess" where
  "bind_output =
     obind (gets (\<lambda>s. (cs_format s, cs_buffer_descriptor s, cs_io_descriptor s))) (\<lambda>config.
     case config of
       (Some f, Some buffers, Some io) \<Rightarrow>
         obind (output_candidate f buffers io) (\<lambda>candidate.
         case candidate of
           None \<Rightarrow> oreturn PendingMemory
         | Some candidate \<Rightarrow> othen stop (othen (modifys (\<lambda>s. s\<lparr>cs_output := Some candidate\<rparr>)) (oreturn Applied)))
     | _ \<Rightarrow> oreturn Applied)"

definition bind_peer :: "u32 \<Rightarrow> apply_outcome sess" where
  "bind_peer node =
     obind (gets (\<lambda>s. s)) (\<lambda>s.
     case map_of (cs_pending_peers s) node of
       None \<Rightarrow> olift Panic
     | Some d \<Rightarrow>
         obind (olift (unresolved (ordered_resolve (cs_available_memory s) (mem_memory (pd_activation d))))) (\<lambda>u.
         if u then oreturn PendingMemory
         else
         othen (modifys (\<lambda>s. s\<lparr>cs_pending_peers := bt_remove node (cs_pending_peers s)\<rparr>))
        (obind allocate_generation (\<lambda>generation.
         obind (on_snd (peer_bind generation d (ordered_resolve (cs_available_memory s))
            (ordered_map (cs_available_memory s)))) (\<lambda>candidate.
         othen (olift (ensure_disjoint [pa_interval candidate]
            (transport_intervals s @ output_intervals s @ peers_intervals_except node (cs_peers s))))
        (othen (modifys (\<lambda>s. s\<lparr>cs_peers := bt_insert (pa_node candidate) candidate (cs_peers s)\<rparr>))
           (oreturn Applied)))))))"

fun bind_peers :: "u32 list \<Rightarrow> bool \<Rightarrow> bool sess" where
  "bind_peers [] waiting = oreturn waiting"
| "bind_peers (node # nodes) waiting =
     obind (bind_peer node) (\<lambda>outcome. bind_peers nodes (waiting \<or> outcome = PendingMemory))"

definition retry_pending :: "apply_outcome sess" where
  "retry_pending =
     obind (gets cs_pending_transport) (\<lambda>t.
     obind (if t \<noteq> None then obind bind_transport (\<lambda>outcome. oreturn (outcome = PendingMemory)) else oreturn False) (\<lambda>p1.
     obind (gets (\<lambda>s. cs_buffer_descriptor s \<noteq> None \<and> cs_io_descriptor s \<noteq> None)) (\<lambda>b.
     obind (if b then obind bind_output (\<lambda>outcome. oreturn (outcome = PendingMemory)) else oreturn False) (\<lambda>p2.
     obind (gets (\<lambda>s. map fst (cs_pending_peers s))) (\<lambda>nodes.
     obind (bind_peers nodes (p1 \<or> p2)) (\<lambda>waiting.
     oreturn (if waiting then PendingMemory else Applied)))))))"

definition remove_memory :: "memory_key \<Rightarrow> unit sess" where
  "remove_memory mkey =
     obind (gets cs_transport) (\<lambda>t.
     othen (if (case t of None \<Rightarrow> False | Some t \<Rightarrow> tg_activation_key t = mkey)
            then othen stop (set_transport None) else oreturn ())
    (obind (gets cs_output) (\<lambda>og.
     othen (if (case og of None \<Rightarrow> False | Some og \<Rightarrow> depends_on og mkey)
            then othen stop (modifys (\<lambda>s. s\<lparr>cs_output := None\<rparr>)) else oreturn ())
       (modifys (\<lambda>s. s\<lparr>cs_peers := peers_remove_memory mkey (cs_peers s)\<rparr>)))))"

section \<open>Commands\<close>

definition apply_set_format :: "audio_format \<Rightarrow> apply_outcome sess" where
  "apply_set_format f =
     obind (gets cs_format) (\<lambda>current.
     othen (modifys (\<lambda>s. s\<lparr>cs_format := Some f\<rparr>))
    (othen (if current \<noteq> None \<and> current \<noteq> Some f
            then othen stop (modifys (\<lambda>s. s\<lparr>cs_buffer_descriptor := None, cs_io_descriptor := None, cs_output := None\<rparr>))
            else oreturn ())
       bind_output))"

definition apply_clear_format :: "apply_outcome sess" where
  "apply_clear_format =
     othen stop
    (othen (modifys (\<lambda>s. s\<lparr>cs_output := None, cs_io_descriptor := None, cs_buffer_descriptor := None, cs_format := None\<rparr>))
       (oreturn Applied))"

definition apply_use_buffers :: "buffer_set \<Rightarrow> apply_outcome sess" where
  "apply_use_buffers d =
     obind (gets (\<lambda>s. s)) (\<lambda>s.
     if cs_buffer_descriptor s \<noteq> None \<and> cs_buffer_descriptor s \<noteq> Some d then
       obind (case (cs_format s, cs_io_descriptor s) of
           (Some f, Some io) \<Rightarrow> obind (output_candidate f d io) (\<lambda>candidate. oreturn (candidate = None))
         | _ \<Rightarrow> oreturn False) (\<lambda>waiting.
       othen stop
      (othen (modifys (\<lambda>s. s\<lparr>cs_output := None, cs_io_descriptor := None, cs_buffer_descriptor := Some d\<rparr>))
         (oreturn (if waiting then PendingMemory else Applied))))
     else othen (modifys (\<lambda>s. s\<lparr>cs_buffer_descriptor := Some d\<rparr>)) bind_output)"

definition apply_clear_buffers :: "apply_outcome sess" where
  "apply_clear_buffers =
     othen stop
    (othen (modifys (\<lambda>s. s\<lparr>cs_output := None, cs_io_descriptor := None, cs_buffer_descriptor := None\<rparr>)) (oreturn Applied))"

definition apply_set_port_io :: "port_io_descriptor \<Rightarrow> apply_outcome sess" where
  "apply_set_port_io d =
     obind (gets (\<lambda>s. (cs_format s, cs_buffer_descriptor s))) (\<lambda>config.
     case config of
       (Some f, Some buffers) \<Rightarrow>
         obind (output_candidate f buffers d) (\<lambda>candidate.
         othen stop
        (othen (modifys (\<lambda>s. s\<lparr>cs_io_descriptor := Some d, cs_output := candidate\<rparr>))
           (oreturn (if candidate = None then PendingMemory else Applied))))
     | _ \<Rightarrow> othen (modifys (\<lambda>s. s\<lparr>cs_io_descriptor := Some d\<rparr>)) (oreturn Applied))"

definition apply_clear_port_io :: "apply_outcome sess" where
  "apply_clear_port_io =
     othen stop (othen (modifys (\<lambda>s. s\<lparr>cs_output := None, cs_io_descriptor := None\<rparr>)) (oreturn Applied))"

definition apply_set_peer :: "peer_descriptor \<Rightarrow> apply_outcome sess" where
  "apply_set_peer d =
     (let node = pd_node d in
      obind (gets (\<lambda>s. s)) (\<lambda>s.
      if map_of (cs_pending_peers s) node = None \<and> map_of (cs_peers s) node = None \<and>
         saturating_add_usize (length (cs_pending_peers s)) (length (cs_peers s)) \<ge> MAX_SESSION_PEERS
      then ofail (TooManyDescriptors STR ''peer activations'')
      else othen (modifys (\<lambda>s. s\<lparr>cs_pending_peers := bt_insert node d (cs_pending_peers s)\<rparr>)) (bind_peer node)))"

definition apply_remove_peer :: "u32 \<Rightarrow> apply_outcome sess" where
  "apply_remove_peer node =
     othen (modifys (\<lambda>s. s\<lparr>cs_pending_peers := bt_remove node (cs_pending_peers s), cs_peers := bt_remove node (cs_peers s)\<rparr>))
       (oreturn Applied)"

definition apply_memory_available :: "memory_lease \<Rightarrow> apply_outcome sess" where
  "apply_memory_available lease =
     othen (modifys (\<lambda>s. s\<lparr>cs_available_memory := hm_insert (mk_id (lease_key lease)) lease (cs_available_memory s)\<rparr>))
       retry_pending"

definition apply_remove_memory :: "memory_key \<Rightarrow> apply_outcome sess" where
  "apply_remove_memory mkey =
     othen (modifys (\<lambda>s.
       if map_option lease_key (map_of (cs_available_memory s) (mk_id mkey)) = Some mkey
       then s\<lparr>cs_available_memory := hm_remove (mk_id mkey) (cs_available_memory s)\<rparr> else s))
    (othen (remove_memory mkey) (oreturn Applied))"

definition apply_set_active :: "bool \<Rightarrow> apply_outcome sess" where
  "apply_set_active active =
     othen (modifys (\<lambda>s. s\<lparr>cs_active_requested := active\<rparr>))
    (othen (if active then ensure_running else stop) (oreturn Applied))"

definition apply_node_command :: "node_command_state \<Rightarrow> apply_outcome sess" where
  "apply_node_command c =
     othen (modifys (\<lambda>s. s\<lparr>cs_command := c\<rparr>))
    (othen (case c of
         NC_Start \<Rightarrow> ensure_running
       | NC_Pause \<Rightarrow> stop
       | NC_Suspend \<Rightarrow> othen stop (modifys (\<lambda>s. s\<lparr>cs_output := None, cs_io_descriptor := None,
           cs_buffer_descriptor := None, cs_format := None\<rparr>)))
       (oreturn Applied))"

definition apply_command :: "session_command \<Rightarrow> apply_outcome sess" where
  "apply_command c = (case c of
     ReplaceTransport d \<Rightarrow> othen (modifys (\<lambda>s. s\<lparr>cs_pending_transport := Some d\<rparr>)) bind_transport
   | SetFormat f \<Rightarrow> apply_set_format f
   | ClearFormat \<Rightarrow> apply_clear_format
   | UseBuffers d \<Rightarrow> apply_use_buffers d
   | ClearBuffers \<Rightarrow> apply_clear_buffers
   | SetPortIo d \<Rightarrow> apply_set_port_io d
   | ClearPortIo \<Rightarrow> apply_clear_port_io
   | SetPeerActivation d \<Rightarrow> apply_set_peer d
   | RemovePeerActivation node \<Rightarrow> apply_remove_peer node
   | MemoryAvailable lease \<Rightarrow> apply_memory_available lease
   | RemoveMemory mkey \<Rightarrow> apply_remove_memory mkey
   | MemoryDisconnected \<Rightarrow> othen disconnect (oreturn Applied)
   | SetActiveCmd active \<Rightarrow> apply_set_active active
   | SetNodeCommand nc \<Rightarrow> apply_node_command nc
   | Disconnect \<Rightarrow> othen disconnect (oreturn Applied))"

definition apply_session :: "session_command \<Rightarrow> apply_outcome sess" where
  "apply_session c =
     obind (gets cs_state) (\<lambda>state.
     if state = Disconnected then
       (if c = Disconnect then oreturn AlreadyDisconnected else ofail Session_disconnected)
     else if state = CycleClaimed then ofail (InvalidTransition STR ''configuration during callback'')
     else
     obind (apply_command c) (\<lambda>outcome.
     othen refresh_state
    (obind (gets (\<lambda>s. cs_active_requested s \<and> cs_command s = NC_Start \<and> is_ready s)) (\<lambda>run.
     othen (if run then ensure_running else oreturn ())
       (oreturn outcome)))))"

section \<open>Wakes\<close>

definition saturating_pred :: "u64 \<Rightarrow> u64" where
  "saturating_pred n = (if n = 0 then 0 else n - 1)"

text \<open>What follows the claim of a cycle.\<close>

definition after_claim ::
    "u64 \<Rightarrow> published_output option claim_completion \<Rightarrow> wake_outcome sess" where
  "after_claim drained completion = (case completion of
     NotClaimed_completion \<Rightarrow>
       othen (modifys (\<lambda>s. s\<lparr>cs_state := Running\<rparr>)) (oreturn (NotClaimed drained (saturating_pred drained)))
   | Finished_completion result finish_ns \<Rightarrow> (case result of
       Ok published \<Rightarrow>
         obind (gets cs_peers) (\<lambda>peers.
         othen (on_failure (on_snd (trigger_all peers finish_ns)) fail_session)
        (othen (modifys (\<lambda>s. s\<lparr>cs_state := Running\<rparr>))
           (oreturn (Processed drained (saturating_pred drained) (published \<noteq> None)))))
     | Err e \<Rightarrow>
         obind (gets cs_output) (\<lambda>og.
         othen (if e = FinishClockPanicked
                then (case og of None \<Rightarrow> olift Panic | Some og \<Rightarrow> on_snd (oignore (abort_published og)))
                else oreturn ())
        (othen fail_session (ofail e)))
     | Panic \<Rightarrow> olift Panic))"

definition on_wake_with_finish :: "nat \<Rightarrow> u64 \<Rightarrow> u64 option \<Rightarrow> callback \<Rightarrow> wake_outcome sess" where
  "on_wake_with_finish generation awake_ns finish callback =
     obind (gets cs_transport) (\<lambda>t.
     case t of
       None \<Rightarrow> ofail (NotReady STR ''transport'')
     | Some t \<Rightarrow>
         if generation \<noteq> tg_id t then oreturn (Stale (tg_id t) generation)
         else (\<lambda>sw.
           case on_snd (tg_drain t) sw of
             (Err (Signal_error e), sw') \<Rightarrow>
               if kind_would_block (w_libc (snd sw')) e then (Ok NoWake, sw') else (Err (Signal_error e), sw')
           | (Err e, sw') \<Rightarrow> (Err e, sw')
           | (Panic, sw') \<Rightarrow> (Panic, sw')
           | (Ok drained, sw') \<Rightarrow>
               obind (gets (\<lambda>s. s)) (\<lambda>s.
               if cs_state s \<noteq> Running then oreturn (NotRunning drained)
               else
               othen (modifys (\<lambda>s. s\<lparr>cs_state := CycleClaimed\<rparr>))
              (case cs_output s of
                 None \<Rightarrow> olift Panic
               | Some og \<Rightarrow>
                   obind (on_failure (on_snd (claim_and_finish t awake_ns finish (output_process og callback))) fail_session)
                     (after_claim drained))) sw'))"

definition on_wake :: "nat \<Rightarrow> u64 \<Rightarrow> callback \<Rightarrow> wake_outcome sess" where
  "on_wake generation now callback = on_wake_with_finish generation now (Some now) callback"

definition runtime_registration :: "(nat \<times> raw_fd) option sess" where
  "runtime_registration =
     obind (gets cs_transport) (\<lambda>t. case t of
       None \<Rightarrow> oreturn None
     | Some t \<Rightarrow> obind (on_snd (tg_try_clone_trigger t)) (\<lambda>fd. oreturn (Some (tg_id t, fd))))"

end
