(* ===== verification/Node_Session_Inv.thy ===== *)
theory Node_Session_Inv
  imports Node_Session
begin

text \<open>
  The invariant of a node session: what every command and every wake keeps, on success and on every
  early return, whatever the other processes and the kernel do.
\<close>

section \<open>Operations on the world never panic\<close>

lemma total_resolve_region [total_intros]:
  "(\<And>i. resolve i \<noteq> Panic) \<Longrightarrow> (\<And>k a b c. total_op (mapr k a b c)) \<Longrightarrow> total_op (resolve_region resolve mapr region)"
  unfolding resolve_region_def by (intro total_intros) (simp_all add: map_err_eq_Panic_iff)

lemma total_mapping_view [total_intros]: "total_op (mapping_view m)"
  unfolding mapping_view_def by (intro total_intros)

lemma total_tg [total_intros]:
  "total_op (tg_drain t)" "total_op (tg_status t)" "total_op (tg_mark_ready t)" "total_op (tg_deactivate t)"
  "total_op (tg_try_clone_trigger t)" "total_op (tg_drop t)"
  unfolding tg_drain_def tg_status_def tg_mark_ready_def tg_deactivate_def tg_try_clone_trigger_def tg_drop_def
  by (intro total_intros)+

lemma total_transport_bind [total_intros]:
  "(\<And>i. resolve i \<noteq> Panic) \<Longrightarrow> (\<And>k a b c. total_op (mapr k a b c)) \<Longrightarrow> total_op (transport_bind gid d resolve mapr)"
  unfolding transport_bind_def by (intro total_intros) simp_all

lemma total_peer_bind [total_intros]:
  "(\<And>i. resolve i \<noteq> Panic) \<Longrightarrow> (\<And>k a b c. total_op (mapr k a b c)) \<Longrightarrow> total_op (peer_bind gid d resolve mapr)"
  unfolding peer_bind_def by (intro total_intros) simp_all

lemma total_peer_trigger [total_intros]: "total_op (peer_trigger p now)"
  unfolding peer_trigger_def by (intro total_intros) simp_all

lemma total_trigger_peers: "total_op (trigger_peers peers now first)"
proof (induction peers now first rule: trigger_peers.induct)
  case (2 node peer peers now first)
  show ?case
    unfolding total_op_def
  proof
    fix w
    obtain r w' where t: "peer_trigger peer now w = (r, w')"
      by (cases "peer_trigger peer now w")
    then have "r \<noteq> Panic"
      using total_peer_trigger [of peer now] by (auto simp: total_op_def) (metis fst_conv)
    with 2 [OF t [symmetric]] t show "fst (trigger_peers ((node, peer) # peers) now first w) \<noteq> Panic"
      by (cases r) (simp_all add: total_op_def)
  qed
qed (simp add: total_op_def split: option.splits)

lemma total_trigger_all [total_intros]: "total_op (trigger_all peers now)"
  unfolding trigger_all_def by (rule total_trigger_peers)

lemma checked_record_total [simp]: "checked_record p n a b c \<noteq> Panic"
  by (simp add: checked_record_def)

lemma io_from_raw_parts_total [simp]: "io_from_raw_parts k p n \<noteq> Panic"
  by (simp add: io_from_raw_parts_def)

lemma total_chunk [total_intros]: "total_op (chunk_view_state c)" "total_op (chunk_publish c s)" "total_op (io_state io)"
  "total_op (publish_have_data io i)" "total_op (publish_need_data io i)" "total_op (ob_abort b)"
  unfolding chunk_view_state_def chunk_publish_def io_state_def publish_have_data_def publish_need_data_def ob_abort_def
  by (intro total_intros; simp)+

lemma total_output_buffer [total_intros]: "total_op (output_buffer_from_raw_parts c n m k a b)"
  unfolding output_buffer_from_raw_parts_def chunk_from_raw_parts_def Let_def by (intro total_intros) simp_all

lemma total_ob_publish [total_intros]: "total_op (ob_publish b n s f)"
  unfolding ob_publish_def by (intro total_intros) simp_all

lemma total_bound_output_buffer [total_intros]: "total_op (bound_output_buffer b)"
  unfolding bound_output_buffer_def by (intro total_intros)

lemma total_abort_published [total_intros]: "total_op (abort_published og)"
  unfolding abort_published_def Let_def by (intro total_intros) (simp_all add: map_err_eq_Panic_iff)

lemma chunk_layout_total [simp]: "chunk_layout n metas \<noteq> Panic"
  by (induction n metas rule: chunk_layout.induct) (simp_all add: panic_simps)

lemma reject_overlaps_total [simp]: "reject_overlaps xs \<noteq> Panic"
  by (simp add: reject_overlaps_def)

lemma total_bind_buffers [total_intros]:
  assumes "\<And>i. resolve i \<noteq> Panic" and "\<And>k a b c. total_op (mapr k a b c)"
  shows "total_op (bind_buffers ds resolve mapr intervals)"
proof (induction ds arbitrary: intervals)
  case (Cons d ds)
  have "total_op (bind_buffer d resolve mapr intervals)"
    unfolding bind_buffer_def Let_def by (intro total_intros assms) (simp_all add: map_err_eq_Panic_iff assms(1))
  with Cons show ?case
    by (simp only: bind_buffers.simps) (intro total_intros; simp)
qed (simp add: total_intros)

lemma total_output_bind [total_intros]:
  "(\<And>i. resolve i \<noteq> Panic) \<Longrightarrow> (\<And>k a b c. total_op (mapr k a b c)) \<Longrightarrow> total_op (output_bind gid f buffers io resolve mapr)"
  unfolding output_bind_def by (intro total_intros) (simp_all add: map_err_eq_Panic_iff)

text \<open>A panic of the callback is caught: claiming a cycle never panics, whatever it runs.\<close>

lemma total_claim_and_finish [total_intros]: "total_op (claim_and_finish t a f process)"
  unfolding claim_and_finish_def
proof (rule total_obind [OF total_mapping_view])
  fix view
  have fin: "fst (othen (omap_err Activation_error (publish_result_and_finish claim status ns))
      (oreturn (Finished_completion res ns)) w) \<noteq> Panic" for claim status ns w and res :: "('a, session_error) result"
  proof -
    have "total_op (othen (omap_err Activation_error (publish_result_and_finish claim status ns))
        (oreturn (Finished_completion res ns)))"
      by (intro total_intros) simp
    then show ?thesis
      by (simp add: total_op_def)
  qed
  have claim: "fst (claim_cycle view a w) \<noteq> Panic" for w
    using total_activation(6) by (simp add: total_op_def)
  show "total_op (\<lambda>w. case claim_cycle view a w of
         (Ok claim, w') \<Rightarrow>
           (case process w' of (processed, w'') \<Rightarrow>
             (case completion_result (w_libc w'') processed a f of (result, status, finish_ns) \<Rightarrow>
               othen (omap_err Activation_error (publish_result_and_finish claim status finish_ns))
                 (oreturn (Finished_completion result finish_ns)) w''))
       | (Err (Act_invalid_transition Triggered actual), w') \<Rightarrow> (Ok NotClaimed_completion, w')
       | (Err e, w') \<Rightarrow> (Err (Activation_error e), w')
       | (Panic, w') \<Rightarrow> (Panic, w'))"
    unfolding total_op_def using claim
    by (auto simp: fin split: prod.splits result.splits activation_error.splits activation_status.splits) (metis fst_conv)
qed

section \<open>Disjoint intervals\<close>

lemma overlaps_sym: "overlaps x y \<longleftrightarrow> overlaps y x"
  by (auto simp: overlaps_def)

lemma no_overlaps_append:
  "no_overlaps (xs @ ys) \<longleftrightarrow> no_overlaps xs \<and> no_overlaps ys \<and> (\<forall>x \<in> set xs. \<forall>y \<in> set ys. \<not> overlaps x y)"
  by (induction xs) (auto simp: list_all_iff)

lemma no_overlaps_map:
  "distinct xs \<Longrightarrow> no_overlaps (map f xs) \<longleftrightarrow> (\<forall>x \<in> set xs. \<forall>y \<in> set xs. x \<noteq> y \<longrightarrow> \<not> overlaps (f x) (f y))"
  by (induction xs) (auto simp: list_all_iff overlaps_sym)

lemma ensure_disjoint_Ok:
  "ensure_disjoint xs ys = Ok u \<longleftrightarrow> (\<forall>x \<in> set xs. \<forall>y \<in> set ys. \<not> overlaps x y)"
  by (simp add: ensure_disjoint_def list_all_iff)

lemma ensure_disjoint_total [simp]: "ensure_disjoint xs ys \<noteq> Panic"
  by (simp add: ensure_disjoint_def)

section \<open>What a binding yields\<close>

definition transport_ok :: "transport_generation \<Rightarrow> bool" where
  "transport_ok t \<longleftrightarrow> tg_activation_key t = mapping_key (tg_activation t)"

definition peer_ok :: "peer_activation \<Rightarrow> bool" where
  "peer_ok p \<longleftrightarrow> pa_key p = mapping_key (pa_mapping p)"

definition bound_ok :: "bound_buffer \<Rightarrow> bool" where
  "bound_ok b \<longleftrightarrow> bb_metadata_key b = mapping_key (bb_metadata b) \<and> bb_media_key b = mapping_key (bb_media b) \<and>
     bb_chunk_offset b + CHUNK_SIZE \<le> mapping_len (bb_metadata b)"

definition output_ok :: "output_generation \<Rightarrow> bool" where
  "output_ok og \<longleftrightarrow> og_io_key og = mapping_key (og_io og) \<and> list_all bound_ok (og_buffers og) \<and>
     no_overlaps (og_intervals og)"

definition buffer_intervals :: "bound_buffer list \<Rightarrow> memory_interval list" where
  "buffer_intervals bs = concat (map (\<lambda>b. [mapping_interval (bb_metadata b), mapping_interval (bb_media b)]) bs)"

lemma og_intervals_eq: "og_intervals og = mapping_interval (og_io og) # buffer_intervals (og_buffers og)"
  by (simp add: og_intervals_def buffer_intervals_def)

context memory_resolver
begin

lemma resolve_region_yields:
  assumes "ok m"
  shows "yields (resolve_region (resolve m) (mem_map m) region)
    (\<lambda>(mkey, mapping). mkey = mapping_key mapping \<and> mapping_len mapping = mem_len region)"
  using map_exact [OF assms]
  by (auto simp: yields_def resolve_region_def obind_eq_Ok_iff omap_err_eq_Ok_iff)

lemma resolve_total_region: "total_op (resolve_region (resolve m) (mem_map m) region)"
  by (intro total_intros resolve_total map_total)

lemma transport_bind_yields:
  assumes "ok m"
  shows "yields (transport_bind gid d (resolve m) (mem_map m)) (\<lambda>t. tg_id t = gid \<and> transport_ok t)"
  unfolding transport_bind_def
  by (rule yields_obind [OF resolve_region_yields [OF assms]])
    (auto simp: yields_def obind_eq_Ok_iff transport_ok_def)

lemma peer_bind_yields:
  assumes "ok m"
  shows "yields (peer_bind gid d (resolve m) (mem_map m))
    (\<lambda>p. pa_generation p = gid \<and> pa_node p = pd_node d \<and> peer_ok p)"
  unfolding peer_bind_def
  by (rule yields_obind [OF resolve_region_yields [OF assms]])
    (auto simp: yields_def obind_eq_Ok_iff peer_ok_def)

lemma bind_buffer_yields:
  assumes "ok m"
  shows "yields (bind_buffer d (resolve m) (mem_map m) intervals)
    (\<lambda>(b, intervals'). bound_ok b \<and> intervals' = intervals @ buffer_intervals [b] \<and> no_overlaps intervals')"
  using map_exact [OF assms] unfolding bind_buffer_def Let_def
  by (auto simp: yields_def obind_eq_Ok_iff omap_err_eq_Ok_iff ok_simps checked_add_usize_def
      bound_ok_def buffer_intervals_def reject_overlaps_def split: if_splits)

lemma bind_buffers_yields:
  assumes "ok m"
  shows "no_overlaps intervals \<Longrightarrow> yields (bind_buffers ds (resolve m) (mem_map m) intervals)
    (\<lambda>bs. list_all bound_ok bs \<and> length bs = length ds \<and> no_overlaps (intervals @ buffer_intervals bs))"
proof (induction ds arbitrary: intervals)
  case Nil
  then show ?case
    by (simp add: yields_def buffer_intervals_def)
next
  case (Cons d ds)
  show ?case
    unfolding bind_buffers.simps
  proof (rule yields_obind [OF bind_buffer_yields [OF assms]], clarify)
    fix b intervals'
    assume b: "bound_ok b" "no_overlaps (intervals @ buffer_intervals [b])"
    show "yields (obind (bind_buffers ds (resolve m) (mem_map m) (intervals @ buffer_intervals [b])) (\<lambda>bs. oreturn (b # bs)))
      (\<lambda>bs. list_all bound_ok bs \<and> length bs = length (d # ds) \<and> no_overlaps (intervals @ buffer_intervals bs))"
      by (rule yields_obind [OF Cons.IH [OF b(2)]]) (use b in \<open>auto simp: yields_def buffer_intervals_def\<close>)
  qed
qed

lemma output_bind_yields:
  assumes "ok m"
  shows "yields (output_bind gid f buffers io (resolve m) (mem_map m))
    (\<lambda>og. og_id og = gid \<and> og_format og = f \<and> output_ok og \<and> length (og_buffers og) = length (bs_buffers buffers))"
  unfolding output_bind_def
proof (cases "bs_buffers buffers = []", simp add: yields_def, simp only: if_False, rule yields_obind [OF resolve_region_yields [OF assms]], clarify)
  fix io_mapping
  assume "bs_buffers buffers \<noteq> []"
  show "yields (othen (olift (map_err Port_error (io_from_raw_parts Buffers (mapping_ptr io_mapping) (mapping_len io_mapping))))
     (if mem_len (pio_region io) \<noteq> IO_SIZE then ofail (NotReady STR ''invalid Buffers IO size'')
      else
      obind (bind_buffers (bs_buffers buffers) (resolve m) (mem_map m) [mapping_interval io_mapping]) (\<lambda>bound.
      oreturn \<lparr>og_id = gid, og_format = f, og_io_key = mapping_key io_mapping, og_io = io_mapping, og_buffers = bound\<rparr>)))
    (\<lambda>og. og_id og = gid \<and> og_format og = f \<and> output_ok og \<and> length (og_buffers og) = length (bs_buffers buffers))"
    (is "yields (othen _ (if _ then _ else ?bind)) ?post")
  proof (rule yields_obind [OF yields_True])
    have "yields ?bind ?post"
      by (rule yields_obind [OF bind_buffers_yields [OF assms]]) (auto simp: yields_def output_ok_def og_intervals_eq)
    then show "yields (if mem_len (pio_region io) \<noteq> IO_SIZE then ofail (NotReady STR ''invalid Buffers IO size'') else ?bind) ?post"
      by (simp add: yields_olift)
  qed
qed

end

definition leases_ok :: "(u32, memory_lease) amap \<Rightarrow> bool" where
  "leases_ok leases \<longleftrightarrow> hm_wf leases \<and> list_all (\<lambda>(i, l). mk_id (lease_key l) = i) leases"

lemma total_lease_map [total_intros]: "total_op (lease_map l offset len writable)"
  unfolding lease_map_def by (intro total_intros)

interpretation ordered: memory_resolver leases_ok ordered_resolve ordered_map
proof
  show "mk_id mkey = i" if "leases_ok m" "ordered_resolve m i = Ok mkey" for m i mkey
    using that by (auto simp: leases_ok_def ordered_resolve_def ok_simps list_all_iff dest!: map_of_SomeD)
  show "ordered_resolve m i \<noteq> Panic" for m i
    by (simp add: ordered_resolve_def)
  show "total_op (ordered_map m mkey offset len writable)" for m mkey offset len writable
    unfolding ordered_map_def by (intro total_intros) simp_all
  show "mapping_key mapping = mkey \<and> mm_offset mapping = offset \<and> mapping_len mapping = len \<and>
      0 < len \<and> offset + len \<le> me_file_len (mm_entry mapping)"
    if "leases_ok m" "ordered_map m mkey offset len writable w = (Ok mapping, w')" for m mkey offset len writable w mapping w'
    using that(2) by (auto simp: ordered_map_def obind_eq_Ok_iff ok_simps mapping_key_def lease_map_def lease_key_def
        map_entry_Ok(1-5) [of _ _ offset len writable w mapping w'] split: if_splits dest: map_entry_Ok(4,5))
qed

section \<open>The invariant\<close>

definition all_intervals :: "session \<Rightarrow> memory_interval list" where
  "all_intervals s = transport_intervals s @ output_intervals s @ peers_intervals (cs_peers s)"

definition generations :: "session \<Rightarrow> nat list" where
  "generations s = (case cs_transport s of None \<Rightarrow> [] | Some t \<Rightarrow> [tg_id t]) @
     (case cs_output s of None \<Rightarrow> [] | Some og \<Rightarrow> [og_id og]) @ map (\<lambda>(_, p). pa_generation p) (cs_peers s)"

definition resources_ok :: "session \<Rightarrow> bool" where
  "resources_ok s \<longleftrightarrow> leases_ok (cs_available_memory s) \<and>
     (case cs_transport s of None \<Rightarrow> True | Some t \<Rightarrow> transport_ok t) \<and>
     (case cs_output s of None \<Rightarrow> True | Some og \<Rightarrow> output_ok og) \<and>
     list_all (\<lambda>(n, p). pa_node p = n \<and> peer_ok p) (cs_peers s)"

definition peers_ok :: "session \<Rightarrow> bool" where
  "peers_ok s \<longleftrightarrow> bt_wf (cs_peers s) \<and> bt_wf (cs_pending_peers s) \<and>
     list_all (\<lambda>(n, d). pd_node d = n) (cs_pending_peers s) \<and>
     card (keys (cs_peers s) \<union> keys (cs_pending_peers s)) \<le> MAX_SESSION_PEERS"

definition generations_ok :: "session \<Rightarrow> bool" where
  "generations_ok s \<longleftrightarrow> cs_next_generation s < usize_limit \<and>
     distinct (generations s) \<and> list_all (\<lambda>g. g < cs_next_generation s) (generations s)"

definition empty_session :: "session \<Rightarrow> bool" where
  "empty_session s \<longleftrightarrow> cs_available_memory s = [] \<and> cs_transport s = None \<and> cs_pending_transport s = None \<and>
     cs_format s = None \<and> cs_buffer_descriptor s = None \<and> cs_io_descriptor s = None \<and> cs_output s = None \<and>
     cs_peers s = [] \<and> cs_pending_peers s = []"

definition state_ok :: "session \<Rightarrow> bool" where
  "state_ok s \<longleftrightarrow> (cs_state s = Running \<longrightarrow> is_ready s) \<and> (cs_state s = CycleClaimed \<longrightarrow> is_ready s) \<and>
     (cs_state s = Disconnected \<longrightarrow> empty_session s)"

definition session_inv :: "session \<Rightarrow> bool" where
  "session_inv s \<longleftrightarrow> resources_ok s \<and> peers_ok s \<and> generations_ok s \<and> no_overlaps (all_intervals s) \<and> state_ok s"

abbreviation inv :: "session \<times> world \<Rightarrow> bool" where
  "inv sw \<equiv> session_inv (fst sw)"

lemma session_new_inv: "session_inv session_new"
  by (simp add: session_inv_def session_new_def resources_ok_def peers_ok_def generations_ok_def all_intervals_def
      state_ok_def generations_def transport_intervals_def output_intervals_def peers_intervals_def leases_ok_def
      hm.wf_empty bt.wf_empty usize_limit_def)

section \<open>Triples of the small operations\<close>

lemma wp_gets [wp]: "valid (\<lambda>sw. Q (f (fst sw)) sw) (gets f) Q E"
  by (simp add: valid_def gets_def)

lemma wp_modifys [wp]: "valid (\<lambda>sw. Q () (f (fst sw), snd sw)) (modifys f) Q E"
  by (simp add: valid_def modifys_def)

definition stopped :: "session \<Rightarrow> session" where
  "stopped s = (if cs_state s \<noteq> Disconnected \<and> cs_state s \<noteq> Failed
     then s\<lparr>cs_state := (if is_ready s then Stopped else Configuring)\<rparr> else s)"

lemma wp_stop [wp]:
  "valid (\<lambda>sw. \<forall>w'. Q () (stopped (fst sw), w') \<and> (\<forall>e. E e (fst sw, w'))) stop Q E"
  unfolding stop_def stopped_def
  by (rule valid_pre, (rule wp wp_on_snd total_intros)+) (auto split: option.splits)

lemma wp_ignored: "total_op m \<Longrightarrow> valid (\<lambda>sw. \<forall>w'. Q () (fst sw, w')) (on_snd (oignore m)) Q E"
  by (auto simp: valid_def total_op_def on_snd_def oignore_def ends_def split: prod.splits result.splits) (metis fst_conv)

lemma wp_tg_drop [wp]: "valid (\<lambda>sw. \<forall>w'. Q () (fst sw, w')) (on_snd (tg_drop t)) Q E"
  unfolding tg_drop_def by (rule wp_ignored) (rule total_intros)

lemma wp_set_transport [wp]:
  "valid (\<lambda>sw. \<forall>w'. Q () ((fst sw)\<lparr>cs_transport := t\<rparr>, w')) (set_transport t) Q E"
  unfolding set_transport_def
  by (rule valid_pre, (rule wp)+) (auto split: option.splits)

lemma wp_fail_session [wp]:
  "valid (\<lambda>sw. \<forall>w'. Q () ((fst sw)\<lparr>cs_state := Failed\<rparr>, w')) fail_session Q E"
  unfolding fail_session_def
  by (rule valid_pre, (rule wp wp_ignored total_intros)+) (auto split: option.splits)

lemma wp_allocate_generation [wp]:
  "valid (\<lambda>sw. if cs_next_generation (fst sw) + 1 < usize_limit
      then Q (cs_next_generation (fst sw)) ((fst sw)\<lparr>cs_next_generation := cs_next_generation (fst sw) + 1\<rparr>, snd sw)
      else E (Overflow STR ''session generation'') sw) allocate_generation Q E"
  unfolding allocate_generation_def
  by (rule valid_pre, (rule wp)+) (auto simp: ok_or_def checked_add_usize_def)

lemma wp_start_status:
  "valid (\<lambda>sw. \<forall>w'. Q () (fst sw, w') \<and> (\<forall>e. E e (fst sw, w')))
     (case status of Inactive \<Rightarrow> on_snd (tg_mark_ready t) | Finished \<Rightarrow> oreturn ()
        | _ \<Rightarrow> ofail (InvalidTransition STR ''Start activation status'')) Q E"
  by (cases status) (auto intro!: valid_pre [OF wp_on_snd [OF total_tg(3)]] valid_olift)

lemma wp_ensure_running [wp]:
  "valid (\<lambda>sw. \<forall>w'.
      (if \<not> cs_active_requested (fst sw) \<or> cs_command (fst sw) \<noteq> NC_Start then Q () sw
       else if \<not> is_ready (fst sw) then Q () ((fst sw)\<lparr>cs_state := Configuring\<rparr>, snd sw)
       else Q () ((fst sw)\<lparr>cs_state := Running\<rparr>, w') \<and> (\<forall>e. E e (fst sw, w')))) ensure_running Q E"
  unfolding ensure_running_def
  by (rule valid_pre, (rule wp wp_start_status wp_on_snd total_intros)+) (auto simp: is_ready_def split: option.splits)

section \<open>Preservation of the invariant\<close>

text \<open>Between two calls a session that is not disconnected is \<open>live\<close>: no cycle is claimed.\<close>

definition live :: "session \<Rightarrow> bool" where
  "live s \<longleftrightarrow> session_inv s \<and> cs_state s \<noteq> Disconnected \<and> cs_state s \<noteq> CycleClaimed"

abbreviation alive :: "session \<times> world \<Rightarrow> bool" where
  "alive sw \<equiv> live (fst sw)"

definition halted :: "session \<Rightarrow> bool" where
  "halted s \<longleftrightarrow> live s \<and> cs_state s \<noteq> Running"

definition sound :: "session \<Rightarrow> bool" where
  "sound s \<longleftrightarrow> resources_ok s \<and> peers_ok s \<and> generations_ok s \<and> no_overlaps (all_intervals s)"

lemma live_iff:
  "live s \<longleftrightarrow> sound s \<and> (cs_state s = Running \<longrightarrow> is_ready s) \<and> cs_state s \<noteq> Disconnected \<and> cs_state s \<noteq> CycleClaimed"
  by (auto simp: live_def session_inv_def state_ok_def sound_def)

lemma halted_iff:
  "halted s \<longleftrightarrow> sound s \<and> cs_state s \<notin> {Running, CycleClaimed, Disconnected}"
  by (auto simp: halted_def live_iff)

lemma sound_fields [simp]:
  "sound (s\<lparr>cs_active_requested := a\<rparr>) = sound s"
  "sound (s\<lparr>cs_command := c\<rparr>) = sound s"
  "sound (s\<lparr>cs_io_descriptor := i\<rparr>) = sound s"
  "sound (s\<lparr>cs_buffer_descriptor := b\<rparr>) = sound s"
  "sound (s\<lparr>cs_pending_transport := t\<rparr>) = sound s"
  "sound (s\<lparr>cs_format := f\<rparr>) = sound s"
  "sound (s\<lparr>cs_state := st\<rparr>) = sound s"
  by (simp_all add: sound_def resources_ok_def peers_ok_def generations_ok_def all_intervals_def generations_def
      transport_intervals_def output_intervals_def)

lemma is_ready_fields [simp]:
  "is_ready (s\<lparr>cs_active_requested := a\<rparr>) = is_ready s"
  "is_ready (s\<lparr>cs_command := c\<rparr>) = is_ready s"
  "is_ready (s\<lparr>cs_io_descriptor := i\<rparr>) = is_ready s"
  "is_ready (s\<lparr>cs_buffer_descriptor := b\<rparr>) = is_ready s"
  "is_ready (s\<lparr>cs_pending_transport := t\<rparr>) = is_ready s"
  "is_ready (s\<lparr>cs_state := st\<rparr>) = is_ready s"
  "is_ready (s\<lparr>cs_next_generation := n\<rparr>) = is_ready s"
  "is_ready (s\<lparr>cs_peers := ps\<rparr>) = is_ready s"
  "is_ready (s\<lparr>cs_pending_peers := qs\<rparr>) = is_ready s"
  "is_ready (s\<lparr>cs_available_memory := m\<rparr>) = is_ready s"
  by (simp_all add: is_ready_def)

lemma is_ready_format: "is_ready s \<Longrightarrow> is_ready (s\<lparr>cs_format := Some f\<rparr>)"
  by (simp add: is_ready_def)

lemma stopped_eq: "\<exists>st. stopped s = s\<lparr>cs_state := st\<rparr> \<and> (live s \<longrightarrow> st \<notin> {Running, CycleClaimed, Disconnected})"
  by (cases "cs_state s") (auto simp: stopped_def live_def intro: exI [of _ "cs_state s"])

lemma sound_drop:
  "sound s \<Longrightarrow> sound (s\<lparr>cs_output := None\<rparr>)"
  "sound s \<Longrightarrow> sound (s\<lparr>cs_transport := None\<rparr>)"
  by (auto simp: sound_def resources_ok_def peers_ok_def generations_ok_def all_intervals_def generations_def
      transport_intervals_def output_intervals_def no_overlaps_append)

lemma sound_next: "sound s \<Longrightarrow> Suc (cs_next_generation s) < usize_limit \<Longrightarrow>
    sound (s\<lparr>cs_next_generation := Suc (cs_next_generation s)\<rparr>)"
  by (auto simp: sound_def resources_ok_def peers_ok_def generations_ok_def all_intervals_def generations_def list_all_iff
      transport_intervals_def output_intervals_def no_overlaps_append less_Suc_eq)

text \<open>A fresh generation replaces the one in place.\<close>

lemma sound_transport:
  assumes s: "sound s" and t: "transport_ok t" "tg_id t = cs_next_generation s" and n: "Suc (cs_next_generation s) < usize_limit"
    and apart: "\<forall>y \<in> set (output_intervals s @ peers_intervals (cs_peers s)). \<not> overlaps (tg_interval t) y"
  shows "sound (s\<lparr>cs_next_generation := Suc (cs_next_generation s), cs_transport := Some t\<rparr>)" (is "sound ?s")
proof -
  have "generations_ok ?s"
    using s t n by (auto simp: sound_def generations_ok_def generations_def list_all_iff less_Suc_eq)
  moreover have "no_overlaps (all_intervals ?s)"
    using s apart by (simp add: sound_def all_intervals_def transport_intervals_def output_intervals_def
        no_overlaps_append list_all_iff)
  ultimately show ?thesis
    using s t by (simp add: sound_def resources_ok_def peers_ok_def)
qed

lemma sound_output:
  assumes s: "sound s" and t: "output_ok og" "og_id og = cs_next_generation s" and n: "Suc (cs_next_generation s) < usize_limit"
    and apart: "\<forall>x \<in> set (og_intervals og). \<forall>y \<in> set (transport_intervals s @ peers_intervals (cs_peers s)). \<not> overlaps x y"
  shows "sound (s\<lparr>cs_next_generation := Suc (cs_next_generation s), cs_output := Some og\<rparr>)" (is "sound ?s")
proof -
  have "generations_ok ?s"
    using s t n by (auto simp: sound_def generations_ok_def generations_def list_all_iff less_Suc_eq)
  moreover have "no_overlaps (all_intervals ?s)"
    using s t apart overlaps_sym
    by (cases "cs_transport s"; cases "cs_output s")
      (auto simp: sound_def all_intervals_def transport_intervals_def output_intervals_def no_overlaps_append
        output_ok_def list_all_iff)
  ultimately show ?thesis
    using s t by (simp add: sound_def resources_ok_def peers_ok_def)
qed

text \<open>Fewer peers, more or less memory.\<close>

lemma no_overlaps_filter: "no_overlaps xs \<Longrightarrow> no_overlaps (filter p xs)"
  by (induction xs) (auto simp: list_all_iff)

lemma peers_intervals_filter: "set (peers_intervals (filter p ps)) \<subseteq> set (peers_intervals ps)"
  by (auto simp: peers_intervals_def)

lemma no_overlaps_peers_filter: "no_overlaps (peers_intervals ps) \<Longrightarrow> no_overlaps (peers_intervals (filter p ps))"
proof (induction ps)
  case (Cons x ps)
  then show ?case
    using peers_intervals_filter [of p ps] by (cases x) (auto simp: peers_intervals_def list_all_iff)
qed (simp add: peers_intervals_def)

lemma distinct_map_filter_pair: "distinct (map f ps) \<Longrightarrow> distinct (map f (filter p ps))"
  by (induction ps) auto

lemma sound_peers_filter:
  assumes s: "sound s"
  shows "sound (s\<lparr>cs_peers := filter p (cs_peers s)\<rparr>)" (is "sound ?s")
proof -
  have "card (keys (filter p (cs_peers s)) \<union> keys (cs_pending_peers s)) \<le> card (keys (cs_peers s) \<union> keys (cs_pending_peers s))"
    by (rule card_mono) auto
  then have "peers_ok ?s"
    using s by (auto simp: sound_def peers_ok_def bt_filter_wf)
  moreover have "generations_ok ?s"
    using s by (cases "cs_transport s"; cases "cs_output s")
      (auto simp: sound_def generations_ok_def generations_def list_all_iff distinct_map_filter_pair)
  moreover have "no_overlaps (all_intervals ?s)"
    using s peers_intervals_filter [of p "cs_peers s"]
    by (cases "cs_transport s"; cases "cs_output s")
      (auto simp: sound_def all_intervals_def transport_intervals_def output_intervals_def no_overlaps_append
        no_overlaps_peers_filter list_all_iff)
  ultimately show ?thesis
    using s by (auto simp: sound_def resources_ok_def list_all_iff)
qed

lemma sound_pending:
  assumes "sound s" and "bt_wf ps" and "list_all (\<lambda>(n, d). pd_node d = n) ps"
    and "card (keys (cs_peers s) \<union> keys ps) \<le> MAX_SESSION_PEERS"
  shows "sound (s\<lparr>cs_pending_peers := ps\<rparr>)"
  using assms by (simp add: sound_def peers_ok_def resources_ok_def generations_ok_def generations_def all_intervals_def
      transport_intervals_def output_intervals_def)

lemma sound_pending_remove: "sound s \<Longrightarrow> sound (s\<lparr>cs_pending_peers := bt_remove node (cs_pending_peers s)\<rparr>)"
proof (rule sound_pending)
  assume s: "sound s"
  then have wf: "bt_wf (cs_pending_peers s)"
    by (simp add: sound_def peers_ok_def)
  then show "bt_wf (bt_remove node (cs_pending_peers s))"
    by (simp add: bt.wf_del)
  show "list_all (\<lambda>(n, d). pd_node d = n) (bt_remove node (cs_pending_peers s))"
    using s by (auto simp: sound_def peers_ok_def list_all_iff bt.set_del [OF wf])
  have "card (keys (cs_peers s) \<union> keys (bt_remove node (cs_pending_peers s))) \<le> card (keys (cs_peers s) \<union> keys (cs_pending_peers s))"
    by (rule card_mono) (auto simp: bt.set_del [OF wf])
  with s show "card (keys (cs_peers s) \<union> keys (bt_remove node (cs_pending_peers s))) \<le> MAX_SESSION_PEERS"
    by (simp add: sound_def peers_ok_def)
qed

lemma sound_memory: "sound s \<Longrightarrow> leases_ok m \<Longrightarrow> sound (s\<lparr>cs_available_memory := m\<rparr>)"
  by (simp add: sound_def peers_ok_def resources_ok_def generations_ok_def generations_def all_intervals_def
      transport_intervals_def output_intervals_def)

lemma leases_ok_insert: "leases_ok m \<Longrightarrow> leases_ok (hm_insert (mk_id (lease_key l)) l m)"
  by (auto simp: leases_ok_def list_all_iff hm.wf_ins hm.set_ins)

lemma leases_ok_remove: "leases_ok m \<Longrightarrow> leases_ok (hm_remove i m)"
  by (auto simp: leases_ok_def list_all_iff hm.wf_del hm.set_del)

lemma sound_leases: "sound s \<Longrightarrow> leases_ok (cs_available_memory s)"
  by (simp add: sound_def resources_ok_def)

lemma bt_distinct_pairs: "bt_wf m \<Longrightarrow> distinct m"
  using bt.wf_distinct [of m] by (simp add: distinct_map)

lemma bt_insert_distinct_map:
  assumes wf: "bt_wf m" and d: "distinct (map f m)" and new: "f (k, v) \<notin> f ` set m"
  shows "distinct (map f (bt_insert k v m))"
proof -
  have "inj_on f (set m)"
    using d by (simp add: distinct_map)
  then have "inj_on f (set (bt_insert k v m))"
    using new unfolding bt.set_ins [OF wf] by (auto simp: inj_on_def image_iff)
  then show ?thesis
    by (simp add: distinct_map bt_distinct_pairs bt.wf_ins wf)
qed

lemma bt_insert_no_overlaps:
  assumes wf: "bt_wf m" and d: "no_overlaps (map f m)"
    and new: "\<forall>x \<in> set m. fst x \<noteq> k \<longrightarrow> \<not> overlaps (f (k, v)) (f x)"
  shows "no_overlaps (map f (bt_insert k v m))"
proof -
  have "\<not> overlaps (f x) (f y)" if "x \<in> set m" "y \<in> set m" "x \<noteq> y" for x y
    using that d no_overlaps_map [OF bt_distinct_pairs [OF wf], of f] by blast
  moreover have "\<forall>x \<in> set m. fst x \<noteq> k \<longrightarrow> \<not> overlaps (f x) (f (k, v))"
    using new by (subst overlaps_sym)
  ultimately show ?thesis
    using new unfolding no_overlaps_map [OF bt_distinct_pairs [OF bt.wf_ins [OF wf]], of f] bt.set_ins [OF wf]
    by (simp add: Ball_def)
qed

lemma sound_peer:
  assumes s: "sound s" and p: "peer_ok p" "pa_node p = node" "pa_generation p = cs_next_generation s"
    and n: "Suc (cs_next_generation s) < usize_limit"
    and full: "card (insert node (keys (cs_peers s)) \<union> keys (cs_pending_peers s)) \<le> MAX_SESSION_PEERS"
    and apart: "\<forall>y \<in> set (transport_intervals s @ output_intervals s @ peers_intervals_except node (cs_peers s)).
      \<not> overlaps (pa_interval p) y"
  shows "sound (s\<lparr>cs_next_generation := Suc (cs_next_generation s), cs_peers := bt_insert node p (cs_peers s)\<rparr>)"
    (is "sound ?s")
proof -
  let ?ps = "bt_insert node p (cs_peers s)"
  have wf: "bt_wf (cs_peers s)" "bt_wf ?ps"
    using s by (simp_all add: sound_def peers_ok_def bt.wf_ins)
  note set_eq = bt.set_ins [OF wf(1), of node p]
  have "generations_ok ?s"
  proof -
    have gens: "distinct (generations s)" "\<forall>g \<in> set (generations s). g < cs_next_generation s"
      using s by (simp_all add: sound_def generations_ok_def list_all_iff)
    then have "distinct (map (\<lambda>(_, p). pa_generation p) ?ps)"
      by (intro bt_insert_distinct_map wf) (auto simp: generations_def p(3))
    then show ?thesis
      using gens n p(3) by (cases "cs_transport s"; cases "cs_output s")
        (auto simp: generations_ok_def generations_def list_all_iff less_Suc_eq set_eq)
  qed
  moreover have "no_overlaps (all_intervals ?s)"
  proof -
    have parts: "no_overlaps (transport_intervals s @ output_intervals s)" "no_overlaps (peers_intervals (cs_peers s))"
      "\<forall>x \<in> set (transport_intervals s @ output_intervals s). \<forall>y \<in> set (peers_intervals (cs_peers s)). \<not> overlaps x y"
      using s by (auto simp: sound_def all_intervals_def no_overlaps_append)
    then have "no_overlaps (peers_intervals ?ps)"
      using apart unfolding peers_intervals_def
      by (intro bt_insert_no_overlaps wf) (fastforce simp: peers_intervals_except_def)+
    moreover have "set (peers_intervals ?ps) \<subseteq> insert (pa_interval p) (set (peers_intervals (cs_peers s)))"
      by (auto simp: peers_intervals_def set_eq)
    moreover have "\<forall>x \<in> set (transport_intervals s @ output_intervals s). \<not> overlaps x (pa_interval p)"
      using apart overlaps_sym by auto
    moreover have "all_intervals ?s = (transport_intervals s @ output_intervals s) @ peers_intervals ?ps"
      by (simp add: all_intervals_def transport_intervals_def output_intervals_def)
    ultimately show ?thesis
      using parts(1,3) by (simp only: no_overlaps_append set_append) blast
  qed
  moreover have "peers_ok ?s"
    using s full wf by (simp add: sound_def peers_ok_def bt.keys_ins)
  ultimately show ?thesis
    using s p(1,2) by (auto simp: sound_def resources_ok_def list_all_iff set_eq)
qed

end
