(* ===== verification/Node_Session_Ops.thy ===== *)
theory Node_Session_Ops
  imports Node_Session_Inv
begin

text \<open>
  Every command keeps the invariant of a session, on success and on every early return, and no
  command panics: triples of the operations of \<open>session::owner\<close>, bottom up.
\<close>

section \<open>Binding against the ordered memory\<close>

lemma ordered_total [simp]: "ordered_resolve leases i \<noteq> Panic"
  by (simp add: ordered_resolve_def)

lemma unresolved_total [simp]: "unresolved (ordered_resolve leases i) \<noteq> Panic"
  by (auto simp: unresolved_def ordered_resolve_def split: result.splits memory_error.splits)

lemma any_unresolved_total [simp]: "any_unresolved leases is \<noteq> Panic"
  by (induction "is") (auto simp: rbind_eq_Panic_iff)

lemma total_ordered_map [total_intros]: "total_op (ordered_map leases k a b c)"
  by (rule ordered.map_total)

lemma wp_transport_bind:
  "valid (\<lambda>sw. leases_ok m \<and> (\<forall>w'. (\<forall>t. tg_id t = gid \<and> transport_ok t \<longrightarrow> Q t (fst sw, w')) \<and> (\<forall>e. E e (fst sw, w'))))
     (on_snd (transport_bind gid d (ordered_resolve m) (ordered_map m))) Q E"
  by (rule wp_assuming, rule wp_on_snd_yields) (intro total_intros ordered.transport_bind_yields; simp)+

lemma wp_output_bind:
  "valid (\<lambda>sw. leases_ok m \<and> (\<forall>w'. (\<forall>og. og_id og = gid \<and> og_format og = f \<and> output_ok og \<and>
        length (og_buffers og) = length (bs_buffers buffers) \<longrightarrow> Q og (fst sw, w')) \<and> (\<forall>e. E e (fst sw, w'))))
     (on_snd (output_bind gid f buffers io (ordered_resolve m) (ordered_map m))) Q E"
  by (rule wp_assuming, rule wp_on_snd_yields) (intro total_intros ordered.output_bind_yields; simp)+

lemma wp_peer_bind:
  "valid (\<lambda>sw. leases_ok m \<and> (\<forall>w'. (\<forall>p. pa_generation p = gid \<and> pa_node p = pd_node d \<and> peer_ok p \<longrightarrow> Q p (fst sw, w')) \<and>
        (\<forall>e. E e (fst sw, w'))))
     (on_snd (peer_bind gid d (ordered_resolve m) (ordered_map m))) Q E"
  by (rule wp_assuming, rule wp_on_snd_yields) (intro total_intros ordered.peer_bind_yields; simp)+

section \<open>Updates that commute\<close>

lemma outward [simp]:
  "s\<lparr>cs_state := st, cs_output := og\<rparr> = s\<lparr>cs_output := og, cs_state := st\<rparr>"
  "s\<lparr>cs_state := st, cs_transport := t\<rparr> = s\<lparr>cs_transport := t, cs_state := st\<rparr>"
  "s\<lparr>cs_io_descriptor := i, cs_output := og\<rparr> = s\<lparr>cs_output := og, cs_io_descriptor := i\<rparr>"
  "s\<lparr>cs_pending_transport := pt, cs_transport := t\<rparr> = s\<lparr>cs_transport := t, cs_pending_transport := pt\<rparr>"
  "s\<lparr>cs_pending_transport := pt, cs_next_generation := n\<rparr> = s\<lparr>cs_next_generation := n, cs_pending_transport := pt\<rparr>"
  "s\<lparr>cs_buffer_descriptor := b, cs_output := og\<rparr> = s\<lparr>cs_output := og, cs_buffer_descriptor := b\<rparr>"
  "s\<lparr>cs_state := st, cs_format := f\<rparr> = s\<lparr>cs_format := f, cs_state := st\<rparr>"
  "s\<lparr>cs_state := st, cs_io_descriptor := i\<rparr> = s\<lparr>cs_io_descriptor := i, cs_state := st\<rparr>"
  "s\<lparr>cs_state := st, cs_buffer_descriptor := b\<rparr> = s\<lparr>cs_buffer_descriptor := b, cs_state := st\<rparr>"
  by simp_all

lemma stopped_fields [simp]:
  "cs_output (stopped s) = cs_output s" "cs_transport (stopped s) = cs_transport s" "cs_peers (stopped s) = cs_peers s"
  "cs_format (stopped s) = cs_format s" "cs_available_memory (stopped s) = cs_available_memory s"
  "cs_pending_peers (stopped s) = cs_pending_peers s" "cs_next_generation (stopped s) = cs_next_generation s"
  by (simp_all add: stopped_def)

lemma live_stopped:
  assumes "live s"
  obtains st where "stopped s = s\<lparr>cs_state := st\<rparr>" and "st \<notin> {Running, CycleClaimed, Disconnected}"
  using stopped_eq [of s] assms by auto

lemma live_next: "live s \<Longrightarrow> Suc (cs_next_generation s) < usize_limit \<Longrightarrow>
    live (s\<lparr>cs_next_generation := Suc (cs_next_generation s)\<rparr>)"
  by (simp add: live_iff sound_next)

lemma live_fields [simp]:
  "live (s\<lparr>cs_active_requested := a\<rparr>) = live s"
  "live (s\<lparr>cs_command := c\<rparr>) = live s"
  "live (s\<lparr>cs_io_descriptor := i\<rparr>) = live s"
  "live (s\<lparr>cs_buffer_descriptor := b\<rparr>) = live s"
  "live (s\<lparr>cs_pending_transport := t\<rparr>) = live s"
  by (simp_all add: live_iff)

lemma live_sound: "live s \<Longrightarrow> sound s"
  by (simp add: live_iff)

lemma live_halted:
  "sound s \<Longrightarrow> st \<notin> {Running, CycleClaimed, Disconnected} \<Longrightarrow> live (s\<lparr>cs_state := st\<rparr>)"
  by (simp add: live_iff)

section \<open>Transport\<close>

lemma live_new_transport:
  assumes "live s" and "transport_ok t" "tg_id t = cs_next_generation s" and "Suc (cs_next_generation s) < usize_limit"
    and "\<forall>y \<in> set (output_intervals s) \<union> set (peers_intervals (cs_peers s)). \<not> overlaps (tg_interval t) y"
  shows "live (stopped (s\<lparr>cs_next_generation := Suc (cs_next_generation s), cs_pending_transport := pt\<rparr>)\<lparr>cs_transport := Some t\<rparr>)"
proof -
  have "live (s\<lparr>cs_next_generation := Suc (cs_next_generation s), cs_pending_transport := pt\<rparr>)"
    using assms live_next by simp
  then obtain st where "stopped (s\<lparr>cs_next_generation := Suc (cs_next_generation s), cs_pending_transport := pt\<rparr>) =
      s\<lparr>cs_next_generation := Suc (cs_next_generation s), cs_pending_transport := pt, cs_state := st\<rparr>"
    "st \<notin> {Running, CycleClaimed, Disconnected}"
    by (rule live_stopped)
  then show ?thesis
    using assms sound_transport [of s t] by (simp add: live_halted live_sound)
qed

lemma bind_transport_keeps: "keeps alive bind_transport"
  unfolding bind_transport_def
  by (rule valid_pre, (rule wp wp_transport_bind)+)
    (auto split: option.splits result.splits
      simp: ensure_disjoint_Ok live_sound sound_leases live_next live_new_transport)

section \<open>Output\<close>

definition candidate_ok :: "session \<Rightarrow> output_generation \<Rightarrow> bool" where
  "candidate_ok s og \<longleftrightarrow> sound (s\<lparr>cs_output := Some og\<rparr>)"

lemma output_candidate_keeps:
  "valid alive (output_candidate f buffers io)
     (\<lambda>c sw. live (fst sw) \<and> (\<forall>og. c = Some og \<longrightarrow> candidate_ok (fst sw) og)) (\<lambda>_. alive)"
  unfolding output_candidate_def
  by (rule valid_pre, (rule wp wp_output_bind)+)
    (auto split: option.splits result.splits
      simp: ensure_disjoint_Ok live_sound sound_leases live_next candidate_ok_def sound_output)

lemma live_new_output:
  assumes "live s" and "candidate_ok s og"
  shows "live (stopped s\<lparr>cs_output := Some og\<rparr>)"
  using assms by (rule_tac live_stopped [of s]) (simp_all add: candidate_ok_def live_halted)

lemma bind_output_keeps: "keeps alive bind_output"
  unfolding bind_output_def
  by (rule valid_pre, (rule wp wp_triple [OF output_candidate_keeps])+)
    (auto split: option.splits result.splits simp: live_new_output)

section \<open>Peers\<close>

lemma pending_node:
  assumes "sound s" and "map_of (cs_pending_peers s) node = Some d"
  shows "pd_node d = node" and "node \<in> keys (cs_pending_peers s)"
  using assms by (force simp: sound_def peers_ok_def list_all_iff dest!: map_of_SomeD)+

lemma sound_new_peer:
  assumes s: "sound s" and node: "node \<in> keys (cs_pending_peers s)"
    and p: "peer_ok p" "pa_node p = node" "pa_generation p = cs_next_generation s"
    and n: "Suc (cs_next_generation s) < usize_limit"
    and apart: "\<forall>y \<in> set (transport_intervals s @ output_intervals s @ peers_intervals_except node (cs_peers s)).
      \<not> overlaps (pa_interval p) y"
  shows "sound (s\<lparr>cs_pending_peers := bt_remove node (cs_pending_peers s), cs_next_generation := Suc (cs_next_generation s),
     cs_peers := bt_insert node p (cs_peers s)\<rparr>)"
proof -
  let ?s = "s\<lparr>cs_pending_peers := bt_remove node (cs_pending_peers s)\<rparr>"
  have wf: "bt_wf (cs_pending_peers s)"
    using s by (simp add: sound_def peers_ok_def)
  have "insert node (keys (cs_peers s)) \<union> keys (bt_remove node (cs_pending_peers s)) = keys (cs_peers s) \<union> keys (cs_pending_peers s)"
    using node by (auto simp: bt.keys_del [OF wf])
  then have "card (insert node (keys (cs_peers ?s)) \<union> keys (cs_pending_peers ?s)) \<le> MAX_SESSION_PEERS"
    using s by (simp add: sound_def peers_ok_def)
  then show ?thesis
    using sound_peer [of ?s p node] sound_pending_remove [OF s] p n apart
    by (simp add: transport_intervals_def output_intervals_def)
qed

lemma sound_pending_wf: "sound s \<Longrightarrow> bt_wf (cs_pending_peers s)"
  by (simp add: sound_def peers_ok_def)

lemma live_pending_remove: "live s \<Longrightarrow> live (s\<lparr>cs_pending_peers := bt_remove node (cs_pending_peers s)\<rparr>)"
  by (simp add: live_iff sound_pending_remove)

lemma live_pending_next:
  "live s \<Longrightarrow> Suc (cs_next_generation s) < usize_limit \<Longrightarrow>
    live (s\<lparr>cs_pending_peers := bt_remove node (cs_pending_peers s), cs_next_generation := Suc (cs_next_generation s)\<rparr>)"
  using live_next [OF live_pending_remove] by simp

lemma live_new_peer:
  assumes "live s" and "map_of (cs_pending_peers s) node = Some d"
    and "peer_ok p" "pa_node p = pd_node d" "pa_generation p = cs_next_generation s" "Suc (cs_next_generation s) < usize_limit"
    and "\<forall>y \<in> set (transport_intervals s) \<union> (set (output_intervals s) \<union> set (peers_intervals_except node (cs_peers s))).
      \<not> overlaps (pa_interval p) y"
  shows "live (s\<lparr>cs_pending_peers := bt_remove node (cs_pending_peers s), cs_next_generation := Suc (cs_next_generation s),
     cs_peers := bt_insert (pd_node d) p (cs_peers s)\<rparr>)"
  using assms sound_new_peer [of s node p] pending_node [of s node d] by (simp add: live_iff)

lemma bind_peer_keeps:
  "valid (\<lambda>sw. live (fst sw) \<and> insert node K \<subseteq> keys (cs_pending_peers (fst sw))) (bind_peer node)
    (\<lambda>_ sw. live (fst sw) \<and> K - {node} \<subseteq> keys (cs_pending_peers (fst sw))) (\<lambda>_. alive)"
  unfolding bind_peer_def
  by (rule valid_pre, (rule wp wp_peer_bind)+)
    (auto split: option.splits result.splits simp: map_of_eq_None_iff ensure_disjoint_Ok live_sound sound_leases
      live_pending_remove live_pending_next live_new_peer bt.keys_del dest!: live_sound [THEN sound_pending_wf])

lemma bind_peers_keeps:
  "distinct nodes \<Longrightarrow> valid (\<lambda>sw. live (fst sw) \<and> set nodes \<subseteq> keys (cs_pending_peers (fst sw))) (bind_peers nodes waiting)
    (\<lambda>_. alive) (\<lambda>_. alive)"
proof (induction nodes arbitrary: waiting)
  case Nil
  then show ?case
    by (simp add: valid_def)
next
  case (Cons node nodes)
  then have "set nodes - {node} = set nodes"
    by auto
  with bind_peer_keeps [of node "set nodes"] Cons show ?case
    by (auto intro!: valid_bind)
qed

lemma wp_bind_peers:
  "valid (\<lambda>sw. distinct nodes \<and> (live (fst sw) \<and> set nodes \<subseteq> keys (cs_pending_peers (fst sw))) \<and>
      (\<forall>x sw'. alive sw' \<longrightarrow> Q x sw') \<and> (\<forall>e sw'. alive sw' \<longrightarrow> E e sw')) (bind_peers nodes waiting) Q E"
  by (rule wp_assuming, rule wp_triple [OF bind_peers_keeps])

lemma pending_distinct: "live s \<Longrightarrow> distinct (map fst (cs_pending_peers s))"
  by (simp add: bt.wf_distinct sound_pending_wf live_sound)

lemma retry_pending_keeps: "keeps alive retry_pending"
  unfolding retry_pending_def
  by (rule valid_pre, (rule wp wp_bind_peers wp_triple [OF bind_transport_keeps] wp_triple [OF bind_output_keeps])+)
    (auto simp: pending_distinct)

section \<open>Memory\<close>

lemma live_drop:
  assumes "live s"
  shows "live (stopped s)" and "live (stopped s\<lparr>cs_output := None\<rparr>)" and "live (stopped s\<lparr>cs_transport := None\<rparr>)"
  using assms by (rule_tac [!] live_stopped [of s]) (simp_all add: sound_drop live_halted live_sound)

lemma live_peers_filter: "live s \<Longrightarrow> cs_peers s = ps \<Longrightarrow> live (s\<lparr>cs_peers := filter p ps\<rparr>)"
  by (auto simp: live_iff sound_peers_filter)

lemma remove_memory_keeps: "keeps alive (remove_memory mkey)"
  unfolding remove_memory_def peers_remove_memory_def
  by (rule valid_pre, (rule wp)+) (auto simp: live_drop live_peers_filter split: option.splits)

lemma live_memory: "live s \<Longrightarrow> leases_ok m \<Longrightarrow> live (s\<lparr>cs_available_memory := m\<rparr>)"
  by (simp add: live_iff sound_memory)

section \<open>Commands\<close>

lemma live_clear:
  assumes "live s"
  shows "live (stopped s\<lparr>cs_output := None, cs_io_descriptor := i, cs_buffer_descriptor := b, cs_format := None\<rparr>)"
  by (rule live_stopped [OF assms]) (use assms in \<open>simp_all add: sound_drop live_halted live_sound\<close>)

lemma live_set_format: "live s \<Longrightarrow> live (s\<lparr>cs_format := Some f\<rparr>)"
  by (simp add: live_iff is_ready_format)

lemma apply_set_format_keeps: "keeps alive (apply_set_format f)"
  unfolding apply_set_format_def
  by (rule valid_pre, (rule wp wp_triple [OF bind_output_keeps])+) (auto simp: live_set_format live_drop)

lemma apply_clears_keep:
  "keeps alive apply_clear_format" "keeps alive apply_clear_buffers" "keeps alive apply_clear_port_io"
  unfolding apply_clear_format_def apply_clear_buffers_def apply_clear_port_io_def
  by (rule valid_pre, (rule wp)+, auto simp: live_clear live_drop)+

lemma apply_use_buffers_keeps: "keeps alive (apply_use_buffers d)"
  unfolding apply_use_buffers_def
  by (rule valid_pre, (rule wp wp_triple [OF bind_output_keeps] wp_triple [OF output_candidate_keeps])+)
    (auto simp: live_drop split: option.splits)

lemma apply_set_port_io_keeps: "keeps alive (apply_set_port_io d)"
  unfolding apply_set_port_io_def
  by (rule valid_pre, (rule wp wp_triple [OF output_candidate_keeps])+)
    (auto simp: live_new_output live_drop split: option.splits)

lemma live_pending_insert:
  assumes s: "live s" and d: "pd_node d = node"
    and room: "node \<in> keys (cs_pending_peers s) \<or> node \<in> keys (cs_peers s) \<or>
      saturating_add_usize (length (cs_pending_peers s)) (length (cs_peers s)) < MAX_SESSION_PEERS"
  shows "live (s\<lparr>cs_pending_peers := bt_insert node d (cs_pending_peers s)\<rparr>)"
proof -
  have wf: "bt_wf (cs_pending_peers s)" "bt_wf (cs_peers s)"
    and nodes: "list_all (\<lambda>(n, d). pd_node d = n) (cs_pending_peers s)"
    and bound: "card (keys (cs_peers s) \<union> keys (cs_pending_peers s)) \<le> MAX_SESSION_PEERS"
    using live_sound [OF s] by (simp_all add: sound_def peers_ok_def)
  have "card (keys (cs_peers s) \<union> insert node (keys (cs_pending_peers s))) \<le> MAX_SESSION_PEERS"
  proof (cases "node \<in> keys (cs_peers s) \<union> keys (cs_pending_peers s)")
    case True
    then have "keys (cs_peers s) \<union> insert node (keys (cs_pending_peers s)) = keys (cs_peers s) \<union> keys (cs_pending_peers s)"
      by auto
    with bound show ?thesis
      by simp
  next
    case False
    then have "length (cs_pending_peers s) + length (cs_peers s) < MAX_SESSION_PEERS"
      using room by (auto simp: saturating_add_usize_def MAX_SESSION_PEERS_def usize_limit_def split: if_splits)
    moreover have "card (keys (cs_peers s) \<union> keys (cs_pending_peers s)) \<le> length (cs_pending_peers s) + length (cs_peers s)"
      using card_Un_le [of "keys (cs_peers s)" "keys (cs_pending_peers s)"] bt.card_keys [OF wf(1)] bt.card_keys [OF wf(2)] by simp
    ultimately show ?thesis
      using False by simp
  qed
  moreover have "list_all (\<lambda>(n, d). pd_node d = n) (bt_insert node d (cs_pending_peers s))"
    using nodes d by (auto simp: list_all_iff bt.set_ins [OF wf(1)])
  ultimately have "sound (s\<lparr>cs_pending_peers := bt_insert node d (cs_pending_peers s)\<rparr>)"
    by (intro sound_pending) (use s wf in \<open>simp_all add: live_sound bt.wf_ins bt.keys_ins\<close>)
  then show ?thesis
    using s by (simp add: live_iff)
qed

lemma apply_set_peer_keeps: "keeps alive (apply_set_peer d)"
  unfolding apply_set_peer_def Let_def
  by (rule valid_pre, (rule wp wp_triple [OF bind_peer_keeps [of "pd_node d" "{}"]])+)
    (auto simp: live_pending_insert map_of_eq_None_iff bt.keys_ins dest: live_sound [THEN sound_pending_wf])

lemma apply_remove_peer_keeps: "keeps alive (apply_remove_peer node)"
  unfolding apply_remove_peer_def bt_remove_def
  by (rule valid_pre, (rule wp)+) (auto simp: live_peers_filter live_pending_remove [unfolded bt_remove_def])

lemma apply_memory_available_keeps: "keeps alive (apply_memory_available lease)"
  unfolding apply_memory_available_def
  by (rule valid_pre, (rule wp wp_triple [OF retry_pending_keeps])+)
    (auto simp: live_memory leases_ok_insert sound_leases live_sound)

lemma apply_remove_memory_keeps: "keeps alive (apply_remove_memory mkey)"
  unfolding apply_remove_memory_def
  by (rule valid_pre, (rule wp wp_triple [OF remove_memory_keeps])+)
    (auto simp: live_memory leases_ok_remove sound_leases live_sound)

lemma live_running:
  "live s \<Longrightarrow> is_ready s \<Longrightarrow> live (s\<lparr>cs_state := Running\<rparr>)"
  "live s \<Longrightarrow> live (s\<lparr>cs_state := Configuring\<rparr>)"
  "live s \<Longrightarrow> live (s\<lparr>cs_state := Ready\<rparr>)"
  "live s \<Longrightarrow> live (s\<lparr>cs_state := Failed\<rparr>)"
  by (simp_all add: live_iff)

lemma ensure_running_keeps: "keeps alive ensure_running"
  by (rule valid_pre, rule wp) (auto simp: live_running)

lemma apply_switches_keep: "keeps alive (apply_set_active b)" "keeps alive (apply_node_command c)"
  unfolding apply_set_active_def apply_node_command_def
   apply (rule valid_pre, (rule wp)+, auto simp: live_running live_drop)
  apply (cases c; simp only: node_command_state.case; rule valid_pre, (rule wp)+, auto simp: live_running live_drop live_clear)
  done

section \<open>Any command\<close>

text \<open>A session at rest: what a caller sees between two calls.\<close>

definition resting :: "session \<Rightarrow> bool" where
  "resting s \<longleftrightarrow> session_inv s \<and> cs_state s \<noteq> CycleClaimed"

definition ended :: "session \<Rightarrow> bool" where
  "ended s \<longleftrightarrow> cs_state s = Disconnected \<and> empty_session s"

lemma resting_iff: "resting s \<longleftrightarrow> live s \<or> (session_inv s \<and> ended s)"
  by (auto simp: resting_def live_def ended_def session_inv_def state_ok_def)

lemma ended_resting: "ended s \<Longrightarrow> cs_next_generation s < usize_limit \<Longrightarrow> resting s"
  by (simp add: resting_def ended_def empty_session_def session_inv_def resources_ok_def peers_ok_def generations_ok_def
      all_intervals_def state_ok_def generations_def transport_intervals_def output_intervals_def peers_intervals_def
      leases_ok_def hm.wf_empty bt.wf_empty)

lemma live_generation: "live s \<Longrightarrow> cs_next_generation s < usize_limit"
  by (simp add: live_def session_inv_def generations_ok_def)

lemma disconnect_ends: "valid alive disconnect (\<lambda>_ sw. resting (fst sw) \<and> ended (fst sw)) (\<lambda>_ _. False)"
  unfolding disconnect_def
  by (rule valid_pre, (rule wp)+) (auto simp: ended_def empty_session_def live_generation intro!: ended_resting)

lemma live_resting: "live s \<Longrightarrow> resting s"
  by (simp add: resting_iff)

lemma keeps_resting: "keeps alive m \<Longrightarrow> valid alive m (\<lambda>_ sw. resting (fst sw)) (\<lambda>_ sw. resting (fst sw))"
  by (erule valid_conseq) (auto simp: live_resting)

lemma apply_command_keeps: "valid alive (apply_command c) (\<lambda>_ sw. resting (fst sw)) (\<lambda>_ sw. resting (fst sw))"
proof (cases c)
  case (ReplaceTransport d)
  then show ?thesis
    unfolding apply_command_def ReplaceTransport session_command.case
    by - (rule valid_pre, (rule wp wp_triple [OF bind_transport_keeps])+, auto simp: live_resting)
next
  case MemoryDisconnected
  then show ?thesis
    unfolding apply_command_def MemoryDisconnected session_command.case
    by - (rule valid_pre, (rule wp wp_triple [OF disconnect_ends])+, auto)
next
  case Disconnect
  then show ?thesis
    unfolding apply_command_def Disconnect session_command.case
    by - (rule valid_pre, (rule wp wp_triple [OF disconnect_ends])+, auto)
qed (simp_all add: apply_command_def keeps_resting apply_set_format_keeps apply_clears_keep apply_use_buffers_keeps
    apply_set_port_io_keeps apply_set_peer_keeps apply_remove_peer_keeps apply_memory_available_keeps
    apply_remove_memory_keeps apply_switches_keep)

lemma resting_fields:
  "resting s \<Longrightarrow> cs_state s \<notin> {Running, CycleClaimed, Failed, Disconnected} \<Longrightarrow> st \<in> {Ready, Configuring} \<Longrightarrow>
    resting (s\<lparr>cs_state := st\<rparr>)"
  "resting s \<Longrightarrow> is_ready s \<Longrightarrow> resting (s\<lparr>cs_state := Running\<rparr>)"
  by (auto simp: resting_iff live_iff ended_def empty_session_def is_ready_def)

lemma resting_live: "resting s \<Longrightarrow> cs_state s \<noteq> Disconnected \<Longrightarrow> live s"
  by (auto simp: resting_iff ended_def)

lemma apply_session_keeps:
  "valid (\<lambda>sw. resting (fst sw)) (apply_session c) (\<lambda>_ sw. resting (fst sw)) (\<lambda>_ sw. resting (fst sw))"
  unfolding apply_session_def refresh_state_def
  by (rule valid_pre, (rule wp wp_triple [OF apply_command_keeps])+)
    (auto simp: resting_fields resting_live)

section \<open>Any wake\<close>

lemma completion_not_panic [simp]: "completion_result l p a f \<noteq> (Panic, x)"
  by (auto simp: completion_result_def split: option.splits result.splits)

lemma claim_and_finish_yields:
  "yields (claim_and_finish t a f process) (\<lambda>c. case c of NotClaimed_completion \<Rightarrow> True | Finished_completion r _ \<Rightarrow> r \<noteq> Panic)"
  unfolding claim_and_finish_def
  by (rule yields_obind [OF yields_True])
    (auto simp: yields_def obind_eq_Ok_iff split: prod.splits result.splits activation_error.splits activation_status.splits)

lemma wp_drain:
  fixes k :: "u64 \<Rightarrow> wake_outcome sess"
  assumes "\<And>drained. valid (P drained) (k drained) Q E"
  shows "valid (\<lambda>sw. \<forall>w'. (\<forall>drained. P drained (fst sw, w')) \<and> Q NoWake (fst sw, w') \<and> (\<forall>e. E e (fst sw, w')))
    (\<lambda>sw. case on_snd (tg_drain t) sw of
       (Err (Signal_error e), sw') \<Rightarrow>
         if kind_would_block (w_libc (snd sw')) e then (Ok NoWake, sw') else (Err (Signal_error e), sw')
     | (Err e, sw') \<Rightarrow> (Err e, sw')
     | (Panic, sw') \<Rightarrow> (Panic, sw')
     | (Ok drained, sw') \<Rightarrow> k drained sw') Q E"
proof (rule validI)
  fix sw :: "session \<times> world"
  assume pre: "\<forall>w'. (\<forall>drained. P drained (fst sw, w')) \<and> Q NoWake (fst sw, w') \<and> (\<forall>e. E e (fst sw, w'))"
  obtain r w' where r: "tg_drain t (snd sw) = (r, w')" "on_snd (tg_drain t) sw = (r, (fst sw, w'))"
    by (cases "tg_drain t (snd sw)", cases sw) (simp add: on_snd_apply)
  moreover have "r \<noteq> Panic"
    using total_tg(1) [of t] r(1) by (auto simp: total_op_def) (metis fst_conv)
  ultimately show "ends Q E (case on_snd (tg_drain t) sw of
       (Err (Signal_error e), sw') \<Rightarrow>
         if kind_would_block (w_libc (snd sw')) e then (Ok NoWake, sw') else (Err (Signal_error e), sw')
     | (Err e, sw') \<Rightarrow> (Err e, sw')
     | (Panic, sw') \<Rightarrow> (Panic, sw')
     | (Ok drained, sw') \<Rightarrow> k drained sw')"
    using pre validD [OF assms] by (cases r) (auto split: session_error.splits)
qed

lemma wp_after_claim:
  "valid (\<lambda>sw. (case completion of Finished_completion r _ \<Rightarrow> r \<noteq> Panic \<and> cs_output (fst sw) \<noteq> None | _ \<Rightarrow> True) \<and>
      (\<forall>x w'. Q x ((fst sw)\<lparr>cs_state := Running\<rparr>, w')) \<and> (\<forall>e w'. E e ((fst sw)\<lparr>cs_state := Failed\<rparr>, w')))
    (after_claim drained completion) Q E"
proof (cases completion)
  case NotClaimed_completion
  then show ?thesis
    unfolding after_claim_def by - (rule valid_pre, (simp, (rule wp)+), auto)
next
  case (Finished_completion r ns)
  show ?thesis
  proof (cases r)
    case (Ok published)
    then show ?thesis
      unfolding after_claim_def Finished_completion
      by - (rule valid_pre, (simp only: claim_completion.case result.case, (rule wp wp_on_snd total_intros)+), auto)
  next
    case (Err e)
    then show ?thesis
      unfolding after_claim_def Finished_completion
      by - (rule valid_pre, (simp only: claim_completion.case result.case, (rule wp wp_ignored total_intros)+),
          auto split: option.splits)
  next
    case Panic
    then show ?thesis
      using Finished_completion by (simp add: valid_def)
  qed
qed

lemma resting_running:
  assumes "resting s" and "cs_state s = Running"
  shows "cs_output s \<noteq> None" and "resting (s\<lparr>cs_state := Running\<rparr>)" and "resting (s\<lparr>cs_state := Failed\<rparr>)"
  using assms by (auto simp: resting_iff live_iff ended_def is_ready_def)

lemma on_wake_keeps:
  "valid (\<lambda>sw. resting (fst sw)) (on_wake_with_finish generation awake finish callback)
     (\<lambda>_ sw. resting (fst sw)) (\<lambda>_ sw. resting (fst sw))"
  unfolding on_wake_with_finish_def
  by (rule valid_pre, (rule wp wp_drain wp_after_claim wp_on_snd_yields claim_and_finish_yields total_intros)+)
    (auto simp: resting_running split: option.splits claim_completion.splits)

end
