(* ===== verification/Node_Session_Runs.thy ===== *)
theory Node_Session_Runs
  imports Node_Session_Ops
begin

text \<open>
  Sequences of commands and wakes on one session. Frame rules say how an operation relates the
  session before and after; the contracts of \<open>Op_Sequences\<close> carry the invariant, the end of a session
  and the retirement of transport generations to every sequence.
\<close>

section \<open>Frames\<close>

definition framed :: "(session \<Rightarrow> session \<Rightarrow> bool) \<Rightarrow> (session \<times> world, 'a, 'e) op \<Rightarrow> bool" where
  "framed R m \<longleftrightarrow> (\<forall>sw. R (fst sw) (fst (snd (m sw))))"

definition frame_order :: "(session \<Rightarrow> session \<Rightarrow> bool) \<Rightarrow> bool" where
  "frame_order R \<longleftrightarrow> reflp R \<and> transp R"

lemma frame_orderD: "frame_order R \<Longrightarrow> R s s" "frame_order R \<Longrightarrow> R a b \<Longrightarrow> R b c \<Longrightarrow> R a c"
  by (auto simp: frame_order_def reflp_def transp_def)

lemma framedD: "framed R m \<Longrightarrow> m sw = (r, sw') \<Longrightarrow> R (fst sw) (fst sw')"
  by (metis framed_def snd_conv)

lemma framedI: "(\<And>sw r sw'. m sw = (r, sw') \<Longrightarrow> R (fst sw) (fst sw')) \<Longrightarrow> framed R m"
  by (metis framed_def prod.collapse)

named_theorems frames \<open>operations that stay within a frame\<close>

lemma framed_olift [frames]: "frame_order R \<Longrightarrow> framed R (olift r)"
  by (simp add: framed_def frame_orderD)

lemma framed_obind [frames]:
  assumes R: "frame_order R" and m: "framed R m" and f: "\<And>x. framed R (f x)"
  shows "framed R (obind m f)"
proof (rule framedI)
  fix sw r sw'
  assume eq: "obind m f sw = (r, sw')"
  obtain q sw1 where q: "m sw = (q, sw1)"
    by (cases "m sw")
  show "R (fst sw) (fst sw')"
  proof (cases q)
    case (Ok x)
    then show ?thesis
      using eq q frame_orderD(2) [OF R framedD [OF m q] framedD [OF f]] by simp
  qed (use eq q framedD [OF m q] in simp_all)
qed

lemma framed_if [frames]: "framed R m \<Longrightarrow> framed R n \<Longrightarrow> framed R (if b then m else n)"
  by simp

lemma framed_case_option [frames]:
  "framed R m \<Longrightarrow> (\<And>x. framed R (f x)) \<Longrightarrow> framed R (case v of None \<Rightarrow> m | Some x \<Rightarrow> f x)"
  by (cases v) simp_all

lemma framed_case_prod [frames]: "(\<And>x y. framed R (f x y)) \<Longrightarrow> framed R (case v of (x, y) \<Rightarrow> f x y)"
  by (cases v) simp

lemma framed_gets [frames]: "frame_order R \<Longrightarrow> framed R (gets f)"
  by (simp add: framed_def gets_def frame_orderD)

lemma framed_modifys [frames]: "(\<And>s. R s (f s)) \<Longrightarrow> framed R (modifys f)"
  by (simp add: framed_def modifys_def)

lemma framed_on_snd [frames]: "frame_order R \<Longrightarrow> framed R (on_snd m)"
  by (auto simp: framed_def on_snd_def frame_orderD split: prod.splits)

lemma framed_oignore [frames]: "framed R m \<Longrightarrow> framed R (oignore m)"
  by (rule framedI) (auto simp: oignore_def split: prod.splits result.splits dest: framedD)

lemma framed_handlers [frames]:
  fixes c :: "(session \<times> world, unit, 'e) op" and m :: "(session \<times> world, 'a, 'e) op"
  assumes R: "frame_order R" and m: "framed R m" and c: "framed R c"
  shows "framed R (on_error m c)" and "framed R (on_failure m c)"
proof -
  have after: "framed R (othen c (olift r))" for r :: "('a, 'e) result"
    by (intro frames R c)
  note trans = frame_orderD(2) [OF R]
  show "framed R (on_error m c)"
    by (rule framedI) (auto simp: on_error_def simp del: obind_apply split: prod.splits result.splits
        dest!: framedD [OF m] framedD [OF after] intro: trans)
  show "framed R (on_failure m c)"
    by (rule framedI) (auto simp: on_failure_def simp del: obind_apply split: prod.splits result.splits
        dest!: framedD [OF m] framedD [OF after] intro: trans)
qed

lemma framed_valid:
  assumes "\<And>s. valid (\<lambda>sw. fst sw = s) m (\<lambda>_ sw. R s (fst sw)) (\<lambda>_ sw. R s (fst sw))"
  shows "framed R m"
proof (rule framedI)
  fix sw r sw'
  assume "m sw = (r, sw')"
  then show "R (fst sw) (fst sw')"
    using validD [OF assms, of sw "fst sw"] by (cases r) simp_all
qed

section \<open>Generations are never reused\<close>

definition newer :: "session \<Rightarrow> session \<Rightarrow> bool" where
  "newer s s' \<longleftrightarrow> cs_next_generation s \<le> cs_next_generation s' \<and>
     (\<forall>t. cs_transport s' = Some t \<longrightarrow> cs_transport s = Some t \<or> cs_next_generation s \<le> tg_id t)"

lemma newer_preorder [frames]: "frame_order newer"
  by (force simp: frame_order_def reflp_def transp_def newer_def)

lemma newer_same: "cs_next_generation s' = cs_next_generation s \<Longrightarrow> cs_transport s' = cs_transport s \<Longrightarrow> newer s s'"
  by (simp add: newer_def)

lemma transport_bind_id: "yields (transport_bind gid d r m) (\<lambda>t. tg_id t = gid)"
  by (auto simp: yields_def transport_bind_def obind_eq_Ok_iff)

lemma newer_stopped: "newer s (stopped s)"
  by (rule newer_same) simp_all

lemma newer_steps [frames]: "framed newer stop" "framed newer fail_session" "framed newer allocate_generation"
  "framed newer ensure_running" "framed newer (set_transport None)"
  by (rule framed_valid, rule valid_pre, rule wp, auto simp: newer_stopped, auto simp: newer_def)+

lemma newer_bind_transport [frames]: "framed newer bind_transport"
  unfolding bind_transport_def
  by (rule framed_valid, rule valid_pre,
      (rule wp wp_on_snd_yields transport_bind_id total_transport_bind ordered_total total_ordered_map)+)
    (auto split: option.splits result.splits simp: newer_def)

lemma newer_bind_output [frames]: "framed newer (output_candidate f b io)" "framed newer bind_output"
  unfolding bind_output_def output_candidate_def by (intro frames newer_same; simp)+

lemma newer_bind_peer [frames]: "framed newer (bind_peer node)"
  unfolding bind_peer_def by (intro frames newer_same) simp_all

lemma newer_bind_peers [frames]: "framed newer (bind_peers nodes b)"
  by (induction nodes arbitrary: b) (simp_all only: bind_peers.simps, (intro frames; simp)+)

lemma newer_memory [frames]: "framed newer retry_pending" "framed newer (remove_memory mkey)"
  unfolding retry_pending_def remove_memory_def by (intro frames newer_same; simp)+

lemma newer_disconnect [frames]: "framed newer disconnect"
  unfolding disconnect_def by (intro frames newer_same) simp_all

lemma newer_node_command [frames]: "framed newer (apply_node_command c)"
  unfolding apply_node_command_def
  by (cases c; simp only: node_command_state.case; intro frames newer_same; simp)

lemma newer_apply_command [frames]: "framed newer (apply_command c)"
  by (cases c; simp only: apply_command_def session_command.case apply_set_format_def apply_clear_format_def apply_use_buffers_def
      apply_clear_buffers_def apply_set_port_io_def apply_clear_port_io_def apply_set_peer_def Let_def apply_remove_peer_def
      apply_memory_available_def apply_remove_memory_def apply_set_active_def; (intro frames newer_same; simp)?)

lemma newer_apply_session [frames]: "framed newer (apply_session c)"
  unfolding apply_session_def refresh_state_def by (intro frames newer_same; simp)

lemma framed_drain [frames]:
  assumes R: "frame_order R" and k: "\<And>drained. framed R (k drained)"
  shows "framed R (\<lambda>sw. case on_snd (tg_drain t) sw of
       (Err (Signal_error e), sw') \<Rightarrow>
         if kind_would_block (w_libc (snd sw')) e then (Ok NoWake, sw') else (Err (Signal_error e), sw')
     | (Err e, sw') \<Rightarrow> (Err e, sw')
     | (Panic, sw') \<Rightarrow> (Panic, sw')
     | (Ok drained, sw') \<Rightarrow> k drained sw')"
  by (rule framedI) (auto split: prod.splits result.splits session_error.splits if_splits
      dest!: framedD [OF framed_on_snd [OF R]] framedD [OF k] intro: frame_orderD(2) [OF R])

lemma newer_after_claim [frames]: "framed newer (after_claim drained completion)"
  unfolding after_claim_def
  by (cases completion; simp only: claim_completion.case)
    (intro frames newer_same, simp_all split: result.split, auto intro!: frames newer_same)

lemma newer_on_wake [frames]: "framed newer (on_wake_with_finish g a f cb)"
  unfolding on_wake_with_finish_def by (intro frames newer_same; simp)

section \<open>Released memory\<close>

text \<open>Every mapping that a session holds, and whether any of them or of the leases is of a given key.\<close>

definition session_mappings :: "session \<Rightarrow> memory_mapping list" where
  "session_mappings s = (case cs_transport s of None \<Rightarrow> [] | Some t \<Rightarrow> [tg_activation t]) @
     (case cs_output s of None \<Rightarrow> [] | Some og \<Rightarrow> og_io og # concat (map (\<lambda>b. [bb_metadata b, bb_media b]) (og_buffers og))) @
     map (\<lambda>(_, p). pa_mapping p) (cs_peers s)"

definition free_of :: "memory_key \<Rightarrow> session \<Rightarrow> bool" where
  "free_of mkey s \<longleftrightarrow> mkey \<notin> mapping_key ` set (session_mappings s) \<and> mkey \<notin> (lease_key \<circ> snd) ` set (cs_available_memory s)"

definition stays_free :: "memory_key \<Rightarrow> session \<Rightarrow> session \<Rightarrow> bool" where
  "stays_free mkey s s' \<longleftrightarrow> (free_of mkey s \<longrightarrow> free_of mkey s')"

lemma stays_free_order [frames]: "frame_order (stays_free mkey)"
  by (auto simp: frame_order_def reflp_def transp_def stays_free_def)

lemma stays_free_same:
  assumes t: "cs_transport s' \<in> {cs_transport s, None}" and og: "cs_output s' \<in> {cs_output s, None}"
    and p: "set (cs_peers s') \<subseteq> set (cs_peers s)" and m: "set (cs_available_memory s') \<subseteq> set (cs_available_memory s)"
  shows "stays_free mkey s s'"
proof -
  have "set (map (\<lambda>(_, p). pa_mapping p) (cs_peers s')) \<subseteq> set (map (\<lambda>(_, p). pa_mapping p) (cs_peers s))"
    using p by auto
  then have "set (session_mappings s') \<subseteq> set (session_mappings s)"
    using t og by (auto simp only: session_mappings_def set_append option.case insert_iff empty_iff list.set)
  with m show ?thesis
    unfolding stays_free_def free_of_def by blast
qed

lemma ordered_map_key: "yields (ordered_map leases k a b c) (\<lambda>m. mapping_key m \<in> (lease_key \<circ> snd) ` set leases)"
proof -
  have key: "lease_map l a b c w = (Ok m, w') \<Longrightarrow> mapping_key m = lease_key l" for l w m w'
    by (auto simp: lease_map_def lease_key_def mapping_key_def dest: map_entry_Ok(1))
  have mem: "map_of leases i = Some l \<Longrightarrow> lease_key l \<in> (lease_key \<circ> snd) ` set leases" for i l
    by (auto dest!: map_of_SomeD intro!: image_eqI [where x = "(i, l)"])
  show ?thesis
    by (auto simp: yields_def ordered_map_def obind_eq_Ok_iff ok_or_eq_Ok_iff simp del: comp_apply split: if_splits dest!: key mem)
qed

lemma bind_mappings:
  assumes "\<And>k a b c. yields (mapr k a b c) P"
  shows "yields (transport_bind gid d resolve mapr) (\<lambda>t. tg_id t = gid \<and> P (tg_activation t))"
    and "yields (peer_bind gid pd resolve mapr) (\<lambda>p. P (pa_mapping p))"
  by (auto simp: yields_def transport_bind_def peer_bind_def resolve_region_def obind_eq_Ok_iff omap_err_eq_Ok_iff
      dest: yieldsD [OF assms])

lemma buffer_mappings:
  assumes "\<And>k a b c. yields (mapr k a b c) P"
  shows "yields (bind_buffers ds resolve mapr intervals) (list_all (\<lambda>b. P (bb_metadata b) \<and> P (bb_media b)))"
proof (induction ds arbitrary: intervals)
  case (Cons d ds)
  have "yields (bind_buffer d resolve mapr intervals) (\<lambda>(b, _). P (bb_metadata b) \<and> P (bb_media b))"
    by (auto simp: yields_def bind_buffer_def Let_def obind_eq_Ok_iff omap_err_eq_Ok_iff split: if_splits
        dest: yieldsD [OF assms])
  then show ?case
    unfolding bind_buffers.simps
    by (rule yields_obind) (auto intro!: yields_obind [OF Cons.IH] yields_olift)
qed (simp add: yields_def)

lemma output_mappings:
  assumes "\<And>k a b c. yields (mapr k a b c) P"
  shows "yields (output_bind gid f b io resolve mapr)
    (\<lambda>og. P (og_io og) \<and> list_all (\<lambda>b. P (bb_metadata b) \<and> P (bb_media b)) (og_buffers og))"
proof -
  have "yields (resolve_region resolve mapr r) (\<lambda>(_, m). P m)" for r
    by (auto simp: yields_def resolve_region_def obind_eq_Ok_iff omap_err_eq_Ok_iff dest: yieldsD [OF assms])
  then show ?thesis
    unfolding output_bind_def
    by (intro yields_if yields_ofail) (rule yields_obind, assumption, clarify, rule yields_obind [OF yields_True],
        intro yields_if yields_ofail, rule yields_obind [OF buffer_mappings [OF assms]], simp add: yields_def)
qed

abbreviation lease_keys :: "session \<Rightarrow> memory_key set" where
  "lease_keys s \<equiv> (lease_key \<circ> snd) ` set (cs_available_memory s)"

definition og_mappings :: "output_generation \<Rightarrow> memory_mapping list" where
  "og_mappings og = og_io og # concat (map (\<lambda>b. [bb_metadata b, bb_media b]) (og_buffers og))"

lemma output_bind_keys:
  "yields (output_bind gid f b io resolve (ordered_map leases)) (\<lambda>og. mapping_key ` set (og_mappings og) \<subseteq> (lease_key \<circ> snd) ` set leases)"
  using output_mappings [where mapr = "ordered_map leases", OF ordered_map_key, of gid f b io resolve]
  by (auto simp: yields_def og_mappings_def list_all_iff simp del: comp_apply)

lemmas transport_bind_keys = bind_mappings(1) [where mapr = "ordered_map leases" for leases, OF ordered_map_key]
lemmas peer_bind_keys = bind_mappings(2) [where mapr = "ordered_map leases" for leases, OF ordered_map_key]

lemma set_bt_insert: "set (bt_insert k v m) \<subseteq> insert (k, v) (set m)"
  by (induction k v m rule: bt_insert.induct) auto

lemma stays_free_stopped: "stays_free mkey s (stopped s)"
  by (rule stays_free_same) simp_all

lemma stays_free_transport:
  assumes "mapping_key (tg_activation t) \<in> lease_keys s"
    and "cs_output s' = cs_output s" "cs_peers s' = cs_peers s" "cs_available_memory s' = cs_available_memory s"
  shows "stays_free mkey s (s'\<lparr>cs_transport := Some t\<rparr>)"
  using assms by (auto simp: stays_free_def free_of_def session_mappings_def simp del: comp_apply split: option.splits)

lemma stays_free_output:
  assumes "mapping_key ` set (og_mappings og) \<subseteq> lease_keys s"
    and "cs_transport s' = cs_transport s" "cs_peers s' = cs_peers s" "cs_available_memory s' = cs_available_memory s"
  shows "stays_free mkey s (s'\<lparr>cs_output := Some og\<rparr>)"
  using assms by (auto simp: stays_free_def free_of_def session_mappings_def og_mappings_def simp del: comp_apply split: option.splits)

lemma stays_free_peer:
  assumes "mapping_key (pa_mapping p) \<in> lease_keys s"
    and "cs_transport s' = cs_transport s" "cs_output s' = cs_output s" "cs_available_memory s' = cs_available_memory s"
    and "cs_peers s = peers"
  shows "stays_free mkey s (s'\<lparr>cs_peers := bt_insert node p peers\<rparr>)"
proof -
  have "set (map (\<lambda>(_, p). pa_mapping p) (bt_insert node p peers)) \<subseteq> insert (pa_mapping p) (set (map (\<lambda>(_, p). pa_mapping p) peers))"
    using set_bt_insert [of node p peers] by auto
  moreover have "session_mappings (s'\<lparr>cs_peers := bt_insert node p peers\<rparr>) =
      session_mappings (s\<lparr>cs_peers := []\<rparr>) @ map (\<lambda>(_, p). pa_mapping p) (bt_insert node p peers)"
    "session_mappings s = session_mappings (s\<lparr>cs_peers := []\<rparr>) @ map (\<lambda>(_, p). pa_mapping p) peers"
    using assms by (simp_all add: session_mappings_def)
  ultimately have "set (session_mappings (s'\<lparr>cs_peers := bt_insert node p peers\<rparr>)) \<subseteq> insert (pa_mapping p) (set (session_mappings s))"
    by (simp only: set_append) blast
  with assms show ?thesis
    unfolding stays_free_def free_of_def by auto
qed

lemma stays_free_fields [simp]: "stays_free k s (s'\<lparr>cs_io_descriptor := i\<rparr>) = stays_free k s s'"
  by (simp add: stays_free_def free_of_def session_mappings_def)

lemma free_steps [frames]: "framed (stays_free k) stop" "framed (stays_free k) fail_session" "framed (stays_free k) allocate_generation"
  "framed (stays_free k) ensure_running" "framed (stays_free k) (set_transport None)"
  by (rule framed_valid, rule valid_pre, rule wp, auto simp: stays_free_stopped intro!: stays_free_same)+

lemma free_bind_transport [frames]: "framed (stays_free k) bind_transport"
  unfolding bind_transport_def
  by (rule framed_valid, rule valid_pre,
      (rule wp wp_on_snd_yields transport_bind_keys total_transport_bind ordered_total total_ordered_map)+)
    (auto split: option.splits result.splits simp: stays_free_same stays_free_transport simp del: comp_apply image_iff)

definition candidate_post :: "session \<Rightarrow> output_generation option \<Rightarrow> session \<times> world \<Rightarrow> bool" where
  "candidate_post s c sw \<longleftrightarrow> fst sw \<in> {s, s\<lparr>cs_next_generation := Suc (cs_next_generation s)\<rparr>} \<and>
     (\<forall>og. c = Some og \<longrightarrow> mapping_key ` set (og_mappings og) \<subseteq> lease_keys s)"

lemma candidate_mappings:
  "valid (\<lambda>sw. fst sw = s) (output_candidate f b io) (candidate_post s) (\<lambda>_. candidate_post s None)"
  unfolding output_candidate_def
  by (rule valid_pre, (rule wp wp_on_snd_yields output_bind_keys total_output_bind ordered_total total_ordered_map)+)
    (auto split: option.splits result.splits simp: candidate_post_def simp del: comp_apply image_iff)

lemma free_bind_output [frames]: "framed (stays_free k) bind_output"
proof (rule framed_valid)
  fix s
  show "valid (\<lambda>sw. fst sw = s) bind_output (\<lambda>_ sw. stays_free k s (fst sw)) (\<lambda>_ sw. stays_free k s (fst sw))"
    unfolding bind_output_def
    by (rule valid_pre, (rule wp wp_triple [OF candidate_mappings [of s]])+)
      (auto split: option.splits simp: candidate_post_def stays_free_same stays_free_output simp del: comp_apply)
qed

lemma free_set_port_io [frames]: "framed (stays_free k) (apply_set_port_io d)"
proof (rule framed_valid)
  fix s
  show "valid (\<lambda>sw. fst sw = s) (apply_set_port_io d) (\<lambda>_ sw. stays_free k s (fst sw)) (\<lambda>_ sw. stays_free k s (fst sw))"
    unfolding apply_set_port_io_def
    by (rule valid_pre, (rule wp wp_triple [OF candidate_mappings [of s]])+)
      (auto split: option.splits simp: candidate_post_def stays_free_same stays_free_output simp del: comp_apply)
qed

lemma free_candidate [frames]: "framed (stays_free k) (output_candidate f b io)"
  by (rule framed_valid, rule valid_conseq [OF candidate_mappings]) (auto simp: candidate_post_def stays_free_same)

lemma free_bind_peer [frames]: "framed (stays_free k) (bind_peer node)"
proof (rule framedI)
  fix sw r sw'
  assume eq: "bind_peer node sw = (r, sw')"
  show "stays_free k (fst sw) (fst sw')"
  proof (cases "map_of (cs_pending_peers (fst sw)) node")
    case None
    with eq show ?thesis
      by (auto simp: bind_peer_def gets_def stays_free_def)
  next
    case (Some d)
    have "valid (\<lambda>x. fst x = fst sw) (bind_peer node) (\<lambda>_ x. stays_free k (fst sw) (fst x)) (\<lambda>_ x. stays_free k (fst sw) (fst x))"
      unfolding bind_peer_def
      by (rule valid_pre, (rule wp wp_on_snd_yields peer_bind_keys total_peer_bind ordered_total total_ordered_map)+)
        (auto split: option.splits result.splits simp: Some stays_free_same stays_free_peer simp del: comp_apply image_iff)
    from validD [OF this, of sw] eq show ?thesis
      by (cases r) simp_all
  qed
qed

lemma free_bind_peers [frames]: "framed (stays_free k) (bind_peers nodes b)"
  by (induction nodes arbitrary: b) (simp_all only: bind_peers.simps, (intro frames; simp)+)

lemma free_memory [frames]: "framed (stays_free k) retry_pending" "framed (stays_free k) (remove_memory mkey)"
  unfolding retry_pending_def remove_memory_def peers_remove_memory_def by (intro frames stays_free_same; auto)+

lemma free_disconnect [frames]: "framed (stays_free k) disconnect"
  unfolding disconnect_def by (intro frames stays_free_same) simp_all

lemma free_node_command [frames]: "framed (stays_free k) (apply_node_command c)"
  unfolding apply_node_command_def
  by (cases c; simp only: node_command_state.case; intro frames stays_free_same; simp)

lemma hm_insert_subset: "set (hm_insert i v m) \<subseteq> insert (i, v) (set m)"
  unfolding hm_insert_def by (induction m) auto

lemma free_memory_available:
  "lease_key lease \<noteq> k \<Longrightarrow> framed (stays_free k) (apply_memory_available lease)"
  unfolding apply_memory_available_def
  by (intro frames) (auto simp: stays_free_def free_of_def session_mappings_def dest!: hm_insert_subset [THEN subsetD])

definition brings :: "memory_key \<Rightarrow> session_command \<Rightarrow> bool" where
  "brings k c \<longleftrightarrow> (case c of MemoryAvailable lease \<Rightarrow> lease_key lease = k | _ \<Rightarrow> False)"

lemma bt_remove_subset: "set (bt_remove n m) \<subseteq> set m" and hm_remove_subset: "set (hm_remove i l) \<subseteq> set l"
  by (auto simp: bt_remove_def hm_remove_filter)

lemma free_apply_command [frames]: "\<not> brings k c \<Longrightarrow> framed (stays_free k) (apply_command c)"
  by (cases c; simp only: apply_command_def session_command.case apply_set_format_def apply_clear_format_def apply_use_buffers_def
      apply_clear_buffers_def apply_clear_port_io_def apply_set_peer_def Let_def apply_remove_peer_def
      apply_remove_memory_def apply_set_active_def; (intro frames stays_free_same free_memory_available;
        simp add: brings_def bt_remove_subset hm_remove_subset)?)

lemma free_apply_session: "\<not> brings k c \<Longrightarrow> framed (stays_free k) (apply_session c)"
  unfolding apply_session_def refresh_state_def by (intro frames stays_free_same) simp_all

lemma free_after_claim [frames]: "framed (stays_free k) (after_claim drained completion)"
  unfolding after_claim_def
  by (cases completion; simp only: claim_completion.case)
    (intro frames stays_free_same, simp_all split: result.split, auto intro!: frames stays_free_same)

lemma free_on_wake: "framed (stays_free k) (on_wake_with_finish g a f cb)"
  unfolding on_wake_with_finish_def by (intro frames stays_free_same) simp_all

text \<open>Removing a key releases all of it.\<close>

lemma sound_resources: "sound s \<Longrightarrow> resources_ok s"
  by (simp add: sound_def)

definition unkeyed :: "memory_key \<Rightarrow> session \<Rightarrow> bool" where
  "unkeyed k s \<longleftrightarrow> (\<forall>t. cs_transport s = Some t \<longrightarrow> tg_activation_key t \<noteq> k) \<and>
    (\<forall>og. cs_output s = Some og \<longrightarrow> \<not> depends_on og k) \<and> list_all (\<lambda>(_, p). pa_key p \<noteq> k) (cs_peers s) \<and>
    list_all (\<lambda>(_, l). lease_key l \<noteq> k) (cs_available_memory s)"

lemma free_of_iff:
  assumes "resources_ok s"
  shows "free_of k s \<longleftrightarrow> unkeyed k s"
proof -
  have "k \<notin> mapping_key ` set (session_mappings s) \<longleftrightarrow> (\<forall>t. cs_transport s = Some t \<longrightarrow> tg_activation_key t \<noteq> k) \<and>
    (\<forall>og. cs_output s = Some og \<longrightarrow> \<not> depends_on og k) \<and> list_all (\<lambda>(_, p). pa_key p \<noteq> k) (cs_peers s)"
    using assms
    by (cases "cs_transport s"; cases "cs_output s")
      (auto simp: session_mappings_def resources_ok_def transport_ok_def output_ok_def bound_ok_def peer_ok_def depends_on_def
        list_all_iff list_ex_iff)
  moreover have "k \<notin> lease_keys s \<longleftrightarrow> list_all (\<lambda>(_, l). lease_key l \<noteq> k) (cs_available_memory s)"
    by (force simp: list_all_iff)
  ultimately show ?thesis
    by (simp add: free_of_def unkeyed_def)
qed

lemma leases_without:
  assumes "leases_ok m"
  shows "map_option lease_key (map_of m (mk_id k)) = Some k \<Longrightarrow> list_all (\<lambda>(_, l). lease_key l \<noteq> k) (hm_remove (mk_id k) m)"
    and "map_option lease_key (map_of m (mk_id k)) \<noteq> Some k \<Longrightarrow> list_all (\<lambda>(_, l). lease_key l \<noteq> k) m"
proof -
  have wf: "hm_wf m" and ids: "\<And>i l. (i, l) \<in> set m \<Longrightarrow> mk_id (lease_key l) = i"
    using assms by (auto simp: leases_ok_def list_all_iff)
  show "list_all (\<lambda>(_, l). lease_key l \<noteq> k) (hm_remove (mk_id k) m)"
    using ids by (auto simp: list_all_iff hm.set_del [OF wf])
  show "list_all (\<lambda>(_, l). lease_key l \<noteq> k) m" if "map_option lease_key (map_of m (mk_id k)) \<noteq> Some k"
    using that ids hm.mem_iff [OF wf] by (fastforce simp: list_all_iff)
qed

lemma remove_memory_unkeyed: "valid alive (apply_remove_memory k) (\<lambda>_ sw. unkeyed k (fst sw)) (\<lambda>_ _. True)"
  unfolding apply_remove_memory_def remove_memory_def peers_remove_memory_def
  by (rule valid_pre, (rule wp)+)
    (auto simp: unkeyed_def leases_without sound_leases live_sound list_all_iff [of _ "filter _ _"] split: option.splits)

lemma remove_memory_releases: "valid alive (apply_remove_memory k) (\<lambda>_ sw. free_of k (fst sw)) (\<lambda>_. alive)"
  by (rule valid_conseq [OF valid_conj [OF remove_memory_unkeyed apply_remove_memory_keeps]])
    (auto simp: free_of_iff live_sound [THEN sound_resources])

section \<open>Sequences\<close>

text \<open>
  What a client does: commands and wakes, in any order, each in its own state of the world. The
  other processes and the kernel may have changed that state in any way in between.
\<close>

datatype (plugins only: code size) session_op =
    Apply session_command world
  | Wake nat u64 "u64 option" callback world

definition session_step :: "session \<Rightarrow> session_op \<Rightarrow> session" where
  "session_step s x = (case x of
       Apply c w \<Rightarrow> fst (snd (apply_session c (s, w)))
     | Wake generation awake finish callback w \<Rightarrow> fst (snd (on_wake_with_finish generation awake finish callback (s, w))))"

definition session_panics :: "session \<Rightarrow> session_op \<Rightarrow> bool" where
  "session_panics s x = (case x of
       Apply c w \<Rightarrow> fst (apply_session c (s, w)) = Panic
     | Wake generation awake finish callback w \<Rightarrow> fst (on_wake_with_finish generation awake finish callback (s, w)) = Panic)"

definition op_brings :: "memory_key \<Rightarrow> session_op \<Rightarrow> bool" where
  "op_brings k x = (case x of Apply c _ \<Rightarrow> brings k c | _ \<Rightarrow> False)"

definition superseded :: "nat \<Rightarrow> session \<Rightarrow> bool" where
  "superseded g s \<longleftrightarrow> g < cs_next_generation s \<and> (\<forall>t. cs_transport s = Some t \<longrightarrow> tg_id t \<noteq> g)"

lemma session_step_resting: "resting s \<Longrightarrow> resting (session_step s x)" "resting s \<Longrightarrow> \<not> session_panics s x"
  using valid_snd [OF apply_session_keeps, of "(s, w)" for w] valid_snd [OF on_wake_keeps, of "(s, w)" for w]
    valid_no_panic [OF apply_session_keeps, of "(s, w)" for w] valid_no_panic [OF on_wake_keeps, of "(s, w)" for w]
  by (cases x; simp add: session_step_def session_panics_def)+

lemma session_step_ended: "ended s \<Longrightarrow> session_step s x = s"
  by (cases x) (auto simp: session_step_def ended_def empty_session_def apply_session_def on_wake_with_finish_def gets_def)

lemma session_step_newer: "newer s (session_step s x)"
  using newer_apply_session newer_on_wake by (cases x) (auto simp: session_step_def framed_def)

lemma session_step_superseded: "superseded g s \<Longrightarrow> superseded g (session_step s x)"
  using session_step_newer [of s x] by (fastforce simp: superseded_def newer_def)

lemma session_step_free: "free_of k s \<Longrightarrow> \<not> op_brings k x \<Longrightarrow> free_of k (session_step s x)"
  using free_apply_session [of k] free_on_wake [of k]
  by (cases x) (auto simp: session_step_def op_brings_def framed_def stays_free_def)

interpretation lifetime: op_terminal session_step "\<lambda>_. True" resting ended
  by unfold_locales (simp_all add: session_step_resting session_step_ended)

interpretation generation: op_terminal session_step "\<lambda>_. True" resting "superseded g" for g
  by unfold_locales (simp_all add: session_step_superseded)

interpretation release: op_terminal session_step "\<lambda>x. \<not> op_brings k x" resting "free_of k" for k
  by unfold_locales (simp_all add: session_step_resting session_step_free)

lemma session_new_resting: "resting session_new"
  using session_new_inv by (simp add: resting_def session_new_def)

lemma run_resting: "resting (foldl session_step session_new xs)"
  by (rule lifetime.inv_run [OF session_new_resting]) (simp add: list_all_iff)

end
