(* ===== verification/Node_Cycle.thy ===== *)
theory Node_Cycle
  imports Node_Session_Runs
begin

text \<open>
  One undisturbed cycle: no other process acts between the wake and its end. The callback's bytes
  end up in the media plane, then the chunk, the port IO area and the activation record are
  published, in that order, each in its own region.
\<close>

section \<open>Regions that do not meet\<close>

definition placed :: "memory_mapping \<Rightarrow> bool" where
  "placed m \<longleftrightarrow> mp_backing (mapping_ptr m) = me_backing (mm_entry m) \<and> mp_offset (mapping_ptr m) = mm_offset m"

lemma disjoint_apart:
  assumes "placed x" and "placed y" and "\<not> overlaps (mapping_interval x) (mapping_interval y)"
    and "0 < n" "0 < n'" and "off + n \<le> mapping_len x" and "off' + n' \<le> mapping_len y"
  shows "apart (mapping_ptr x) off n (mapping_ptr y) off' n'"
  using assms by (auto simp: placed_def overlaps_def mapping_interval_def apart_def)

lemma apart_sym: "apart p a n q b k \<longleftrightarrow> apart q b k p a n"
  by (auto simp: apart_def)

lemma apart_ptr_add [simp]:
  "apart (ptr_add p i) a n q b k \<longleftrightarrow> apart p (i + a) n q b k"
  "apart p a n (ptr_add q i) b k \<longleftrightarrow> apart p a n q (i + b) k"
  by (auto simp: apart_def ptr_add_def add.assoc)

lemma field_apart:
  "apart p off 4 q off' 4 \<Longrightarrow> field32 (put32 p off v m) q off' = field32 m q off'"
  "apart p off 8 q off' 4 \<Longrightarrow> field32 (put64 p off x m) q off' = field32 m q off'"
  "apart p off (length bs) q off' 4 \<Longrightarrow> field32 (write_mem m p off bs) q off' = field32 m q off'"
  "apart p off 4 q off' 8 \<Longrightarrow> field64 (put32 p off v m) q off' = field64 m q off'"
  "apart p off (length bs) q off' 8 \<Longrightarrow> field64 (write_mem m p off bs) q off' = field64 m q off'"
  "apart p off 4 q off' k \<Longrightarrow> read_mem (put32 p off v m) q off' k = read_mem m q off' k"
  "apart p off 8 q off' k \<Longrightarrow> read_mem (put64 p off x m) q off' k = read_mem m q off' k"
  by (simp_all add: field32_def field64_def put32_def put64_def read_write_apart)

section \<open>Buffers\<close>

text \<open>The buffer that a descriptor and the chunk in memory describe, and when there is one.\<close>

definition bb_chunk :: "bound_buffer \<Rightarrow> mptr" where
  "bb_chunk b = ptr_add (mapping_ptr (bb_metadata b)) (bb_chunk_offset b)"

definition ob_of :: "shared_memory \<Rightarrow> bound_buffer \<Rightarrow> output_buffer" where
  "ob_of m b = \<lparr>ob_chunk = bb_chunk b, ob_media = ptr_add (mapping_ptr (bb_media b)) 0, ob_max_size = mapping_len (bb_media b),
     ob_data_offset = unat (field32 m (bb_chunk b) CHUNK_OFFSET) mod mapping_len (bb_media b)\<rparr>"

definition chunk_valid :: "shared_memory \<Rightarrow> bound_buffer \<Rightarrow> bool" where
  "chunk_valid m b \<longleftrightarrow>
     (let c = bb_chunk b; size_max = mapping_len (bb_media b); stride = field32 m c CHUNK_STRIDE in
      mp_addr c \<noteq> 0 \<and> mp_addr c mod CHUNK_ALIGN = 0 \<and> mp_addr (mapping_ptr (bb_media b)) \<noteq> 0 \<and>
      0 < size_max \<and> size_max \<le> 0xFFFFFFFF \<and>
      unat (field32 m c CHUNK_DATA_SIZE) \<le> size_max - unat (field32 m c CHUNK_OFFSET) mod size_max \<and>
      0 \<le> sint stride \<and> nat (sint stride) \<le> size_max)"

lemma bound_output_buffer_quiet:
  assumes "w_script w = []" and "chunk_valid (mem w) b"
  shows "bound_output_buffer b w = (Ok (ob_of (mem w) b), w)"
  using assms
  by (auto simp: bound_output_buffer_def output_buffer_from_raw_parts_def chunk_from_raw_parts_def checked_record_def
      chunk_valid_def ob_of_def bb_chunk_def [symmetric] chunk_view_state_def omap_err_def access_simps Let_def
      checked_add_usize_def usize_limit_def isize_max_def)

lemma oeach_quiet:
  assumes "w_script w = []" and "list_all (chunk_valid (mem w)) bs"
  shows "oeach bound_output_buffer bs w = (Ok (map (ob_of (mem w)) bs), w)"
  using assms by (induction bs) (simp_all add: bound_output_buffer_quiet)

section \<open>Publication\<close>

definition publish_mem :: "mptr \<Rightarrow> output_buffer \<Rightarrow> committed_output \<Rightarrow> byte list \<Rightarrow> shared_memory \<Rightarrow> shared_memory" where
  "publish_mem io b co media m =
     put32 io IO_STATUS (buffer_status_i32 HaveData)
    (put32 io IO_BUFFER_ID (co_buffer_id co)
    (put32 (ob_chunk b) CHUNK_FLAGS (co_flags co)
    (put32 (ob_chunk b) CHUNK_STRIDE (of_nat (co_stride co))
    (put32 (ob_chunk b) CHUNK_DATA_SIZE (of_nat (co_bytes_used co))
    (put32 (ob_chunk b) CHUNK_OFFSET (of_nat (ob_data_offset b))
    (write_mem m (media_ptr b) 0 (take (ob_capacity b) media)))))))"

definition selected :: "shared_memory \<Rightarrow> output_generation \<Rightarrow> output_cycle \<Rightarrow> bool" where
  "selected m og c \<longleftrightarrow>
     (let io = mapping_ptr (og_io og); i = field32 m io IO_BUFFER_ID in
      mp_addr io \<noteq> 0 \<and> mapping_len (og_io og) = IO_BUFFERS_SIZE \<and> mp_addr io mod IO_BUFFERS_ALIGN = 0 \<and>
      field32 m io IO_STATUS = buffer_status_i32 NeedData \<and> unat i < length (og_buffers og) \<and>
      c = \<lparr>oc_buffer = ob_of m (og_buffers og ! unat i), oc_buffer_id = i, oc_format = og_format og\<rparr>)"

definition commits :: "callback \<Rightarrow> shared_memory \<Rightarrow> output_cycle \<Rightarrow> byte list \<Rightarrow> committed_output \<Rightarrow> bool" where
  "commits cb m c media co \<longleftrightarrow>
     cb c (read_mem m (media_ptr (oc_buffer c)) 0 (cycle_capacity c)) = (media, Committed co) \<and>
     co_buffer_id co = oc_buffer_id c \<and> co_stride co \<le> ob_max_size (oc_buffer c) \<and> co_stride co \<le> 0x7FFFFFFF"

lemma output_process_quiet:
  assumes "w_script w = []" and "list_all (chunk_valid (mem w)) (og_buffers og)"
    and "selected (mem w) og c" and "commits cb (mem w) c media co"
  shows "output_process og cb w =
    (Ok (Some \<lparr>po_buffer_id = co_buffer_id co, po_bytes_used = co_bytes_used co\<rparr>, buffer_status_i32 HaveData),
     set_mem (publish_mem (mapping_ptr (og_io og)) (oc_buffer c) co media (mem w)) w)"
proof -
  have access: "access f x = (case f (mem x) of (y, m) \<Rightarrow> (Ok y, set_mem m x))" if "w_script x = []" for f x
    using that by (simp add: access_def set_mem_def)
  show ?thesis
    using assms unfolding output_process_def run_cycle_def select_buffer_def publish_committed_def publisher_drop_def
      selected_def commits_def
    by (simp add: oeach_quiet io_from_raw_parts_def checked_record_def io_state_def access_simps on_snd_def oget_def
        ofinally_def omap_err_def publisher_new_def run_callback_def access index_at_def ob_publish_def chunk_publish_def
        publish_have_data_def publish_mem_def cycle_capacity_def omodify_def Let_def)
qed

section \<open>Claim and finish\<close>

definition claim_mem :: "mptr \<Rightarrow> u64 \<Rightarrow> shared_memory \<Rightarrow> shared_memory" where
  "claim_mem view awake m = put64 view AWAKE_TIME awake (put32 view STATUS (status_u32 Awake) m)"

definition finish_mem :: "mptr \<Rightarrow> i32 \<Rightarrow> u64 \<Rightarrow> shared_memory \<Rightarrow> shared_memory" where
  "finish_mem view status now m =
     put32 view STATUS (status_u32 Finished) (put64 view FINISH_TIME now (put32 view STATE0_STATUS status m))"

lemmas act_layout = ACT_SIZE_def STATUS_def STATE0_STATUS_def STATE0_PENDING_def SIGNAL_TIME_def AWAKE_TIME_def FINISH_TIME_def
  SERVER_VERSION_def

lemma mapping_view_quiet:
  assumes "w_script w = []" and "view_ok (mem w) (mapping_ptr m) (mapping_len m)"
  shows "mapping_view m w = (Ok (mapping_ptr m), w)"
  using assms from_raw_parts_quiet [of w "mapping_ptr m" "mapping_len m" "mapping_ptr m" w]
  by (simp add: mapping_view_def omap_err_def)

lemma claim_and_finish_quiet:
  fixes t
  defines "view \<equiv> mapping_ptr (tg_activation t)"
  assumes q: "w_script w = []" and v: "view_ok (mem w) view (mapping_len (tg_activation t))"
    and st: "act_status (mem w) view = status_u32 Triggered"
    and p: "process (set_mem (claim_mem view awake (mem w)) w) = (Ok (x, status), set_mem m w)"
    and aw: "act_status m view = status_u32 Awake"
  shows "claim_and_finish t awake (Some fin) process w =
    (Ok (Finished_completion (Ok x) fin), set_mem (finish_mem view status fin m) w)"
proof -
  have claim: "claim_cycle view awake w = (Ok view, set_mem (claim_mem view awake (mem w)) w)"
    using q st by (simp add: claim_cycle_def transition_quiet access_simps claim_mem_def)
  have "act_status (put64 view FINISH_TIME fin (put32 view STATE0_STATUS status m)) view = status_u32 Awake"
    using aw by (simp add: act_status_def act_layout)
  then have "publish_result_and_finish view status fin (set_mem m w) = (Ok (), set_mem (finish_mem view status fin m) w)"
    using q by (simp add: publish_result_and_finish_def access_simps transition_quiet finish_mem_def)
  with claim q v show ?thesis
    using mapping_view_quiet [of w "tg_activation t"]
    by (simp add: claim_and_finish_def view_def [symmetric] p completion_result_def omap_err_def Let_def)
qed

section \<open>Memory seen through a mapping\<close>

definition same_in :: "memory_mapping \<Rightarrow> shared_memory \<Rightarrow> shared_memory \<Rightarrow> bool" where
  "same_in y m m' \<longleftrightarrow> (\<forall>off k. off + k \<le> mapping_len y \<longrightarrow> read_mem m (mapping_ptr y) off k = read_mem m' (mapping_ptr y) off k)"

lemma same_in_fields:
  assumes "same_in y m m'"
  shows "off + 4 \<le> mapping_len y \<Longrightarrow> field32 m (mapping_ptr y) off = field32 m' (mapping_ptr y) off"
    and "off + 8 \<le> mapping_len y \<Longrightarrow> field64 m (mapping_ptr y) off = field64 m' (mapping_ptr y) off"
  using assms by (simp_all add: same_in_def field32_def field64_def)

lemma same_in_trans: "same_in y m m' \<Longrightarrow> same_in y m' m'' \<Longrightarrow> same_in y m m''"
  by (simp add: same_in_def)

lemma read_mem_0 [simp]: "read_mem m p off 0 = []"
  by (simp add: read_mem_def)

lemma same_in_write:
  assumes "placed x" and "placed y" and "\<not> overlaps (mapping_interval x) (mapping_interval y)"
    and "off + length bs \<le> mapping_len x"
  shows "same_in y (write_mem m (mapping_ptr x) off bs) m"
proof (cases "bs = []")
  case True
  have "write_mem m (mapping_ptr x) off [] = m"
    by (auto simp: write_mem_def fun_eq_iff)
  then show ?thesis
    by (simp add: True same_in_def)
next
  case False
  have "read_mem (write_mem m (mapping_ptr x) off bs) (mapping_ptr y) off' k = read_mem m (mapping_ptr y) off' k"
    if "off' + k \<le> mapping_len y" for off' k
    using disjoint_apart [OF assms(1-3), of "length bs" k off off'] assms(4) that False
    by (cases "k = 0") (simp_all add: read_write_apart)
  then show ?thesis
    by (simp add: same_in_def)
qed

lemma read_mem_add: "read_mem m (ptr_add p i) off k = read_mem m p (i + off) k"
  "write_mem m (ptr_add p i) off bs = write_mem m p (i + off) bs"
  by (simp_all add: read_mem_def write_mem_def ptr_add_def add.assoc cong: if_cong)

lemma field_add: "field32 m (ptr_add p i) off = field32 m p (i + off)" "put32 (ptr_add p i) off v m = put32 p (i + off) v m"
  by (simp_all add: field32_def put32_def read_mem_add)

lemma same_in_put:
  assumes "placed x" and "placed y" and "\<not> overlaps (mapping_interval x) (mapping_interval y)"
  shows "off + 4 \<le> mapping_len x \<Longrightarrow> same_in y (put32 (mapping_ptr x) off v m) m"
    and "off + 8 \<le> mapping_len x \<Longrightarrow> same_in y (put64 (mapping_ptr x) off u m) m"
  using same_in_write [OF assms] by (simp_all add: put32_def put64_def)

lemma same_in_claim:
  assumes "placed x" and "placed y" and "\<not> overlaps (mapping_interval x) (mapping_interval y)" and "ACT_SIZE \<le> mapping_len x"
  shows "same_in y (claim_mem (mapping_ptr x) awake m) m" and "same_in y (finish_mem (mapping_ptr x) status now m) m"
  unfolding claim_mem_def finish_mem_def using assms(4)
  by (auto intro!: same_in_trans [OF same_in_put(1) [OF assms(1-3)]] same_in_trans [OF same_in_put(2) [OF assms(1-3)]]
      same_in_put [OF assms(1-3)] simp: act_layout)

text \<open>What the callback is offered depends on the output regions only.\<close>

lemma ob_of_cong:
  assumes "bound_ok b" and "same_in (bb_metadata b) m m'"
  shows "ob_of m b = ob_of m' b" and "chunk_valid m b = chunk_valid m' b"
proof -
  have "field32 m (bb_chunk b) off = field32 m' (bb_chunk b) off" if "off + 4 \<le> CHUNK_SIZE" for off
    using same_in_fields(1) [OF assms(2), of "bb_chunk_offset b + off"] assms(1) that
    by (simp add: bb_chunk_def field_add bound_ok_def)
  then show "ob_of m b = ob_of m' b" "chunk_valid m b = chunk_valid m' b"
    by (simp_all add: ob_of_def chunk_valid_def Let_def CHUNK_SIZE_def CHUNK_OFFSET_def CHUNK_STRIDE_def CHUNK_DATA_SIZE_def)
qed

lemma selected_cong:
  assumes "list_all bound_ok (og_buffers og)" and "list_all (\<lambda>y. same_in y m m') (og_mappings og)"
    and sel: "selected m og c"
  shows "selected m' og c"
proof -
  have "mapping_len (og_io og) = IO_BUFFERS_SIZE"
    using sel by (simp add: selected_def Let_def)
  then have io: "field32 m (mapping_ptr (og_io og)) off = field32 m' (mapping_ptr (og_io og)) off" if "off + 4 \<le> 8" for off
    using same_in_fields(1) [of "og_io og" m m' off] assms(2) that by (simp add: og_mappings_def IO_BUFFERS_SIZE_def)
  have "ob_of m b = ob_of m' b" if "b \<in> set (og_buffers og)" for b
    using ob_of_cong(1) [of b m m'] assms(1,2) that by (simp add: list_all_iff og_mappings_def)
  with sel show ?thesis
    by (simp add: selected_def Let_def io IO_STATUS_def IO_BUFFER_ID_def)
qed

section \<open>Publication and disjoint regions\<close>

lemma buffer_regions_apart:
  assumes "output_ok og" and "b \<in> set (og_buffers og)"
  shows "\<not> overlaps (mapping_interval (og_io og)) (mapping_interval (bb_metadata b))"
    and "\<not> overlaps (mapping_interval (og_io og)) (mapping_interval (bb_media b))"
    and "\<not> overlaps (mapping_interval (bb_metadata b)) (mapping_interval (bb_media b))"
proof -
  have own: "no_overlaps (buffer_intervals bs) \<Longrightarrow> b \<in> set bs \<Longrightarrow> \<not> overlaps (mapping_interval (bb_metadata b)) (mapping_interval (bb_media b))" for bs
    by (induction bs) (auto simp: buffer_intervals_def list_all_iff no_overlaps_append)
  show "\<not> overlaps (mapping_interval (og_io og)) (mapping_interval (bb_metadata b))"
    "\<not> overlaps (mapping_interval (og_io og)) (mapping_interval (bb_media b))"
    "\<not> overlaps (mapping_interval (bb_metadata b)) (mapping_interval (bb_media b))"
    using assms own [of "og_buffers og"] by (auto simp: output_ok_def og_intervals_eq buffer_intervals_def list_all_iff)
qed

definition chunk_mem :: "output_buffer \<Rightarrow> committed_output \<Rightarrow> shared_memory \<Rightarrow> shared_memory" where
  "chunk_mem b co m = put32 (ob_chunk b) CHUNK_FLAGS (co_flags co) (put32 (ob_chunk b) CHUNK_STRIDE (of_nat (co_stride co))
    (put32 (ob_chunk b) CHUNK_DATA_SIZE (of_nat (co_bytes_used co)) (put32 (ob_chunk b) CHUNK_OFFSET (of_nat (ob_data_offset b)) m)))"

definition io_mem :: "mptr \<Rightarrow> u32 \<Rightarrow> shared_memory \<Rightarrow> shared_memory" where
  "io_mem io i m = put32 io IO_STATUS (buffer_status_i32 HaveData) (put32 io IO_BUFFER_ID i m)"

lemma publish_mem_eq: "publish_mem io b co media m =
    io_mem io (co_buffer_id co) (chunk_mem b co (write_mem m (media_ptr b) 0 (take (ob_capacity b) media)))"
  by (simp add: publish_mem_def io_mem_def chunk_mem_def)

lemma same_in_io:
  assumes "placed x" and "placed y" and "\<not> overlaps (mapping_interval x) (mapping_interval y)" and "mapping_len x = IO_BUFFERS_SIZE"
  shows "same_in y (io_mem (mapping_ptr x) i m) m"
  unfolding io_mem_def using assms(4)
  by (intro same_in_trans [OF same_in_put(1) [OF assms(1-3)]] same_in_put [OF assms(1-3)])
    (simp_all add: IO_BUFFERS_SIZE_def IO_STATUS_def IO_BUFFER_ID_def)

lemma same_in_chunk:
  assumes "placed (bb_metadata b)" and "placed y" and "\<not> overlaps (mapping_interval (bb_metadata b)) (mapping_interval y)"
    and "bound_ok b"
  shows "same_in y (chunk_mem (ob_of m0 b) co m) m"
  unfolding chunk_mem_def ob_of_def bb_chunk_def output_buffer.simps field_add using assms(4)
  by (intro same_in_trans [OF same_in_put(1) [OF assms(1-3)]] same_in_put [OF assms(1-3)])
    (simp_all add: bound_ok_def CHUNK_SIZE_def CHUNK_FLAGS_def CHUNK_STRIDE_def CHUNK_DATA_SIZE_def CHUNK_OFFSET_def)

lemma media_write_eq:
  "write_mem m (media_ptr (ob_of m0 b)) 0 bs =
    write_mem m (mapping_ptr (bb_media b)) (ob_data_offset (ob_of m0 b)) bs"
  by (simp add: media_ptr_def ob_of_def read_mem_add)

lemma media_fits:
  "chunk_valid m0 b \<Longrightarrow> ob_data_offset (ob_of m0 b) + ob_capacity (ob_of m0 b) \<le> mapping_len (bb_media b)"
  by (simp add: chunk_valid_def Let_def ob_capacity_def ob_of_def)

lemma same_in_media:
  assumes "placed (bb_media b)" and "placed y" and "\<not> overlaps (mapping_interval (bb_media b)) (mapping_interval y)"
    and "chunk_valid m0 b" and "length bs \<le> ob_capacity (ob_of m0 b)"
  shows "same_in y (write_mem m (media_ptr (ob_of m0 b)) 0 bs) m"
  unfolding media_write_eq using media_fits [OF assms(4)] assms(5)
  by (intro same_in_write [OF assms(1-3)]) simp

section \<open>The memory after a cycle\<close>

definition cycle_mem ::
    "transport_generation \<Rightarrow> output_generation \<Rightarrow> output_cycle \<Rightarrow> committed_output \<Rightarrow> byte list \<Rightarrow> u64 \<Rightarrow> u64 \<Rightarrow>
      shared_memory \<Rightarrow> shared_memory" where
  "cycle_mem t og c co media awake fin m =
     (let view = mapping_ptr (tg_activation t) in
      finish_mem view (buffer_status_i32 HaveData) fin
        (publish_mem (mapping_ptr (og_io og)) (oc_buffer c) co media (claim_mem view awake m)))"

definition regions_ok :: "transport_generation \<Rightarrow> output_generation \<Rightarrow> bool" where
  "regions_ok t og \<longleftrightarrow> placed (tg_activation t) \<and> list_all placed (og_mappings og) \<and> output_ok og \<and>
     list_all (\<lambda>y. \<not> overlaps (tg_interval t) (mapping_interval y)) (og_mappings og)"

lemma regions_buffer:
  assumes "regions_ok t og" and "b \<in> set (og_buffers og)"
  shows "placed (bb_metadata b)" "placed (bb_media b)" "placed (og_io og)" "placed (tg_activation t)" "bound_ok b"
    "\<not> overlaps (mapping_interval (tg_activation t)) (mapping_interval (bb_metadata b))"
    "\<not> overlaps (mapping_interval (tg_activation t)) (mapping_interval (bb_media b))"
    "\<not> overlaps (mapping_interval (tg_activation t)) (mapping_interval (og_io og))"
  using assms by (auto simp: regions_ok_def og_mappings_def output_ok_def list_all_iff tg_interval_def)

lemma selectedE:
  assumes "selected m og c"
  obtains b where "b \<in> set (og_buffers og)" and "oc_buffer c = ob_of m b" and "mapping_len (og_io og) = IO_BUFFERS_SIZE"
  using assms by (auto simp: selected_def Let_def intro: that [OF nth_mem])

lemma publish_keeps_view:
  assumes r: "regions_ok t og" and sel: "selected m og c" and ok: "list_all (chunk_valid m) (og_buffers og)"
  shows "same_in (tg_activation t) (publish_mem (mapping_ptr (og_io og)) (oc_buffer c) co media m') m'"
proof -
  obtain b where b: "b \<in> set (og_buffers og)" "oc_buffer c = ob_of m b" "mapping_len (og_io og) = IO_BUFFERS_SIZE"
    using sel by (rule selectedE)
  note rb = regions_buffer [OF r b(1)]
  have "chunk_valid m b"
    using ok b(1) by (simp add: list_all_iff)
  then show ?thesis
    unfolding publish_mem_eq b(2)
    using rb overlaps_sym b(3)
    by (intro same_in_trans [OF same_in_io] same_in_trans [OF same_in_chunk] same_in_media) auto
qed

definition cycle_published :: "transport_generation \<Rightarrow> output_generation \<Rightarrow> output_cycle \<Rightarrow> committed_output \<Rightarrow> byte list \<Rightarrow>
    u64 \<Rightarrow> u64 \<Rightarrow> shared_memory \<Rightarrow> bool" where
  "cycle_published t og c co media awake fin m \<longleftrightarrow>
     (let view = mapping_ptr (tg_activation t); io = mapping_ptr (og_io og); b = oc_buffer c in
      act_status m view = status_u32 Finished \<and> field32 m view STATE0_STATUS = buffer_status_i32 HaveData \<and>
      field64 m view AWAKE_TIME = awake \<and> field64 m view FINISH_TIME = fin \<and>
      field32 m io IO_STATUS = buffer_status_i32 HaveData \<and> field32 m io IO_BUFFER_ID = oc_buffer_id c \<and>
      field32 m (ob_chunk b) CHUNK_OFFSET = of_nat (ob_data_offset b) \<and>
      field32 m (ob_chunk b) CHUNK_DATA_SIZE = of_nat (co_bytes_used co) \<and>
      field32 m (ob_chunk b) CHUNK_STRIDE = of_nat (co_stride co) \<and> field32 m (ob_chunk b) CHUNK_FLAGS = co_flags co \<and>
      read_mem m (media_ptr b) 0 (cycle_capacity c) = media)"

lemma chunk_mem_fields:
  "field32 (chunk_mem b co m) (ob_chunk b) CHUNK_OFFSET = of_nat (ob_data_offset b)"
  "field32 (chunk_mem b co m) (ob_chunk b) CHUNK_DATA_SIZE = of_nat (co_bytes_used co)"
  "field32 (chunk_mem b co m) (ob_chunk b) CHUNK_STRIDE = of_nat (co_stride co)"
  "field32 (chunk_mem b co m) (ob_chunk b) CHUNK_FLAGS = co_flags co"
  by (simp_all add: chunk_mem_def CHUNK_FLAGS_def CHUNK_STRIDE_def CHUNK_DATA_SIZE_def CHUNK_OFFSET_def)

lemma io_mem_fields:
  "field32 (io_mem io i m) io IO_STATUS = buffer_status_i32 HaveData" "field32 (io_mem io i m) io IO_BUFFER_ID = i"
  by (simp_all add: io_mem_def IO_STATUS_def IO_BUFFER_ID_def)

lemma chunk_fields_fit:
  "CHUNK_OFFSET + 4 \<le> CHUNK_SIZE" "CHUNK_DATA_SIZE + 4 \<le> CHUNK_SIZE" "CHUNK_STRIDE + 4 \<le> CHUNK_SIZE" "CHUNK_FLAGS + 4 \<le> CHUNK_SIZE"
  by (simp_all add: CHUNK_SIZE_def CHUNK_FLAGS_def CHUNK_STRIDE_def CHUNK_DATA_SIZE_def CHUNK_OFFSET_def)

lemma chunk_field_same:
  assumes "bound_ok b" and "same_in (bb_metadata b) m m'" and "off + 4 \<le> CHUNK_SIZE"
  shows "field32 m (ob_chunk (ob_of m0 b)) off = field32 m' (ob_chunk (ob_of m0 b)) off"
  using same_in_fields(1) [OF assms(2), of "bb_chunk_offset b + off"] assms(1,3)
  by (simp add: ob_of_def bb_chunk_def field_add bound_ok_def)

lemma media_same:
  assumes "chunk_valid m0 b" and "same_in (bb_media b) m m'"
  shows "read_mem m (media_ptr (ob_of m0 b)) 0 (ob_capacity (ob_of m0 b)) =
    read_mem m' (media_ptr (ob_of m0 b)) 0 (ob_capacity (ob_of m0 b))"
  using assms(2) media_fits [OF assms(1)] by (simp add: media_ptr_def ob_of_def read_mem_add same_in_def)

lemma cycle_mem_published:
  assumes r: "regions_ok t og" and len: "ACT_SIZE \<le> mapping_len (tg_activation t)"
    and sel: "selected m og c" and ok: "list_all (chunk_valid m) (og_buffers og)"
    and co: "co_buffer_id co = oc_buffer_id c" and media: "length media = cycle_capacity c"
  shows "cycle_published t og c co media awake fin (cycle_mem t og c co media awake fin m)"
proof -
  obtain b where b: "b \<in> set (og_buffers og)" "oc_buffer c = ob_of m b" "mapping_len (og_io og) = IO_BUFFERS_SIZE"
    using sel by (rule selectedE)
  note rb = regions_buffer [OF r b(1)]
  have cv: "chunk_valid m b"
    using ok b(1) by (simp add: list_all_iff)
  have out: "output_ok og"
    using r by (simp add: regions_ok_def)
  note ba = buffer_regions_apart [OF out b(1)]
  let ?view = "mapping_ptr (tg_activation t)" and ?io = "mapping_ptr (og_io og)" and ?b = "ob_of m b"
  let ?m1 = "claim_mem ?view awake m"
  let ?m2 = "write_mem ?m1 (media_ptr ?b) 0 (take (ob_capacity ?b) media)"
  let ?m3 = "chunk_mem ?b co ?m2"
  let ?m4 = "io_mem ?io (co_buffer_id co) ?m3"
  let ?m = "finish_mem ?view (buffer_status_i32 HaveData) fin ?m4"
  have eq: "cycle_mem t og c co media awake fin m = ?m"
    by (simp add: cycle_mem_def Let_def b(2) publish_mem_eq)
  have view: "act_status ?m ?view = status_u32 Finished" "field32 ?m ?view STATE0_STATUS = buffer_status_i32 HaveData"
    "field64 ?m ?view FINISH_TIME = fin" "field64 ?m ?view AWAKE_TIME = field64 ?m4 ?view AWAKE_TIME"
    by (simp_all add: finish_mem_def act_status_def act_layout)
  have "same_in (tg_activation t) ?m4 ?m1"
    using publish_keeps_view [OF r sel ok, of co media ?m1] by (simp add: publish_mem_eq b(2))
  then have awake: "field64 ?m4 ?view AWAKE_TIME = awake"
    using len by (subst same_in_fields(2)) (auto simp: claim_mem_def act_layout)
  have f: "same_in y ?m ?m4" if "placed y" "\<not> overlaps (mapping_interval (tg_activation t)) (mapping_interval y)" for y
    using same_in_claim(2) [OF rb(4) that len] .
  have io: "field32 ?m ?io IO_STATUS = buffer_status_i32 HaveData" "field32 ?m ?io IO_BUFFER_ID = oc_buffer_id c"
    using same_in_fields(1) [OF f [OF rb(3,8)], of IO_STATUS] same_in_fields(1) [OF f [OF rb(3,8)], of IO_BUFFER_ID] b(3) co
    by (simp_all add: IO_BUFFERS_SIZE_def io_mem_fields) (simp_all add: IO_STATUS_def IO_BUFFER_ID_def)
  have "same_in (bb_metadata b) ?m ?m3" "same_in (bb_media b) ?m ?m3"
    using same_in_trans [OF f same_in_io] rb ba b(3) by blast+
  then have chunk: "\<And>off. off + 4 \<le> CHUNK_SIZE \<Longrightarrow> field32 ?m (ob_chunk ?b) off = field32 ?m3 (ob_chunk ?b) off"
    and media': "same_in (bb_media b) ?m ?m2"
    using chunk_field_same [OF rb(5)] same_in_trans same_in_chunk [OF rb(1,2) ba(3) rb(5)] by blast+
  have "read_mem ?m2 (media_ptr ?b) 0 (length media) = media"
    using media b(2) read_write_same [of ?m1 "media_ptr ?b" 0 media] by (simp add: cycle_capacity_def)
  then have "read_mem ?m (media_ptr ?b) 0 (cycle_capacity c) = media"
    using media_same [OF cv media'] media b(2) by (simp add: cycle_capacity_def)
  then show ?thesis
    using view awake io chunk
    by (simp add: cycle_published_def Let_def eq b(2) chunk_mem_fields chunk_fields_fit)
qed

section \<open>The wake\<close>

definition drained_world :: "raw_fd \<Rightarrow> world \<Rightarrow> world" where
  "drained_world fd w = w\<lparr>w_core := (w_core w)\<lparr>c_counter := (c_counter (w_core w))(c_description (w_core w) fd := 0)\<rparr>\<rparr>"

lemma drain_quiet:
  assumes "w_script w = []" and "c_errno (w_core w) = None" and "\<not> c_short (w_core w)"
    and "c_counter (w_core w) (c_description (w_core w) fd) = n" "n \<noteq> 0"
  shows "drain fd w = (Ok n, drained_world fd w)"
  using assms by (simp add: drain_def read_eventfd_def sys_read_def syscall_def Let_def drained_world_def)

lemma drained_simps [simp]:
  "mem (drained_world fd w) = mem w" "w_script (drained_world fd w) = w_script w"
  by (simp_all add: drained_world_def)

lemma process_in_cycle:
  assumes q: "w_script w = []" and r: "regions_ok t og" and len: "ACT_SIZE \<le> mapping_len (tg_activation t)"
    and sel: "selected (mem w) og c" and ok: "list_all (chunk_valid (mem w)) (og_buffers og)"
    and com: "commits cb (mem w) c media co"
  shows "output_process og cb (set_mem (claim_mem (mapping_ptr (tg_activation t)) awake (mem w)) w) =
    (Ok (Some \<lparr>po_buffer_id = co_buffer_id co, po_bytes_used = co_bytes_used co\<rparr>, buffer_status_i32 HaveData),
     set_mem (publish_mem (mapping_ptr (og_io og)) (oc_buffer c) co media
       (claim_mem (mapping_ptr (tg_activation t)) awake (mem w))) w)"
proof -
  let ?m1 = "claim_mem (mapping_ptr (tg_activation t)) awake (mem w)"
  have same: "same_in y (mem w) ?m1" if "y \<in> set (og_mappings og)" for y
    using same_in_claim(1) [of "tg_activation t" y awake "mem w"] that r len
    by (auto simp: regions_ok_def list_all_iff tg_interval_def same_in_def)
  have bound: "list_all bound_ok (og_buffers og)"
    using r by (simp add: regions_ok_def output_ok_def)
  have "selected ?m1 og c"
    using selected_cong [OF bound _ sel] same by (simp add: list_all_iff)
  moreover have "list_all (chunk_valid ?m1) (og_buffers og)"
    using ok bound ob_of_cong(2) same by (fastforce simp: list_all_iff og_mappings_def)
  moreover have "commits cb ?m1 c media co"
  proof -
    obtain b where b: "b \<in> set (og_buffers og)" "oc_buffer c = ob_of (mem w) b"
      using sel by (rule selectedE)
    have "same_in (bb_media b) (mem w) ?m1" and "chunk_valid (mem w) b"
      using same b(1) ok by (auto simp: og_mappings_def list_all_iff)
    with media_same [of "mem w" b "mem w" ?m1] com b(2) show ?thesis
      by (simp add: commits_def cycle_capacity_def)
  qed
  ultimately show ?thesis
    using output_process_quiet [of "set_mem ?m1 w" og c cb media co] q by simp
qed

lemma wake_quiet:
  assumes "cs_state s = Running" and "cs_transport s = Some t" and "cs_output s = Some og"
    and q: "w_script w = []" "c_errno (w_core w) = None" "\<not> c_short (w_core w)"
    and n: "c_counter (w_core w) (c_description (w_core w) (tg_trigger t)) = n" "n \<noteq> 0"
    and r: "regions_ok t og"
    and v: "view_ok (mem w) (mapping_ptr (tg_activation t)) (mapping_len (tg_activation t))"
    and st: "act_status (mem w) (mapping_ptr (tg_activation t)) = status_u32 Triggered"
    and sel: "selected (mem w) og c" and ok: "list_all (chunk_valid (mem w)) (og_buffers og)"
    and com: "commits cb (mem w) c media co"
  shows "on_wake_with_finish (tg_id t) awake (Some fin) cb (s, w) =
    after_claim n (Finished_completion (Ok (Some \<lparr>po_buffer_id = co_buffer_id co, po_bytes_used = co_bytes_used co\<rparr>)) fin)
      (s\<lparr>cs_state := CycleClaimed\<rparr>,
       set_mem (cycle_mem t og c co media awake fin (mem w)) (drained_world (tg_trigger t) w))"
proof -
  let ?w = "drained_world (tg_trigger t) w" and ?view = "mapping_ptr (tg_activation t)"
  let ?m = "publish_mem (mapping_ptr (og_io og)) (oc_buffer c) co media (claim_mem ?view awake (mem w))"
  have len: "ACT_SIZE \<le> mapping_len (tg_activation t)"
    using v by (simp add: view_ok_def)
  have drain: "tg_drain t w = (Ok n, ?w)"
    using drain_quiet [OF q n] by (simp add: tg_drain_def omap_err_def)
  have "act_status ?m ?view = status_u32 Awake"
    using same_in_fields(1) [OF publish_keeps_view [OF r sel ok], of STATUS] len
    by (simp add: act_status_def claim_mem_def act_layout)
  then have "claim_and_finish t awake (Some fin) (output_process og cb) ?w =
    (Ok (Finished_completion (Ok (Some \<lparr>po_buffer_id = co_buffer_id co, po_bytes_used = co_bytes_used co\<rparr>)) fin),
     set_mem (cycle_mem t og c co media awake fin (mem w)) ?w)"
    using claim_and_finish_quiet [of ?w t "output_process og cb" awake _ _ ?m] process_in_cycle [of ?w t og c cb media co awake]
      q r len sel ok com v st
    by (simp add: cycle_mem_def Let_def)
  then show ?thesis
    using assms(1-3) drain by (simp add: on_wake_with_finish_def gets_def modifys_def on_snd_def on_failure_def)
qed

end
