(* ===== verification/Node_Confined.thy ===== *)
theory Node_Confined
  imports Node_Cycle
begin

text \<open>
  Writes that stay in their own regions: an operation is confined to some mappings when, left
  alone, it changes nothing that is seen through a mapping disjoint from them. Triggering a peer is
  confined to its activation record, so it leaves a published cycle as it was.
\<close>

definition outside :: "memory_mapping list \<Rightarrow> memory_mapping \<Rightarrow> bool" where
  "outside xs y \<longleftrightarrow> placed y \<and> list_all (\<lambda>x. placed x \<and> \<not> overlaps (mapping_interval x) (mapping_interval y)) xs"

definition confined :: "memory_mapping list \<Rightarrow> (world, 'a, 'e) op \<Rightarrow> bool" where
  "confined xs m \<longleftrightarrow> (\<forall>w. w_script w = [] \<longrightarrow> w_script (snd (m w)) = [] \<and>
     (\<forall>y. outside xs y \<longrightarrow> same_in y (mem (snd (m w))) (mem w)))"

named_theorems confines \<open>operations confined to some mappings\<close>

lemma confinedI:
  assumes "\<And>w r w'. w_script w = [] \<Longrightarrow> m w = (r, w') \<Longrightarrow>
    w_script w' = [] \<and> (\<forall>y. outside xs y \<longrightarrow> same_in y (mem w') (mem w))"
  shows "confined xs m"
  using assms unfolding confined_def by (metis prod.collapse)

lemma confinedD:
  assumes "confined xs m" and "w_script w = []" and "m w = (r, w')"
  shows "w_script w' = []" and "outside xs y \<Longrightarrow> same_in y (mem w') (mem w)"
  using assms unfolding confined_def by (metis snd_conv)+

lemma same_in_refl [simp]: "same_in y m m"
  by (simp add: same_in_def)

lemma confined_olift [confines]: "confined xs (olift r)"
  by (simp add: confined_def)

lemma confined_obind [confines]:
  assumes m: "confined xs m" and f: "\<And>x. confined xs (f x)"
  shows "confined xs (obind m f)"
proof (rule confinedI)
  fix w r w'
  assume w: "w_script w = []" and eq: "obind m f w = (r, w')"
  obtain r1 w1 where m1: "m w = (r1, w1)"
    by (cases "m w")
  note first = confinedD [OF m w m1]
  show "w_script w' = [] \<and> (\<forall>y. outside xs y \<longrightarrow> same_in y (mem w') (mem w))"
  proof (cases r1)
    case (Ok x)
    then have "f x w1 = (r, w')"
      using eq m1 by (simp add: obind_def)
    from confinedD [OF f first(1) this] first(2) show ?thesis
      by (blast intro: same_in_trans)
  qed (use eq m1 first in \<open>auto simp: obind_def\<close>)
qed

lemma confined_if [confines]: "confined xs m \<Longrightarrow> confined xs n \<Longrightarrow> confined xs (if b then m else n)"
  by simp

lemma confined_omap_err [confines]: "confined xs m \<Longrightarrow> confined xs (omap_err f m)"
  by (auto simp: confined_def omap_err_def split: prod.splits)

lemma confined_case_prod [confines]: "(\<And>x y. confined xs (f x y)) \<Longrightarrow> confined xs (case v of (x, y) \<Rightarrow> f x y)"
  by (cases v) simp

lemma confined_mono: "confined xs m \<Longrightarrow> set xs \<subseteq> set zs \<Longrightarrow> confined zs m"
  unfolding confined_def outside_def by (auto simp: list_all_iff subset_iff)

lemma confined_loads [confines]: "confined xs (load_u32 p off)" "confined xs (load_u64 p off)"
  by (simp_all add: confined_def access_simps)

lemma outside_put:
  assumes "outside xs y" and "x \<in> set xs"
  shows "off + 4 \<le> mapping_len x \<Longrightarrow> same_in y (put32 (mapping_ptr x) off v m) m"
    and "off + 8 \<le> mapping_len x \<Longrightarrow> same_in y (put64 (mapping_ptr x) off u m) m"
  using assms same_in_put [of x y] by (auto simp: outside_def list_all_iff)

lemma confined_stores [confines]:
  assumes "x \<in> set xs"
  shows "off + 4 \<le> mapping_len x \<Longrightarrow> confined xs (store_u32 (mapping_ptr x) off v)"
    and "off + 8 \<le> mapping_len x \<Longrightarrow> confined xs (store_u64 (mapping_ptr x) off u)"
    and "off + 4 \<le> mapping_len x \<Longrightarrow> confined xs (cas_u32 (mapping_ptr x) off a v)"
  using outside_put [OF _ assms] by (auto simp: confined_def access_simps Let_def)

lemma confined_write [confines]: "confined xs (signal fd v)"
  unfolding signal_def write_eventfd_def
  by (intro confines) (auto simp: confined_def sys_write_def syscall_def Let_def split: option.splits)

lemma confined_transition [confines]:
  "x \<in> set xs \<Longrightarrow> ACT_SIZE \<le> mapping_len x \<Longrightarrow> confined xs (transition (mapping_ptr x) a b)"
  unfolding transition_def by (intro confines) (auto simp: act_layout)

lemma confined_decrement [confines]:
  assumes "x \<in> set xs" and "ACT_SIZE \<le> mapping_len x"
  shows "confined xs (decrement_pending (mapping_ptr x) current)"
proof (rule confinedI)
  fix w r w'
  assume "w_script w = []" and "decrement_pending (mapping_ptr x) current w = (r, w')"
  then show "w_script w' = [] \<and> (\<forall>y. outside xs y \<longrightarrow> same_in y (mem w') (mem w))"
    using outside_put(1) [OF _ assms(1), of _ STATE0_PENDING] assms(2)
    by (auto simp: decrement_pending.simps [of _ _ w] access_simps Let_def act_layout split: if_splits)
qed

lemma confined_decrement_trigger [confines]:
  "x \<in> set xs \<Longrightarrow> ACT_SIZE \<le> mapping_len x \<Longrightarrow> confined xs (decrement_pending_and_trigger (mapping_ptr x) now)"
  unfolding decrement_pending_and_trigger_def pending_def by (intro confines) (auto simp: act_layout)

lemma confined_view:
  assumes "ACT_SIZE \<le> mapping_len x \<Longrightarrow> confined xs (f (mapping_ptr x))"
  shows "confined xs (obind (mapping_view x) f)"
proof -
  have "confined xs (obind (mapping_view x) (\<lambda>v. if v = mapping_ptr x \<and> ACT_SIZE \<le> mapping_len x then f v else ofail undefined))"
  proof (rule confined_obind)
    show "confined xs (mapping_view x)"
      unfolding mapping_view_def activation_from_raw_parts_def by (intro confines)
  qed (use assms in \<open>auto simp: confined_def\<close>)
  moreover have "obind (mapping_view x) (\<lambda>v. if v = mapping_ptr x \<and> ACT_SIZE \<le> mapping_len x then f v else ofail undefined) =
      obind (mapping_view x) f"
    by (rule ext)
      (auto simp: obind_def mapping_view_def omap_err_def activation_from_raw_parts_def split: prod.splits result.splits if_splits)
  ultimately show ?thesis
    by simp
qed

lemma confined_peer [confines]: "pa_mapping p \<in> set xs \<Longrightarrow> confined xs (peer_trigger p now)"
  unfolding peer_trigger_def by (rule confined_view) (intro confines)

lemma confined_peers: "pa_mapping ` snd ` set peers \<subseteq> set xs \<Longrightarrow> confined xs (trigger_peers peers now first)"
proof (induction peers arbitrary: first)
  case Nil
  then show ?case
    by (cases first) (simp_all add: confined_def)
next
  case (Cons x peers)
  obtain node peer where x: "x = (node, peer)"
    by (cases x)
  have peer: "confined xs (peer_trigger peer now)"
    using Cons.prems x by (intro confines) auto
  have rest: "confined xs (trigger_peers peers now first)" for first
    using Cons by auto
  show ?case
    unfolding x trigger_peers.simps
  proof (rule confinedI, goal_cases)
    case (1 w r w')
    obtain r1 w1 where t: "peer_trigger peer now w = (r1, w1)"
      by (cases "peer_trigger peer now w")
    note first = confinedD [OF peer 1(1) t]
    show ?case
      using 1(2) t first confinedD [OF rest first(1)]
      by (cases r1; auto; blast intro: same_in_trans)
  qed
qed

section \<open>A published cycle outlives the triggers\<close>

lemma published_same:
  assumes pub: "cycle_published t og c co media awake fin m" and r: "regions_ok t og" and len: "ACT_SIZE \<le> mapping_len (tg_activation t)"
    and sel: "selected m0 og c" and ok: "list_all (chunk_valid m0) (og_buffers og)"
    and same: "\<And>y. y \<in> insert (tg_activation t) (set (og_mappings og)) \<Longrightarrow> same_in y m' m"
  shows "cycle_published t og c co media awake fin m'"
proof -
  obtain b where b: "b \<in> set (og_buffers og)" "oc_buffer c = ob_of m0 b" "mapping_len (og_io og) = IO_BUFFERS_SIZE"
    using sel by (rule selectedE)
  have cv: "chunk_valid m0 b"
    using ok b(1) by (simp add: list_all_iff)
  have meta: "same_in (bb_metadata b) m' m" and "same_in (bb_media b) m' m" and io: "same_in (og_io og) m' m" and view: "same_in (tg_activation t) m' m"
    using b(1) same by (auto simp: og_mappings_def)
  then have "read_mem m' (media_ptr (oc_buffer c)) 0 (cycle_capacity c) = read_mem m (media_ptr (oc_buffer c)) 0 (cycle_capacity c)"
    using media_same [OF cv] b(2) by (simp add: cycle_capacity_def)
  moreover have "field32 m' (ob_chunk (oc_buffer c)) off = field32 m (ob_chunk (oc_buffer c)) off" if "off + 4 \<le> CHUNK_SIZE" for off
    using chunk_field_same [OF _ meta that] regions_buffer(5) [OF r b(1)] b(2) by simp
  ultimately show ?thesis
    using pub same_in_fields [OF io] same_in_fields [OF view] b(3) len
    by (simp add: cycle_published_def Let_def chunk_fields_fit act_status_def act_layout IO_BUFFERS_SIZE_def IO_STATUS_def IO_BUFFER_ID_def)
qed

lemma session_regions:
  assumes "resting s" and "cs_transport s = Some t" and "cs_output s = Some og" and "list_all placed (session_mappings s)"
  shows "regions_ok t og"
    and "y \<in> insert (tg_activation t) (set (og_mappings og)) \<Longrightarrow> outside (map (pa_mapping \<circ> snd) (cs_peers s)) y"
proof -
  have inv: "output_ok og" "no_overlaps (all_intervals s)"
    using assms by (simp_all add: resting_def session_inv_def resources_ok_def)
  have eq: "session_mappings s = tg_activation t # og_mappings og @ map (pa_mapping \<circ> snd) (cs_peers s)"
    using assms(2,3) by (simp add: session_mappings_def og_mappings_def comp_def split_def)
  have "all_intervals s = map mapping_interval (session_mappings s)"
    using assms(2,3) by (simp add: eq og_mappings_def all_intervals_def transport_intervals_def output_intervals_def
        peers_intervals_def tg_interval_def og_intervals_def pa_interval_def map_concat comp_def split_def)
  then have apart: "list_all (\<lambda>y. \<not> overlaps (tg_interval t) (mapping_interval y)) (og_mappings og @ map (pa_mapping \<circ> snd) (cs_peers s))"
    "list_all (\<lambda>y. list_all (\<lambda>x. \<not> overlaps (mapping_interval y) (mapping_interval x)) (map (pa_mapping \<circ> snd) (cs_peers s))) (og_mappings og)"
    using inv(2) by (auto simp: eq no_overlaps_append list_all_iff tg_interval_def)
  have placed: "list_all placed (og_mappings og)" "placed (tg_activation t)" "list_all placed (map (pa_mapping \<circ> snd) (cs_peers s))"
    using assms(4) by (simp_all add: eq)
  show "regions_ok t og"
    using inv(1) placed apart by (simp add: regions_ok_def)
  show "y \<in> insert (tg_activation t) (set (og_mappings og)) \<Longrightarrow> outside (map (pa_mapping \<circ> snd) (cs_peers s)) y"
    using placed apart overlaps_sym unfolding outside_def list_all_iff tg_interval_def by (auto simp: ball_Un)
qed

end
