(* ===== verification/Node_Demo.thy ===== *)
theory Node_Demo
  imports Node_Confined
begin

text \<open>
  A concrete session for the witnesses: one memfd, one transport, one stereo output buffer, brought
  to the running state by the commands a server sends.
\<close>

definition demo_backing :: "nat \<Rightarrow> backing_identity" where
  "demo_backing n = \<lparr>device = 1, inode = of_nat n\<rparr>"

definition demo_libc :: libc where
  "demo_libc = \<lparr>EAGAIN = 11, EWOULDBLOCK = 11, EIO = 5, O_NONBLOCK = 2048, F_SEAL_SHRINK = 2\<rparr>"

text \<open>One memfd (descriptor 10) of 8192 bytes: activation at 0, io at 4096, metadata at 4608, media at 5120.\<close>

definition demo_mem :: shared_memory where
  "demo_mem = put32 \<lparr>mp_addr = 4096, mp_backing = demo_backing 7, mp_offset = 0\<rparr> SERVER_VERSION 1
    (put32 \<lparr>mp_addr = 4096, mp_backing = demo_backing 7, mp_offset = 0\<rparr> STATUS 4
    (put32 \<lparr>mp_addr = 4096, mp_backing = demo_backing 7, mp_offset = 4096\<rparr> IO_STATUS 1 (\<lambda>_ _. 0)))"

definition demo_core :: "shared_memory \<Rightarrow> core" where
  "demo_core m = \<lparr>c_mem = m, c_stat = (\<lambda>_. \<lparr>st_size = 8192, st_identity = demo_backing 7\<rparr>), c_seals = (\<lambda>_. Some 2),
    c_flags = (\<lambda>_. 2048), c_description = (\<lambda>_. 0), c_counter = (\<lambda>_. 1), c_mmap = 4096, c_dup = 30, c_page_size = 4096,
    c_errno = None, c_short = False\<rparr>"

definition demo_at :: "shared_memory \<Rightarrow> world" where
  "demo_at m = \<lparr>w_core = demo_core m, w_script = [], w_libc = demo_libc\<rparr>"

definition demo_world :: world where
  "demo_world = demo_at demo_mem"

lemma demo_at_simps [simp]:
  "mem (demo_at m) = m" "w_script (demo_at m) = []" "w_libc (demo_at m) = demo_libc" "set_mem m' (demo_at m) = demo_at m'"
  by (simp_all add: demo_at_def demo_core_def set_mem_def)

definition demo_lease :: memory_lease where
  "demo_lease = \<lparr>ml_entry = \<lparr>me_key = \<lparr>mk_id = 3, mk_generation = 5\<rparr>, me_backing = demo_backing 7, me_kind = Kind_MemFd,
     me_flags = 0, me_file_len = 8192, me_fd = 10\<rparr>, ml_shrink_policy = RequireSealed\<rparr>"

definition demo_region :: "nat \<Rightarrow> nat \<Rightarrow> memory_region" where
  "demo_region off len = \<lparr>mem_memory = 3, mem_offset = off, mem_len = len\<rparr>"

definition demo_format :: audio_format where
  "demo_format = \<lparr>af_sample_format = S16Le, af_rate = 48000, af_channels = [0, 0], af_bytes_per_sample = 2, af_frame_stride = 4\<rparr>"

definition demo_buffers :: buffer_set where
  "demo_buffers = \<lparr>bs_port = 0, bs_buffers = [\<lparr>sb_metadata = demo_region 4608 16, sb_metas = [], sb_media_memory = 3,
     sb_map_offset = 5120, sb_max_size = 64\<rparr>]\<rparr>"

definition demo_io :: port_io_descriptor where
  "demo_io = \<lparr>pio_port = 0, pio_region = demo_region 4096 8\<rparr>"

definition demo_commands :: "session_command list" where
  "demo_commands = [MemoryAvailable demo_lease,
     ReplaceTransport \<lparr>td_trigger_fd = 20, td_completion_fd = 21, td_activation = demo_region 0 2312\<rparr>,
     SetFormat demo_format, UseBuffers demo_buffers, SetPortIo demo_io, SetActiveCmd True, SetNodeCommand NC_Start]"

definition demo_ops :: "session_op list" where
  "demo_ops = map (\<lambda>c. Apply c demo_world) demo_commands"

definition demo_mapping :: "nat \<Rightarrow> nat \<Rightarrow> memory_mapping" where
  "demo_mapping off len = \<lparr>mm_mapped = \<lparr>mr_mapping_ptr = 4096, mr_mapping_len = off - off div 4096 * 4096 + len,
     mr_ptr = \<lparr>mp_addr = 4096 + (off - off div 4096 * 4096), mp_backing = demo_backing 7, mp_offset = off\<rparr>, mr_len = len,
     mr_seal_status = Available 2\<rparr>, mm_entry = ml_entry demo_lease, mm_offset = off\<rparr>"

lemma demo_map:
  assumes "0 < len" and "off + len \<le> 8192"
  shows "lease_map demo_lease off len True (demo_at m) = (Ok (demo_mapping off len), demo_at m)"
proof -
  have "off div 4096 * 4096 \<le> off"
    by simp
  then have "off - off div 4096 * 4096 + len < 2 ^ 63" "off div 4096 * 4096 < 2 ^ 63" "off + len < 2 ^ 64" "len < 2 ^ 63"
    using assms by simp_all
  then show ?thesis using assms
  by (simp add: lease_map_def demo_lease_def map_entry_def map_shared_with_policy_def Let_def checked_add_usize_def usize_limit_def isize_max_def
     omap_err_def sys_fstat_def syscall_def demo_at_def demo_core_def usize_try_from_i64_def read_seal_status_def sys_get_seals_def 
     get_libc_def prevents_shrink_def demo_libc_def page_size_def sys_page_size_def sys_mmap_def demo_mapping_def)
qed

definition demo_transport :: transport_generation where
  "demo_transport = \<lparr>tg_id = 1, tg_trigger = 20, tg_completion = 21, tg_activation_key = \<lparr>mk_id = 3, mk_generation = 5\<rparr>,
     tg_activation = demo_mapping 0 2312\<rparr>"

definition demo_buffer :: bound_buffer where
  "demo_buffer = \<lparr>bb_metadata_key = \<lparr>mk_id = 3, mk_generation = 5\<rparr>, bb_metadata = demo_mapping 4608 16, bb_chunk_offset = 0,
       bb_media_key = \<lparr>mk_id = 3, mk_generation = 5\<rparr>, bb_media = demo_mapping 5120 64\<rparr>"

definition demo_output :: output_generation where
  "demo_output = \<lparr>og_id = 2, og_format = demo_format, og_io_key = \<lparr>mk_id = 3, mk_generation = 5\<rparr>, og_io = demo_mapping 4096 8,
     og_buffers = [demo_buffer]\<rparr>"

definition demo_session :: session where
  "demo_session = \<lparr>cs_available_memory = [(3, demo_lease)], cs_next_generation = 3, cs_transport = Some demo_transport,
     cs_pending_transport = None, cs_format = Some demo_format, cs_buffer_descriptor = Some demo_buffers,
     cs_io_descriptor = Some demo_io, cs_output = Some demo_output, cs_peers = [], cs_pending_peers = [],
     cs_active_requested = True, cs_command = NC_Start, cs_state = Running\<rparr>"

lemmas session_ops = session_step_def apply_session_def apply_command_def gets_def modifys_def obind_def on_snd_def refresh_state_def
  is_ready_def

lemma demo_memory: "session_step session_new (Apply (MemoryAvailable demo_lease) demo_world) = session_new\<lparr>cs_available_memory := [(3, demo_lease)]\<rparr>"
  by (simp add: session_ops session_new_def apply_memory_available_def retry_pending_def hm_insert_def demo_lease_def lease_key_def)

lemma demo_ordered:
  assumes "0 < len" and "off + len \<le> 8192"
  shows "ordered_map [(3, demo_lease)] \<lparr>mk_id = 3, mk_generation = 5\<rparr> off len True (demo_at m) =
    (Ok (demo_mapping off len), demo_at m)"
  using demo_map [OF assms, of m] by (simp add: ordered_map_def demo_lease_def lease_key_def)

lemma demo_resolve: "ordered_resolve [(3, demo_lease)] 3 = Ok \<lparr>mk_id = 3, mk_generation = 5\<rparr>"
  by (simp add: ordered_resolve_def demo_lease_def lease_key_def)

lemma demo_owned: "from_owned_fd fd (demo_at m) = (Ok fd, demo_at m)"
  by (simp add: from_owned_fd_def set_nonblocking_def get_libc_def omap_err_def sys_getfl_def syscall_def Let_def
      demo_at_def demo_core_def demo_libc_def)

lemma demo_view:
  assumes "field32 m (mapping_ptr (demo_mapping 0 2312)) SERVER_VERSION = 1"
  shows "mapping_view (demo_mapping 0 2312) (demo_at m) = (Ok (mapping_ptr (demo_mapping 0 2312)), demo_at m)"
  using assms
  by (intro mapping_view_quiet)
    (simp_all add: view_ok_def demo_mapping_def mapping_ptr_def mapping_len_def ACT_SIZE_def ACT_ALIGN_def ACTIVATION_VERSION_def)

lemma demo_fields:
  "field32 demo_mem (mapping_ptr (demo_mapping 0 2312)) SERVER_VERSION = 1"
  "field32 demo_mem (mapping_ptr (demo_mapping 0 2312)) STATUS = 4"
  by (simp_all add: demo_mem_def demo_mapping_def mapping_ptr_def SERVER_VERSION_def STATUS_def)

lemma demo_transport_bind:
  "transport_bind 1 \<lparr>td_trigger_fd = 20, td_completion_fd = 21, td_activation = demo_region 0 2312\<rparr>
     (ordered_resolve [(3, demo_lease)]) (ordered_map [(3, demo_lease)]) (demo_at demo_mem) =
   (Ok demo_transport, demo_at (put32 (mapping_ptr (demo_mapping 0 2312)) CLIENT_VERSION ACTIVATION_VERSION demo_mem))"
  by (simp add: transport_bind_def resolve_region_def demo_region_def demo_resolve omap_err_def demo_ordered demo_view demo_fields
      initialize_client_v1_def access_simps demo_owned demo_transport_def)

lemma demo_step_transport:
  "session_step (session_new\<lparr>cs_available_memory := [(3, demo_lease)]\<rparr>)
     (Apply (ReplaceTransport \<lparr>td_trigger_fd = 20, td_completion_fd = 21, td_activation = demo_region 0 2312\<rparr>) demo_world) =
   session_new\<lparr>cs_available_memory := [(3, demo_lease)], cs_next_generation := 2, cs_transport := Some demo_transport\<rparr>"
  using demo_transport_bind
  by (simp add: session_ops session_new_def bind_transport_def demo_region_def demo_resolve unresolved_def allocate_generation_def
      checked_add_usize_def usize_limit_def demo_world_def on_error_def ensure_disjoint_def output_intervals_def peers_intervals_def
      stop_def set_transport_def)

abbreviation demo_bound :: session where
  "demo_bound \<equiv> session_new\<lparr>cs_available_memory := [(3, demo_lease)], cs_next_generation := 2, cs_transport := Some demo_transport\<rparr>"

lemma demo_step_format:
  "session_step demo_bound (Apply (SetFormat demo_format) demo_world) = demo_bound\<lparr>cs_format := Some demo_format\<rparr>"
  by (simp add: session_ops session_new_def apply_set_format_def bind_output_def)

lemma demo_step_buffers:
  "session_step (demo_bound\<lparr>cs_format := Some demo_format\<rparr>) (Apply (UseBuffers demo_buffers) demo_world) =
     demo_bound\<lparr>cs_format := Some demo_format, cs_buffer_descriptor := Some demo_buffers\<rparr>"
  by (simp add: session_ops session_new_def apply_use_buffers_def bind_output_def)

lemma demo_deactivate:
  "tg_deactivate demo_transport (demo_at demo_mem) =
    (Ok Inactive, demo_at (put32 (mapping_ptr (demo_mapping 0 2312)) STATUS (status_u32 Inactive) demo_mem))"
  using demo_view [OF demo_fields(1)]
  by (simp add: tg_deactivate_def demo_transport_def omap_err_def deactivate_def access_simps demo_fields activation_status_of_def)

lemma field_zero: "field32 (\<lambda>_ _. 0) p off = 0"
  by (simp add: field32_def read_mem_def u32_of_bytes_def upt_rec)

lemma demo_zero: "mp_backing p = demo_backing 7 \<Longrightarrow> 2312 \<le> mp_offset p + off \<Longrightarrow>
    mp_offset p + off + 4 \<le> 4096 \<or> 4100 \<le> mp_offset p + off \<Longrightarrow> field32 demo_mem p off = 0"
  by (auto simp: demo_mem_def field_apart apart_def field_zero SERVER_VERSION_def STATUS_def IO_STATUS_def)

lemma demo_chunk_valid: "chunk_valid demo_mem demo_buffer"
  by (simp add: chunk_valid_def demo_buffer_def bb_chunk_def Let_def ptr_add_def demo_mapping_def mapping_ptr_def mapping_len_def demo_zero
      CHUNK_ALIGN_def CHUNK_OFFSET_def CHUNK_DATA_SIZE_def CHUNK_STRIDE_def)

lemma demo_intervals:
  "mapping_interval (demo_mapping off len) = \<lparr>iv_backing = demo_backing 7, iv_start = off, iv_end = off + len\<rparr>"
  by (simp add: mapping_interval_def demo_mapping_def demo_lease_def mapping_len_def)

lemma demo_disjoint: "no_overlaps (map mapping_interval [demo_mapping 4096 8, demo_mapping 4608 16, demo_mapping 5120 64])"
  by (simp add: demo_intervals overlaps_def)

lemma demo_bind_buffer:
  "bind_buffer \<lparr>sb_metadata = demo_region 4608 16, sb_metas = [], sb_media_memory = 3, sb_map_offset = 5120, sb_max_size = 64\<rparr>
     (ordered_resolve [(3, demo_lease)]) (ordered_map [(3, demo_lease)]) [mapping_interval (demo_mapping 4096 8)] (demo_at demo_mem) =
   (Ok (demo_buffer, map mapping_interval [demo_mapping 4096 8, demo_mapping 4608 16, demo_mapping 5120 64]), demo_at demo_mem)"
proof -
  have "bound_output_buffer demo_buffer (demo_at demo_mem) = (Ok (ob_of demo_mem demo_buffer), demo_at demo_mem)"
    using bound_output_buffer_quiet [of "demo_at demo_mem" demo_buffer] demo_chunk_valid by simp
  moreover have "mapping_len (demo_mapping 5120 64) = 64"
    by (simp add: demo_mapping_def mapping_len_def)
  ultimately have "omap_err Port_error (output_buffer_from_raw_parts (ptr_add (mapping_ptr (demo_mapping 4608 16)) 0) CHUNK_SIZE
      (mapping_ptr (demo_mapping 5120 64)) 64 0 64) (demo_at demo_mem) = (Ok (ob_of demo_mem demo_buffer), demo_at demo_mem)"
    by (simp add: bound_output_buffer_def demo_buffer_def)
  then show ?thesis
    using demo_disjoint \<open>mapping_len (demo_mapping 5120 64) = 64\<close>
    by (simp add: bind_buffer_def demo_region_def demo_resolve omap_err_def demo_ordered reject_overlaps_def CHUNK_SIZE_def
        checked_add_usize_def usize_limit_def demo_buffer_def)
qed

lemma demo_output_bind:
  "output_bind 2 demo_format demo_buffers demo_io (ordered_resolve [(3, demo_lease)]) (ordered_map [(3, demo_lease)]) (demo_at demo_mem) =
   (Ok demo_output, demo_at demo_mem)"
proof -
  have "io_from_raw_parts Buffers (mapping_ptr (demo_mapping 4096 8)) (mapping_len (demo_mapping 4096 8)) =
      Ok (mapping_ptr (demo_mapping 4096 8))"
    by (simp add: io_from_raw_parts_def checked_record_def demo_mapping_def mapping_ptr_def mapping_len_def IO_BUFFERS_SIZE_def
        IO_BUFFERS_ALIGN_def)
  with demo_bind_buffer show ?thesis
    by (simp add: output_bind_def demo_buffers_def demo_io_def resolve_region_def demo_region_def demo_resolve omap_err_def demo_ordered
        IO_SIZE_def demo_output_def)
qed

lemma demo_candidate:
  assumes "cs_available_memory s = [(3, demo_lease)]" and "cs_next_generation s = 2" and "cs_transport s = Some demo_transport" and "cs_peers s = []"
  shows "output_candidate demo_format demo_buffers demo_io (s, demo_at demo_mem) =
    (Ok (Some demo_output), s\<lparr>cs_next_generation := 3\<rparr>, demo_at demo_mem)"
proof -
  have "any_unresolved [(3, demo_lease)] (buffer_memory_ids demo_buffers @ [mem_memory (pio_region demo_io)]) = Ok False"
    by (simp add: buffer_memory_ids_def demo_buffers_def demo_io_def demo_region_def demo_resolve unresolved_def)
  moreover have "ensure_disjoint (og_intervals demo_output) (transport_intervals s @ peers_intervals (cs_peers s)) = Ok ()"
    using assms(3, 4) by (simp add: ensure_disjoint_def og_intervals_def demo_output_def demo_buffer_def transport_intervals_def
        peers_intervals_def tg_interval_def demo_transport_def demo_intervals overlaps_def)
  ultimately show ?thesis
    using assms demo_output_bind
    by (simp add: output_candidate_def obind_def gets_def modifys_def allocate_generation_def checked_add_usize_def usize_limit_def on_snd_def)
qed

abbreviation demo_configured :: session where
  "demo_configured \<equiv> demo_bound\<lparr>cs_next_generation := 3, cs_format := Some demo_format, cs_buffer_descriptor := Some demo_buffers,
     cs_io_descriptor := Some demo_io, cs_output := Some demo_output, cs_state := Ready\<rparr>"

lemma demo_step_io:
  "session_step (demo_bound\<lparr>cs_format := Some demo_format, cs_buffer_descriptor := Some demo_buffers\<rparr>)
     (Apply (SetPortIo demo_io) demo_world) = demo_configured"
  using demo_deactivate
  by (simp add: session_ops session_new_def apply_set_port_io_def demo_candidate demo_world_def stop_def)

lemma demo_step_active:
  "session_step demo_configured (Apply (SetActiveCmd True) demo_world) = demo_configured\<lparr>cs_active_requested := True\<rparr>"
  by (simp add: session_ops session_new_def apply_set_active_def ensure_running_def)

lemma demo_restart: "field32 (put32 (mapping_ptr (demo_mapping 0 2312)) STATUS v demo_mem) (mapping_ptr (demo_mapping 0 2312)) SERVER_VERSION = 1"
  using demo_fields(1) by (simp add: field_apart apart_def SERVER_VERSION_def STATUS_def)

lemma demo_start:
  "tg_status demo_transport (demo_at demo_mem) = (Ok Inactive, demo_at demo_mem)"
  "tg_mark_ready demo_transport (demo_at demo_mem) =
    (Ok (), demo_at (put32 (mapping_ptr (demo_mapping 0 2312)) STATUS (status_u32 Finished) demo_mem))"
  "tg_status demo_transport (demo_at (put32 (mapping_ptr (demo_mapping 0 2312)) STATUS (status_u32 Finished) demo_mem)) =
    (Ok Finished, demo_at (put32 (mapping_ptr (demo_mapping 0 2312)) STATUS (status_u32 Finished) demo_mem))"
  by (simp_all add: demo_view demo_fields demo_restart tg_status_def tg_mark_ready_def demo_transport_def omap_err_def read_status_def mark_ready_def
      transition_quiet access_simps activation_status_of_def act_status_def status_u32_def)

lemma demo_step_start:
  "session_step (demo_configured\<lparr>cs_active_requested := True\<rparr>) (Apply (SetNodeCommand NC_Start) demo_world) = demo_session"
  using demo_start
  by (simp add: session_ops session_new_def apply_node_command_def ensure_running_def demo_world_def demo_session_def)

lemma demo_run: "foldl session_step session_new demo_ops = demo_session"
  unfolding demo_ops_def demo_commands_def list.map foldl.simps demo_memory demo_step_transport demo_step_format demo_step_buffers demo_step_io
      demo_step_active demo_step_start ..

section \<open>Leaving the running state\<close>

definition demo_removed :: session where
  "demo_removed = demo_session\<lparr>cs_available_memory := [], cs_transport := None, cs_output := None, cs_state := Configuring\<rparr>"

lemma demo_drop:
  "tg_deactivate demo_transport (demo_at (put32 (mapping_ptr (demo_mapping 0 2312)) STATUS (status_u32 Inactive) demo_mem)) =
    (Ok Inactive, demo_at (put32 (mapping_ptr (demo_mapping 0 2312)) STATUS (status_u32 Inactive)
       (put32 (mapping_ptr (demo_mapping 0 2312)) STATUS (status_u32 Inactive) demo_mem)))"
  using demo_view [OF demo_restart]
  by (simp add: tg_deactivate_def demo_transport_def omap_err_def deactivate_def access_simps)

lemma demo_remove:
  "\<exists>w'. apply_session (RemoveMemory (lease_key demo_lease)) (demo_session, demo_world) =
    (Ok Applied, demo_removed, w')"
proof -
  have "tg_activation_key demo_transport = lease_key demo_lease" "depends_on demo_output (lease_key demo_lease)"
    by (simp_all add: demo_transport_def demo_output_def depends_on_def lease_key_def demo_lease_def)
  moreover have "mk_id (lease_key demo_lease) = 3"
    by (simp add: lease_key_def demo_lease_def)
  ultimately show ?thesis
    using demo_deactivate demo_drop
    by (simp add: session_ops apply_remove_memory_def remove_memory_def demo_session_def demo_world_def stop_def set_transport_def
        tg_drop_def oignore_def demo_removed_def hm_remove_filter peers_remove_memory_def)
qed

section \<open>A cycle\<close>

text \<open>A callback that fills the buffer with ones and commits all of it.\<close>

definition demo_callback :: callback where
  "demo_callback c media = (replicate (cycle_capacity c) 1,
     Committed \<lparr>co_buffer_id = oc_buffer_id c, co_bytes_used = cycle_capacity c, co_stride = 4, co_flags = 0\<rparr>)"

text \<open>The server has triggered the node.\<close>

definition demo_wake :: shared_memory where
  "demo_wake = put32 (mapping_ptr (demo_mapping 0 2312)) STATUS (status_u32 Triggered) demo_mem"

definition demo_cycle :: output_cycle where
  "demo_cycle = \<lparr>oc_buffer = ob_of demo_wake demo_buffer, oc_buffer_id = 0, oc_format = demo_format\<rparr>"

definition demo_commit :: committed_output where
  "demo_commit = \<lparr>co_buffer_id = 0, co_bytes_used = 64, co_stride = 4, co_flags = 0\<rparr>"

lemma demo_wake_zero: "mp_backing p = demo_backing 7 \<Longrightarrow> 2312 \<le> mp_offset p + off \<Longrightarrow>
    mp_offset p + off + 4 \<le> 4096 \<or> 4100 \<le> mp_offset p + off \<Longrightarrow> field32 demo_wake p off = 0"
  unfolding demo_wake_def
  by (subst field_apart(1)) (auto simp: demo_zero apart_def demo_mapping_def mapping_ptr_def STATUS_def)

lemma demo_wake_fields:
  "field32 demo_wake (bb_chunk demo_buffer) CHUNK_OFFSET = 0" "field32 demo_wake (bb_chunk demo_buffer) CHUNK_DATA_SIZE = 0"
  "field32 demo_wake (bb_chunk demo_buffer) CHUNK_STRIDE = 0" "field32 demo_wake (mapping_ptr (demo_mapping 4096 8)) IO_BUFFER_ID = 0"
  by (simp_all add: demo_wake_zero bb_chunk_def demo_buffer_def ptr_add_def demo_mapping_def mapping_ptr_def
      CHUNK_OFFSET_def CHUNK_DATA_SIZE_def CHUNK_STRIDE_def IO_BUFFER_ID_def)

lemma demo_wake_io: "field32 demo_wake (mapping_ptr (demo_mapping 4096 8)) IO_STATUS = buffer_status_i32 NeedData"
  unfolding demo_wake_def demo_mem_def
  by (simp add: field_apart apart_def demo_mapping_def mapping_ptr_def STATUS_def IO_STATUS_def SERVER_VERSION_def buffer_status_i32_def)

lemma demo_wake_view: "view_ok demo_wake (mapping_ptr (demo_mapping 0 2312)) (mapping_len (demo_mapping 0 2312))"
  "act_status demo_wake (mapping_ptr (demo_mapping 0 2312)) = status_u32 Triggered"
  using demo_restart
  by (simp_all add: view_ok_def demo_wake_def act_status_def)
    (simp_all add: demo_mapping_def mapping_ptr_def mapping_len_def ACT_SIZE_def ACT_ALIGN_def ACTIVATION_VERSION_def)

lemma demo_wake_chunk: "chunk_valid demo_wake demo_buffer"
  unfolding chunk_valid_def Let_def demo_wake_fields
  by (simp add: demo_buffer_def bb_chunk_def ptr_add_def demo_mapping_def mapping_ptr_def mapping_len_def CHUNK_ALIGN_def)

lemma demo_capacity: "cycle_capacity demo_cycle = 64"
  by (simp add: cycle_capacity_def demo_cycle_def ob_capacity_def ob_of_def demo_wake_fields)
    (simp add: demo_buffer_def demo_mapping_def mapping_len_def)

lemma demo_selected: "selected demo_wake demo_output demo_cycle"
  unfolding selected_def Let_def demo_output_def output_generation.simps demo_wake_fields demo_wake_io
  by (simp add: demo_cycle_def) (simp add: demo_mapping_def mapping_ptr_def mapping_len_def IO_BUFFERS_SIZE_def IO_BUFFERS_ALIGN_def)

lemma demo_commits: "commits demo_callback demo_wake demo_cycle (replicate 64 1) demo_commit"
  by (simp add: commits_def demo_callback_def demo_capacity demo_commit_def)
    (simp add: demo_cycle_def ob_of_def demo_buffer_def demo_mapping_def mapping_len_def)

lemma demo_placed: "list_all placed (session_mappings demo_session)"
  by (simp add: session_mappings_def demo_session_def demo_transport_def demo_output_def demo_buffer_def placed_def demo_mapping_def
      mapping_ptr_def demo_lease_def)

text \<open>A wake without a trigger: the activation record is inactive.\<close>

lemma demo_unclaimed:
  "\<exists>w'. on_wake_with_finish 1 0 None cb (demo_session, demo_world) = (Ok (NotClaimed 1 0), demo_session, w')"
proof -
  have "tg_drain demo_transport (demo_at demo_mem) = (Ok 1, drained_world 20 (demo_at demo_mem))"
    using drain_quiet [of "demo_at demo_mem" 20 1]
    by (simp add: tg_drain_def omap_err_def demo_transport_def) (simp add: demo_at_def demo_core_def)
  moreover have "mapping_view (demo_mapping 0 2312) (drained_world 20 (demo_at demo_mem)) =
      (Ok (mapping_ptr (demo_mapping 0 2312)), drained_world 20 (demo_at demo_mem))"
    using demo_fields(1)
    by (intro mapping_view_quiet)
      (simp_all add: view_ok_def demo_mapping_def mapping_ptr_def mapping_len_def ACT_SIZE_def ACT_ALIGN_def ACTIVATION_VERSION_def)
  moreover have "claim_cycle (mapping_ptr (demo_mapping 0 2312)) 0 (drained_world 20 (demo_at demo_mem)) =
      (Err (Act_invalid_transition Triggered Inactive), drained_world 20 (demo_at demo_mem))"
    by (simp add: claim_cycle_def transition_quiet obind_def act_status_def demo_fields status_u32_def activation_status_of_def)
  ultimately show ?thesis
    by (simp add: on_wake_with_finish_def gets_def modifys_def on_snd_def on_failure_def claim_and_finish_def after_claim_def
        saturating_pred_def demo_session_def demo_transport_def demo_world_def)
qed

text \<open>A wake that finds the activation record overwritten: the session fails, and can be started again.\<close>

lemma fail_session_result: "\<exists>w'. fail_session (s, w) = (Ok (), s\<lparr>cs_state := Failed\<rparr>, w')"
proof -
  have "valid (\<lambda>sw. fst sw = s) fail_session (\<lambda>_ sw. fst sw = s\<lparr>cs_state := Failed\<rparr>) (\<lambda>_ _. False)"
    by (rule valid_pre, rule wp) auto
  from validD [OF this, of "(s, w)"] show ?thesis
    by (cases "fail_session (s, w)"; cases "fst (fail_session (s, w))") auto
qed

lemma demo_fails:
  "session_step demo_session (Wake 1 0 None demo_callback (demo_at (\<lambda>_ _. 0))) = demo_session\<lparr>cs_state := Failed\<rparr>"
proof -
  let ?w = "drained_world 20 (demo_at (\<lambda>_ _. 0))"
  have "tg_drain demo_transport (demo_at (\<lambda>_ _. 0)) = (Ok 1, ?w)"
    using drain_quiet [of "demo_at (\<lambda>_ _. 0)" 20 1]
    by (simp add: tg_drain_def omap_err_def demo_transport_def) (simp add: demo_at_def demo_core_def)
  moreover have "\<exists>e. mapping_view (demo_mapping 0 2312) ?w = (Err e, ?w)"
    by (simp add: mapping_view_def omap_err_def activation_from_raw_parts_def access_simps field_zero demo_mapping_def mapping_ptr_def
        mapping_len_def ACT_SIZE_def ACT_ALIGN_def ACTIVATION_VERSION_def)
  moreover obtain w' where "fail_session (demo_session\<lparr>cs_state := CycleClaimed\<rparr>, ?w) = (Ok (), demo_session\<lparr>cs_state := Failed\<rparr>, w')"
    using fail_session_result [of "demo_session\<lparr>cs_state := CycleClaimed\<rparr>" ?w] by auto
  ultimately show ?thesis
    by (auto simp: session_step_def on_wake_with_finish_def gets_def modifys_def on_snd_def on_failure_def claim_and_finish_def
        demo_session_def demo_transport_def obind_def)
qed

lemma demo_restarts:
  "\<exists>w'. apply_session (SetActiveCmd True) (demo_session\<lparr>cs_state := Failed\<rparr>, demo_world) = (Ok Applied, demo_session, w')"
  using demo_start
  by (simp add: session_ops apply_set_active_def ensure_running_def demo_world_def demo_session_def)

section \<open>A pool\<close>

definition demo_entry :: memory_entry where
  "demo_entry = \<lparr>me_key = \<lparr>mk_id = 3, mk_generation = 1\<rparr>, me_backing = demo_backing 7, me_kind = Kind_MemFd, me_flags = 0,
     me_file_len = 8192, me_fd = 10\<rparr>"

definition demo_pool :: memory_pool where
  "demo_pool = \<lparr>pool_next_generation = 2, pool_live = [(3, demo_entry)], pool_shrink_policy = RequireSealed, pool_disconnected = False\<rparr>"

lemma demo_pool_add: "foldl pool_step (pool_new RequireSealed) [Op_add 3 2 0 10 demo_world] = demo_pool"
proof -
  have "enum_try_from data_type_variants 2 = Some DT_MemFd"
    by (simp add: enum_try_from_def data_type_values)
  moreover have "file_identity 10 demo_world = (Ok (8192, demo_backing 7), demo_world)"
    by (simp add: file_identity_def omap_err_def sys_fstat_def syscall_def Let_def demo_world_def demo_at_def demo_core_def
        usize_try_from_i64_def)
  moreover have seals: "read_seal_status 10 demo_world = (Ok (Available 2), demo_world)"
    by (simp add: read_seal_status_def sys_get_seals_def syscall_def Let_def demo_world_def demo_at_def demo_core_def)
  moreover have "prevents_shrink (w_libc demo_world) (Available 2)"
    by (simp add: prevents_shrink_def demo_world_def demo_libc_def)
  ultimately show ?thesis
    by (simp add: seals pool_step_def pool_add_def pool_new_def oget_def omap_err_def on_snd_def get_libc_def omodify_def Let_def obind_def
        checked_add_usize_def usize_limit_def hm_insert_def demo_pool_def demo_entry_def)
qed

lemma demo_pool_active: "pool_active demo_pool \<lparr>mk_id = 3, mk_generation = 1\<rparr> = Ok demo_entry"
  by (simp add: pool_active_def demo_pool_def demo_entry_def)

lemma demo_pool_remove: "active_keys (foldl pool_step demo_pool [Op_remove 3]) = []"
  by (simp add: pool_step_def pool_remove_def demo_pool_def active_keys_def hm_remove_filter)

section \<open>A contended counter\<close>

definition demo_contended :: world where
  "demo_contended = (demo_at (put32 (mapping_ptr (demo_mapping 0 2312)) STATE0_PENDING 3 demo_mem))
     \<lparr>w_script := [foreign_decrement (mapping_ptr (demo_mapping 0 2312))]\<rparr>"

end
