(* ===== verification/Node_Claims.thy ===== *)
theory Node_Claims
  imports Node_Demo
begin

text \<open>
  The properties of the output node: the session and its generations, the audio cycle, the memory
  pool, the activation record and the conversions of server messages.
\<close>

section \<open>Helper lemmas\<close>

lemma disconnect_session:
  "valid alive (apply_session Disconnect) (\<lambda>r sw. r = Applied \<and> ended (fst sw)) (\<lambda>_ _. False)"
  unfolding apply_session_def refresh_state_def apply_command_def session_command.case
  by (rule valid_pre, (rule wp wp_triple [OF disconnect_ends])+)
    (auto simp: ended_def live_def empty_session_def is_ready_def)

lemma ended_operations:
  assumes "ended s"
  shows "apply_session c (s, w) = (if c = Disconnect then Ok AlreadyDisconnected else Err Session_disconnected, s, w)"
    and "on_wake_with_finish g a f cb (s, w) = (Err (NotReady STR ''transport''), s, w)"
  using assms
  by (simp_all add: ended_def empty_session_def apply_session_def on_wake_with_finish_def gets_def obind_def)

lemma disconnect_resting: "resting s \<Longrightarrow> ended (session_step s (Apply Disconnect w))"
  using validD [OF disconnect_session, of "(s, w)"] ended_operations(1) [of s Disconnect w]
  by (cases "fst (apply_session Disconnect (s, w))") (auto simp: resting_iff session_step_def ends_def split: prod.splits)

lemma run_newer: "newer s (foldl session_step s xs)"
proof (induction xs arbitrary: s)
  case Nil
  then show ?case
    by (simp add: newer_def)
next
  case (Cons x xs)
  with session_step_newer [of s x] show ?case
    by (auto simp: newer_def) (meson le_trans)+
qed

lemma superseded_wake:
  assumes "superseded g s"
  shows "on_wake_with_finish g a f cb (s, w) =
    (case cs_transport s of None \<Rightarrow> Err (NotReady STR ''transport'') | Some t \<Rightarrow> Ok (Stale (tg_id t) g), s, w)"
  using assms by (auto simp: superseded_def on_wake_with_finish_def gets_def obind_def split: option.splits)

lemma resting_generation: "resting s \<Longrightarrow> cs_transport s = Some t \<Longrightarrow> tg_id t < cs_next_generation s"
  by (simp add: resting_def session_inv_def generations_ok_def generations_def)

lemma settle_free:
  "framed (stays_free k) (othen refresh_state
    (obind (gets (\<lambda>s. cs_active_requested s \<and> cs_command s = NC_Start \<and> is_ready s)) (\<lambda>run.
     othen (if run then ensure_running else oreturn ()) (oreturn outcome))))"
  unfolding refresh_state_def by (intro frames stays_free_same) simp_all

lemma remove_memory_session:
  assumes "resting s" and "apply_session (RemoveMemory k) (s, w) = (Ok r, sw')"
  shows "free_of k (fst sw')"
proof -
  have "live s"
    using assms by (auto simp: resting_iff ended_operations)
  then have st: "cs_state s \<noteq> Disconnected" "cs_state s \<noteq> CycleClaimed"
    by (simp_all add: live_def)
  obtain r1 sw1 where cmd: "apply_remove_memory k (s, w) = (Ok r1, sw1)"
    and rest: "(othen refresh_state
      (obind (gets (\<lambda>s. cs_active_requested s \<and> cs_command s = NC_Start \<and> is_ready s)) (\<lambda>run.
       othen (if run then ensure_running else oreturn ()) (oreturn r1)))) sw1 = (Ok r, sw')"
    using assms(2) st by (auto simp: apply_session_def apply_command_def obind_eq_Ok_iff gets_def)
  have "free_of k (fst sw1)"
    using validD [OF remove_memory_releases, of "(s, w)" k] \<open>live s\<close> cmd by simp
  with framedD [OF settle_free rest, of k] show ?thesis
    by (simp add: stays_free_def)
qed

lemma after_claim_triggers:
  assumes "trigger_all (cs_peers s) fin w = (r, w2)"
  shows "case r of
      Ok _ \<Rightarrow> after_claim n (Finished_completion (Ok (Some p)) fin) (s, w) =
        (Ok (Processed n (saturating_pred n) True), s\<lparr>cs_state := Running\<rparr>, w2)
    | Err e \<Rightarrow> (\<exists>w3. after_claim n (Finished_completion (Ok (Some p)) fin) (s, w) = (Err e, s\<lparr>cs_state := Failed\<rparr>, w3))
    | Panic \<Rightarrow> False"
proof (cases r)
  case (Ok u)
  with assms show ?thesis
    by (simp add: after_claim_def gets_def modifys_def on_failure_def on_snd_def)
next
  case (Err e)
  with assms fail_session_result [of s w2] show ?thesis
    by (auto simp: after_claim_def gets_def on_failure_def on_snd_def obind_def)
next
  case Panic
  with assms total_trigger_all [of "cs_peers s" fin] show ?thesis
    unfolding total_op_def by (metis fst_conv)
qed

lemma claim_other_callback:
  assumes "claim_and_finish t a f p w = (Ok NotClaimed_completion, w')"
  shows "claim_and_finish t a f q w = (Ok NotClaimed_completion, w')"
proof -
  obtain v w1 where v: "mapping_view (tg_activation t) w = (Ok v, w1)"
    using assms by (auto simp: claim_and_finish_def obind_eq_Ok_iff)
  obtain r w2 where r: "claim_cycle v a w1 = (r, w2)"
    by (cases "claim_cycle v a w1")
  with assms v show ?thesis
    by (cases r)
      (auto simp: claim_and_finish_def obind_def split: prod.splits result.splits activation_error.splits activation_status.splits)
qed

lemma after_claim_unprocessed:
  assumes "after_claim d completion sw = (Ok outcome, sw')" and "\<And>d c p. outcome \<noteq> Processed d c p"
  shows "completion = NotClaimed_completion"
  using assms unfolding after_claim_def
  by (auto simp: obind_eq_Ok_iff gets_def modifys_def split: claim_completion.splits result.splits)

lemma active_generation: "pool_ok pool \<Longrightarrow> pool_active pool mkey = Ok entry \<Longrightarrow> mk_generation mkey < pool_next_generation pool"
  by (auto simp: pool_active_def ok_simps pool_ok_def list_all_iff entry_ok_def dest!: map_of_SomeD split: if_splits)

lemma pool_step_generation: "pool_next_generation pool \<le> pool_next_generation (pool_step pool x)"
proof (cases x)
  case (Op_add mid t mflags fd w)
  then show ?thesis
    by (cases rule: pool_add_cases [of mid t mflags fd pool w]) (auto simp: pool_step_def add_post_def)
qed (simp_all add: pool_step_def pool_remove_generation pool_clear_def pool_disconnect_def)

lemma run_generation: "pool_next_generation pool \<le> pool_next_generation (foldl pool_step pool xs)"
  by (induction xs arbitrary: pool) (simp_all, meson le_trans pool_step_generation)

section \<open>Sessions\<close>

text \<open>
  C2. Whatever commands and wakes a session has been through, in whatever states of the rest of the
  world: the memory regions it has mapped (activation, port IO, chunks, media, peers) do not
  overlap, generation numbers are unique and older than the next one, the peers bound and pending
  are at most 64, a running session has a transport, a format and an output, a disconnected one
  holds nothing, and the next operation does not panic.
\<close>

theorem session_safety:
  "let s = foldl session_step session_new ops in
    no_overlaps (all_intervals s) \<and>
    distinct (generations s) \<and> list_all (\<lambda>g. g < cs_next_generation s) (generations s) \<and>
    card (keys (cs_peers s) \<union> keys (cs_pending_peers s)) \<le> MAX_SESSION_PEERS \<and>
    (cs_state s = Running \<longrightarrow> is_ready s) \<and> (cs_state s = Disconnected \<longrightarrow> empty_session s) \<and>
    cs_state s \<noteq> CycleClaimed \<and> \<not> session_panics s x"
proof -
  have r: "resting (foldl session_step session_new ops)"
    by (rule run_resting)
  with session_step_resting(2) [OF r] show ?thesis
    by (simp add: Let_def resting_def session_inv_def generations_ok_def peers_ok_def state_ok_def)
qed

theorem session_safety_witness:
  "cs_state demo_session = Running \<and> is_ready demo_session \<and> no_overlaps (all_intervals demo_session) \<and>
   \<not> session_panics demo_session (Apply Disconnect demo_world)"
proof -
  have "cs_state demo_session = Running"
    by (simp add: demo_session_def)
  then show ?thesis
    using session_safety [of demo_ops "Apply Disconnect demo_world"] by (simp add: demo_run Let_def)
qed

text \<open>
  C7. Once a memory key has been removed from a session, nothing the session holds (its leases, the
  mappings of its transport, output and peers) belongs to that key, and nothing will again,
  whatever operations follow, unless the memory is announced anew under the same key.
\<close>

theorem removed_memory_released:
  assumes "s = foldl session_step session_new ops" and "apply_session (RemoveMemory k) (s, w) = (Ok r, s', w')"
    and "list_all (\<lambda>x. \<not> op_brings k x) later"
  shows "free_of k (foldl session_step s' later)"
proof -
  have "resting s"
    using assms(1) run_resting by simp
  moreover from this have "resting s'"
    using session_step_resting(1) [of s "Apply (RemoveMemory k) w"] assms(2) by (simp add: session_step_def)
  ultimately show ?thesis
    using release.terminal_run [of s' k later] remove_memory_session [of s k w r "(s', w')"] assms(2,3) by simp
qed

theorem removed_memory_released_witness:
  "free_of (lease_key demo_lease) (foldl session_step (session_step demo_session (Apply (RemoveMemory (lease_key demo_lease)) demo_world))
     [Apply (SetActiveCmd True) demo_world])"
proof -
  obtain w' where rm: "apply_session (RemoveMemory (lease_key demo_lease)) (demo_session, demo_world) = (Ok Applied, demo_removed, w')"
    using demo_remove by blast
  have "list_all (\<lambda>x. \<not> op_brings (lease_key demo_lease) x) [Apply (SetActiveCmd True) demo_world]"
    by (simp add: op_brings_def brings_def)
  from removed_memory_released [OF demo_run [symmetric] rm this] show ?thesis
    using rm by (simp add: session_step_def [of demo_session])
qed

text \<open>
  C8. A wake for a transport generation that has been replaced or dropped is refused: neither the
  session nor shared memory changes and the callback does not run, then and after any further
  operations, since generation numbers are never given out again.
\<close>

theorem stale_wakes_ignored:
  assumes "s = foldl session_step session_new ops" and "cs_transport s = Some t"
    and "s' = foldl session_step s next_ops" and "\<And>t'. cs_transport s' = Some t' \<Longrightarrow> tg_id t' \<noteq> tg_id t"
    and "s'' = foldl session_step s' later"
  shows "on_wake_with_finish (tg_id t) a f cb (s'', w) =
    (case cs_transport s'' of None \<Rightarrow> Err (NotReady STR ''transport'') | Some t' \<Rightarrow> Ok (Stale (tg_id t') (tg_id t)), s'', w)"
proof -
  have r: "resting s" "resting s'"
    using assms(1,3) run_resting [of ops] run_resting [of "ops @ next_ops"] by simp_all
  have "newer s s'"
    unfolding assms(3) by (rule run_newer)
  then have "superseded (tg_id t) s'"
    using resting_generation [OF r(1) assms(2)] assms(4) by (auto simp: superseded_def newer_def)
  then have "superseded (tg_id t) s''"
    unfolding assms(5) by (intro generation.terminal_run r(2)) (simp_all add: list_all_iff)
  then show ?thesis
    by (rule superseded_wake)
qed

theorem stale_wakes_ignored_witness:
  "on_wake_with_finish 1 0 None demo_callback (session_step demo_session (Apply Disconnect demo_world), demo_world) =
    (Err (NotReady STR ''transport''), session_step demo_session (Apply Disconnect demo_world), demo_world)"
proof -
  let ?s = "session_step demo_session (Apply Disconnect demo_world)"
  have gone: "cs_transport ?s = None"
    using disconnect_resting [OF run_resting [of demo_ops, unfolded demo_run]] by (simp add: ended_def empty_session_def)
  have "cs_transport demo_session = Some demo_transport" "tg_id demo_transport = 1"
    by (simp_all add: demo_session_def demo_transport_def)
  then show ?thesis
    using stale_wakes_ignored [OF demo_run [symmetric], of demo_transport ?s "[Apply Disconnect demo_world]" ?s "[]"] gone by simp
qed

text \<open>
  C16. Disconnecting always succeeds and is final: the session holds no memory, transport, output or
  peer, no later operation changes it, every later command fails with the disconnected error
  (a repeated disconnect reports that it was done already) and every later wake is refused.
\<close>

theorem disconnect_final:
  assumes "s = foldl session_step session_new ops" and "s' = session_step s (Apply Disconnect w)"
  shows "fst (apply_session Disconnect (s, w)) \<in> {Ok Applied, Ok AlreadyDisconnected} \<and>
    cs_state s' = Disconnected \<and> empty_session s' \<and> foldl session_step s' later = s' \<and>
    apply_session c (s', w') = (if c = Disconnect then Ok AlreadyDisconnected else Err Session_disconnected, s', w') \<and>
    on_wake_with_finish g a f cb (s', w') = (Err (NotReady STR ''transport''), s', w')"
proof -
  have r: "resting s"
    using assms(1) run_resting by simp
  then have "fst (apply_session Disconnect (s, w)) \<in> {Ok Applied, Ok AlreadyDisconnected}"
    using validD [OF disconnect_session, of "(s, w)"] ended_operations(1) [of s Disconnect w]
    by (cases "fst (apply_session Disconnect (s, w))") (auto simp: resting_iff ends_def split: prod.splits)
  moreover have e: "ended s'"
    using disconnect_resting [OF r] assms(2) by simp
  moreover have "foldl session_step s' later = s'"
    using session_step_ended [OF e] by (induction later) simp_all
  ultimately show ?thesis
    using ended_operations [OF e] by (simp add: ended_def)
qed

theorem disconnect_final_witness:
  "empty_session (session_step demo_session (Apply Disconnect demo_world))"
  using disconnect_final [OF demo_run [symmetric] refl, of demo_world] by simp

section \<open>The audio cycle\<close>

text \<open>
  C3. A wake of a running session that nothing else disturbs, its mappings showing the files they
  were imported from, its node triggered and the port asking for data: the callback is offered the buffer the port names and its bytes end up in the
  media plane; the chunk, the port IO area and the activation record (result, times, finished
  status) are published; then the peers are triggered, which leaves all of that as it is. The wake
  reports the cycle and the session goes on running; if a peer cannot be triggered the wake reports
  that error and the session has failed.
\<close>

theorem undisturbed_cycle:
  assumes "s = foldl session_step session_new ops" and "cs_state s = Running"
    and "cs_transport s = Some t" and "cs_output s = Some og" and "list_all placed (session_mappings s)"
    and "w_script w = []" and "c_errno (w_core w) = None" and "\<not> c_short (w_core w)"
    and "c_counter (w_core w) (c_description (w_core w) (tg_trigger t)) = n" and "n \<noteq> 0"
    and "view_ok (mem w) (mapping_ptr (tg_activation t)) (mapping_len (tg_activation t))"
    and "act_status (mem w) (mapping_ptr (tg_activation t)) = status_u32 Triggered"
    and "selected (mem w) og c" and "list_all (chunk_valid (mem w)) (og_buffers og)"
    and "commits cb (mem w) c media co" and "length media = cycle_capacity c"
  shows "\<exists>w1 r w2. cycle_published t og c co media awake fin (mem w1) \<and> trigger_all (cs_peers s) fin w1 = (r, w2) \<and>
    cycle_published t og c co media awake fin (mem w2) \<and>
    (case r of
       Ok _ \<Rightarrow> on_wake_with_finish (tg_id t) awake (Some fin) cb (s, w) = (Ok (Processed n (n - 1) True), s, w2)
     | Err e \<Rightarrow> (\<exists>w3. on_wake_with_finish (tg_id t) awake (Some fin) cb (s, w) = (Err e, s\<lparr>cs_state := Failed\<rparr>, w3))
     | Panic \<Rightarrow> False)"
proof -
  have "resting s"
    using assms(1) run_resting by simp
  note r = session_regions [OF this assms(3-5)]
  let ?w1 = "set_mem (cycle_mem t og c co media awake fin (mem w)) (drained_world (tg_trigger t) w)"
  have len: "ACT_SIZE \<le> mapping_len (tg_activation t)"
    using assms(11) by (simp add: view_ok_def)
  have "co_buffer_id co = oc_buffer_id c"
    using assms(15) by (simp add: commits_def)
  then have pub: "cycle_published t og c co media awake fin (mem ?w1)"
    using cycle_mem_published [OF r(1) len assms(13,14) _ assms(16)] by simp
  obtain r w2 where tr: "trigger_all (cs_peers s) fin ?w1 = (r, w2)"
    by (cases "trigger_all (cs_peers s) fin ?w1")
  have "confined (map (pa_mapping \<circ> snd) (cs_peers s)) (trigger_all (cs_peers s) fin)"
    unfolding trigger_all_def by (rule confined_peers) auto
  from confinedD(2) [OF this _ tr] have "cycle_published t og c co media awake fin (mem w2)"
    using published_same [OF pub r(1) len assms(13,14)] r(2) assms(6) by simp
  moreover have "case r of
       Ok _ \<Rightarrow> on_wake_with_finish (tg_id t) awake (Some fin) cb (s, w) = (Ok (Processed n (n - 1) True), s, w2)
     | Err e \<Rightarrow> (\<exists>w3. on_wake_with_finish (tg_id t) awake (Some fin) cb (s, w) = (Err e, s\<lparr>cs_state := Failed\<rparr>, w3))
     | Panic \<Rightarrow> False"
    using after_claim_triggers [of "s\<lparr>cs_state := CycleClaimed\<rparr>" fin ?w1 r w2 n] tr assms(2,10)
      wake_quiet [OF assms(2-4,6-10) r(1) assms(11-15)]
    by (cases r) (simp_all add: saturating_pred_def)
  ultimately show ?thesis
    using pub tr by (intro exI [of _ ?w1] exI [of _ r] exI [of _ w2] conjI)
qed

theorem undisturbed_cycle_witness:
  "\<exists>w2. on_wake_with_finish 1 0 (Some 0) demo_callback (demo_session, demo_at demo_wake) = (Ok (Processed 1 0 True), demo_session, w2) \<and>
    cycle_published demo_transport demo_output demo_cycle demo_commit (replicate 64 1) 0 0 (mem w2)"
proof -
  have s: "cs_state demo_session = Running" "cs_transport demo_session = Some demo_transport" "cs_output demo_session = Some demo_output"
    "cs_peers demo_session = []" "tg_id demo_transport = 1" "tg_activation demo_transport = demo_mapping 0 2312"
    "og_buffers demo_output = [demo_buffer]"
    by (simp_all add: demo_session_def demo_transport_def demo_output_def)
  have w: "c_errno (w_core (demo_at demo_wake)) = None" "\<not> c_short (w_core (demo_at demo_wake))"
    "c_counter (w_core (demo_at demo_wake)) (c_description (w_core (demo_at demo_wake)) (tg_trigger demo_transport)) = 1"
    by (simp_all add: demo_at_def demo_core_def)
  show ?thesis
    using undisturbed_cycle [OF demo_run [symmetric] s(1-3) demo_placed _ w, of demo_cycle demo_callback "replicate 64 1" demo_commit 0 0]
      demo_wake_view demo_selected demo_wake_chunk demo_commits demo_capacity
    by (auto simp: s trigger_all_def)
qed

text \<open>
  C17. The application's callback runs only in a cycle that was claimed: a wake that reports anything
  else than a processed cycle (no wake pending, not running, a stale generation, a cycle not
  claimed) has the same outcome and the same effects whatever the callback is.
\<close>

theorem callback_only_in_claimed_cycle:
  assumes "on_wake_with_finish g a f cb (s, w) = (Ok outcome, s', w')" and "\<And>d c p. outcome \<noteq> Processed d c p"
  shows "on_wake_with_finish g a f cb' (s, w) = (Ok outcome, s', w')"
proof (cases "cs_transport s")
  case None
  with assms show ?thesis
    by (simp add: on_wake_with_finish_def gets_def obind_def)
next
  case (Some t)
  obtain r1 w1 where d: "tg_drain t w = (r1, w1)"
    by (cases "tg_drain t w")
  show ?thesis
  proof (cases "g = tg_id t \<and> cs_state s = Running \<and> (\<exists>d. r1 = Ok d)")
    case True
    then obtain n where n: "r1 = Ok n" "g = tg_id t" "cs_state s = Running"
      by blast
    obtain og where og: "cs_output s = Some og"
      using assms(1) Some d n by (cases "cs_output s") (auto simp: on_wake_with_finish_def gets_def modifys_def obind_def on_snd_def)
    let ?s = "s\<lparr>cs_state := CycleClaimed\<rparr>"
    have eq: "on_wake_with_finish g a f x (s, w) =
        obind (on_failure (on_snd (claim_and_finish t a f (output_process og x))) fail_session) (after_claim n) (?s, w1)" for x
      using Some d n og by (simp add: on_wake_with_finish_def gets_def modifys_def on_snd_def)
    obtain c sw2 where c: "on_failure (on_snd (claim_and_finish t a f (output_process og cb))) fail_session (?s, w1) = (Ok c, sw2)"
        "after_claim n c sw2 = (Ok outcome, s', w')"
      using assms(1) unfolding eq obind_eq_Ok_iff by blast
    then have "c = NotClaimed_completion"
      using after_claim_unprocessed assms(2) by blast
    with c(1) have "claim_and_finish t a f (output_process og cb) w1 = (Ok NotClaimed_completion, snd sw2)" "sw2 = (?s, snd sw2)"
      by (auto simp: on_failure_def on_snd_def obind_eq_Ok_iff split: prod.splits result.splits)
    then have "on_failure (on_snd (claim_and_finish t a f (output_process og cb'))) fail_session (?s, w1) = (Ok NotClaimed_completion, sw2)"
      using claim_other_callback [of t a f "output_process og cb" w1 "snd sw2" "output_process og cb'"]
      by (simp add: on_failure_def on_snd_def)
    with c(2) \<open>c = NotClaimed_completion\<close> show ?thesis
      unfolding eq obind_eq_Ok_iff by blast
  next
    case False
    with assms(1) Some d show ?thesis
      by (cases r1) (auto simp: on_wake_with_finish_def gets_def on_snd_def obind_def split: if_splits session_error.splits)
  qed
qed

theorem callback_only_in_claimed_cycle_witness:
  "on_wake_with_finish 1 0 None demo_callback (demo_session, demo_world) =
   on_wake_with_finish 1 0 None (\<lambda>c media. (media, Callback_panics)) (demo_session, demo_world)"
proof -
  obtain w' where "on_wake_with_finish 1 0 None demo_callback (demo_session, demo_world) = (Ok (NotClaimed 1 0), demo_session, w')"
    using demo_unclaimed by blast
  with callback_only_in_claimed_cycle [OF this] show ?thesis
    by simp
qed

text \<open>
  C39. A failed session is not final: once it is asked to run again with its configuration still
  complete, a successful command takes it back to the running state.
\<close>

theorem failed_session_restarts:
  assumes "s = foldl session_step session_new ops" and "cs_state s = Failed" and "is_ready s" and "cs_command s = NC_Start"
    and "apply_session (SetActiveCmd True) (s, w) = (Ok r, s', w')"
  shows "cs_state s' = Running"
proof -
  have "valid (\<lambda>sw. fst sw = s) (apply_session (SetActiveCmd True)) (\<lambda>_ sw. cs_state (fst sw) = Running) (\<lambda>_ _. True)"
    unfolding apply_session_def apply_command_def session_command.case apply_set_active_def refresh_state_def
    by (rule valid_pre, (rule wp)+) (use assms(2-4) in \<open>auto simp: is_ready_def\<close>)
  from valid_Ok [OF this _ assms(5)] show ?thesis
    by simp
qed

theorem failed_session_restarts_witness:
  "cs_state (session_step (demo_session\<lparr>cs_state := Failed\<rparr>) (Apply (SetActiveCmd True) demo_world)) = Running"
proof -
  obtain w' where run: "apply_session (SetActiveCmd True) (demo_session\<lparr>cs_state := Failed\<rparr>, demo_world) = (Ok Applied, demo_session, w')"
    using demo_restarts by blast
  have reached: "demo_session\<lparr>cs_state := Failed\<rparr> =
      foldl session_step session_new (demo_ops @ [Wake 1 0 None demo_callback (demo_at (\<lambda>_ _. 0))])"
    unfolding foldl_append demo_run foldl.simps demo_fails ..
  have "cs_state (demo_session\<lparr>cs_state := Failed\<rparr>) = Failed" "is_ready (demo_session\<lparr>cs_state := Failed\<rparr>)"
    "cs_command (demo_session\<lparr>cs_state := Failed\<rparr>) = NC_Start"
    by (simp_all add: is_ready_def demo_session_def)
  then have "cs_state demo_session = Running"
    by (rule failed_session_restarts [OF reached _ _ _ run])
  with run show ?thesis
    by (simp add: session_step_def)
qed

section \<open>Memory\<close>


text \<open>
  C14. A memory key that has been retired from the pool (removed, cleared or lost by a disconnect)
  stays retired whatever is added or removed afterwards, also under the same memory number:
  looking it up, mapping it and leasing it fail for ever. Keys are never given out twice.
\<close>

theorem retired_key_stays_retired:
  assumes "pool = foldl pool_step (pool_new policy) ops" and "pool_active pool mkey = Ok entry"
    and "pool' = foldl pool_step pool next_ops" and "mkey \<notin> set (active_keys pool')"
    and "pool'' = foldl pool_step pool' later"
  shows "\<exists>e. pool_active pool'' mkey = Err e \<and> pool_map pool'' mkey offset len writable w = (Err e, w)"
proof -
  have ok: "pool_ok pool" "pool_ok pool'" "pool_ok pool''"
    using assms(1,3,5) retirement.inv_run [OF pool_new_ok, of _ policy] retirement.inv_run [of _ next_ops] retirement.inv_run [of _ later]
    by (simp_all add: list_all_iff)
  have "mk_generation mkey < pool_next_generation pool"
    using active_generation [OF ok(1) assms(2)] .
  then have "retired mkey pool'"
    using run_generation [of pool next_ops] assms(3,4) ok(1) by (simp add: retired_def)
  then have "retired mkey pool''"
    unfolding assms(5) using ok(2) by (intro retirement.terminal_run) (simp_all add: list_all_iff)
  then obtain e where "pool_active pool'' mkey = Err e"
    using retired_active [OF ok(3)] by blast
  then show ?thesis
    by (simp add: pool_map_def obind_def)
qed

theorem retired_key_stays_retired_witness:
  "\<exists>e. pool_active (foldl pool_step (foldl pool_step demo_pool [Op_remove 3]) [Op_add 3 2 0 10 demo_world])
     \<lparr>mk_id = 3, mk_generation = 1\<rparr> = Err e"
  using retired_key_stays_retired [OF demo_pool_add [symmetric] demo_pool_active refl _ refl, of "[Op_remove 3]"] demo_pool_remove
  by fastforce

section \<open>Activation\<close>

text \<open>
  C13. Counting down the pending inputs of a peer is exact under concurrency: with \<open>k\<close> decrements by
  other processes still to come, interleaved in any way with the retries of the compare-and-swap
  loop, the loop ends, takes exactly one from the counter, and returns the value it replaced.
\<close>

theorem concurrent_decrement_exact:
  assumes "decrements view (w_script w) k" and "k < pending_nat w view" and "pending_nat w view < 2 ^ 31" and "0 < sint current"
  shows "\<exists>k' w'. decrement_pending view current w = (Ok (act_pending (mem w') view + 1), w') \<and>
    decrements view (w_script w') k' \<and> k' \<le> k \<and> pending_nat w' view + 1 + (k - k') = pending_nat w view"
  by (rule decrement_concurrent [OF assms])

theorem concurrent_decrement_exact_witness:
  "\<exists>k' w'. decrement_pending (mapping_ptr (demo_mapping 0 2312)) 3 demo_contended =
      (Ok (act_pending (mem w') (mapping_ptr (demo_mapping 0 2312)) + 1), w') \<and>
    k' \<le> 1 \<and> pending_nat w' (mapping_ptr (demo_mapping 0 2312)) + 1 + (1 - k') = 3"
proof -
  let ?view = "mapping_ptr (demo_mapping 0 2312)"
  have "decrements ?view (w_script demo_contended) (Suc 0)"
    by (simp add: demo_contended_def decrements.intros)
  moreover have "pending_nat demo_contended ?view = 3"
    by (simp add: pending_nat_def demo_contended_def act_pending_def)
  ultimately show ?thesis
    using concurrent_decrement_exact [of ?view demo_contended "Suc 0" 3] by auto
qed

section \<open>Messages of the server\<close>


text \<open>
  C19. A buffer message of any content is either refused or becomes a bounded set of buffers for the
  output port, as many as were sent, whose regions are non-empty. A region is refused exactly when
  it is empty: the sum of its 32-bit offset and size cannot overflow. Nothing panics.
\<close>

theorem wire_buffers_checked:
  "(case buffer_set_try_from v of
      Ok b \<Rightarrow> buffer_set_ok b \<and> length (bs_buffers b) = length (ub_buffers v)
    | Err _ \<Rightarrow> True
    | Panic \<Rightarrow> False) \<and>
   (case region_try_from r of
      Ok m \<Rightarrow> rr_size r \<noteq> 0 \<and> mem_memory m = rr_memory_id r \<and> mem_offset m = unat (rr_offset r) \<and> mem_len m = unat (rr_size r)
    | Err _ \<Rightarrow> rr_size r = 0
    | Panic \<Rightarrow> False)"
  using buffer_set_try_from_Ok [of v] try_from_total(2) [of v] region_try_from_Ok [of r] region_try_from_iff [of r] region_try_from_total [of r]
  by (cases "buffer_set_try_from v"; cases "region_try_from r") simp_all

end
