(* ===== verification/Memory_Registry.thy ===== *)
theory Memory_Registry
  imports Node_Memory
begin

text \<open>
  The registry of announced memory (\<^verbatim>\<open>node/src/shm/registry.rs\<close>): descriptors by memory number, and
  mappings of what is registered.
\<close>

record memory_registry =
  rg_memory :: "(u32, raw_fd) amap"

datatype registry_error = Not_registered u32 | Map_failed sys_error

definition registry_insert :: "u32 \<Rightarrow> raw_fd \<Rightarrow> memory_registry \<Rightarrow> raw_fd option \<times> memory_registry" where
  "registry_insert i fd r = (map_of (rg_memory r) i, r\<lparr>rg_memory := hm_insert i fd (rg_memory r)\<rparr>)"

definition registry_remove :: "u32 \<Rightarrow> memory_registry \<Rightarrow> raw_fd option \<times> memory_registry" where
  "registry_remove i r = (map_of (rg_memory r) i, r\<lparr>rg_memory := hm_remove i (rg_memory r)\<rparr>)"

definition registry_contains :: "memory_registry \<Rightarrow> u32 \<Rightarrow> bool" where
  "registry_contains r i \<longleftrightarrow> map_of (rg_memory r) i \<noteq> None"

definition map_with_policy ::
    "memory_registry \<Rightarrow> u32 \<Rightarrow> nat \<Rightarrow> nat \<Rightarrow> bool \<Rightarrow> shrink_policy \<Rightarrow> (world, mapped_region, registry_error) op" where
  "map_with_policy r i offset len writable policy =
     obind (olift (ok_or (map_of (rg_memory r) i) (Not_registered i))) (\<lambda>fd.
     omap_err Map_failed (map_shared_with_policy fd offset len writable policy))"

definition registry_map :: "memory_registry \<Rightarrow> u32 \<Rightarrow> nat \<Rightarrow> nat \<Rightarrow> bool \<Rightarrow> (world, mapped_region, registry_error) op" where
  "registry_map r i offset len writable = map_with_policy r i offset len writable Allow"

lemma registry_total: "total_op (map_with_policy r i offset len writable policy)"
  unfolding map_with_policy_def by (intro total_intros) simp

lemma registry_map_exact:
  assumes "map_with_policy r i offset len writable policy w = (Ok m, w')"
  shows "registry_contains r i" and "mr_len m = len" and "mp_offset (mr_ptr m) = offset"
proof -
  obtain fd where "map_of (rg_memory r) i = Some fd" "map_shared_with_policy fd offset len writable policy w = (Ok m, w')"
    using assms by (auto simp: map_with_policy_def obind_eq_Ok_iff ok_simps omap_err_eq_Ok_iff)
  then show "registry_contains r i" "mr_len m = len" "mp_offset (mr_ptr m) = offset"
    by (auto simp: registry_contains_def dest: map_shared_with_policy_Ok)
qed

lemma registry_replaced:
  assumes "hm_wf (rg_memory r)"
  shows "map_with_policy (snd (registry_insert i fd r)) i offset len writable policy =
      omap_err Map_failed (map_shared_with_policy fd offset len writable policy)"
    and "map_with_policy (snd (registry_remove i r)) i offset len writable policy w = (Err (Not_registered i), w)"
  using assms
  by (auto simp: map_with_policy_def registry_insert_def registry_remove_def hm.get_ins hm.get_del obind_def fun_eq_iff)

end
