(* ===== verification/Client_Marshal.thy ===== *)
theory Client_Marshal
  imports Client_Node_Codec
begin

text \<open>
  Lists of pairs in the messages of the client library (\<^verbatim>\<open>PairList\<close> of
  \<^verbatim>\<open>pipewire/src/protocol/marshal/mod.rs\<close>): a struct of a count and as many keys and values.
\<close>

section \<open>Model\<close>

text \<open>
  \<open>Vec::with_capacity\<close> panics where the bytes of the elements exceed the largest allocation; the
  size of an element is a parameter. An allocator that has no memory left aborts the process, which
  is not modelled.
\<close>

definition vec_with_capacity :: "nat \<Rightarrow> nat \<Rightarrow> unit pod_result" where
  "vec_with_capacity elem_size n = (if n * elem_size > 2 ^ 63 - 1 then Panic else Ok ())"

definition push_pair :: "('k, 'a) pod \<Rightarrow> ('v, 'b) pod \<Rightarrow> 'k \<times> 'v \<Rightarrow> push" where
  "push_pair K V item = push_chain [push_pod K (fst item), push_pod V (snd item)]"

definition pair_list_encode :: "('k, 'a) pod \<Rightarrow> ('v, 'b) pod \<Rightarrow> ('k \<times> 'v) list \<Rightarrow> byte list \<Rightarrow> (byte list \<times> nat) pod_result" where
  "pair_list_encode K V items data =
     rbind (push_struct (push_chain [push_int (of_nat (length items)), push_all (push_pair K V) items]) (builder_new data)) (\<lambda>b.
     rbind (build b) (\<lambda>out. Ok (b_data b, length out)))"

definition pop_pair :: "('k, 'a) pod \<Rightarrow> ('v, 'b) pod \<Rightarrow> ('a \<times> 'b) parse" where
  "pop_pair K V = pbind (pop_pod K) (\<lambda>k. pbind (pop_pod V) (\<lambda>v. preturn (k, v)))"

text \<open>The cast of the signed count to \<open>usize\<close> extends its sign; the range of the loop does not.\<close>

definition pop_pairs :: "nat \<Rightarrow> ('k, 'a) pod \<Rightarrow> ('v, 'b) pod \<Rightarrow> ('a \<times> 'b) list parse" where
  "pop_pairs elem_size K V =
     pbind pop_int (\<lambda>n_items.
     pbind (lift_result (vec_with_capacity elem_size (unat (scast n_items :: u64)))) (\<lambda>_.
     pop_n (nat (sint n_items)) (pop_pair K V)))"

definition pair_list_decode :: "nat \<Rightarrow> ('k, 'a) pod \<Rightarrow> ('v, 'b) pod \<Rightarrow> byte list \<Rightarrow> (('a \<times> 'b) list \<times> nat) pod_result" where
  "pair_list_decode elem_size K V data = fst (pop_struct (pop_pairs elem_size K V) (parser_new data))"

text \<open>Two strings take 48 bytes.\<close>

definition string_pairs_decode :: "byte list \<Rightarrow> ((byte list \<times> byte list) list \<times> nat) pod_result" where
  "string_pairs_decode = pair_list_decode 48 pod_string pod_string"

section \<open>Counts\<close>

lemma sint_i32_bounds: "- (2 ^ 31) \<le> sint n" "sint n < 2 ^ 31" for n :: i32
  using sint_ge [of n] sint_lt [of n] by simp_all

lemma capacity_panics: "vec_with_capacity 48 (unat (scast n :: u64)) = (if sint n < 0 then Panic else Ok ())"
  for n :: i32
proof -
  have u: "uint (scast n :: u64) = sint n mod 2 ^ 64"
    by (simp only: scast_eq uint_word_of_int) simp
  show ?thesis
  proof (cases "sint n < 0")
    case True
    have "(sint n + 1 * 2 ^ 64) mod 2 ^ 64 = sint n + 2 ^ 64"
      using True sint_i32_bounds(1) [of n] by (subst mod_pos_pos_trivial) simp_all
    then have "int (unat (scast n :: u64)) = sint n + 2 ^ 64"
      using u by simp
    then have "int (2 ^ 63) \<le> int (unat (scast n :: u64))"
      using sint_i32_bounds(1) [of n] by simp
    then have "2 ^ 63 \<le> unat (scast n :: u64)"
      by (simp only: of_nat_le_iff)
    with True show ?thesis
      by (simp add: vec_with_capacity_def)
  next
    case False
    then have "int (unat (scast n :: u64)) = sint n"
      using u sint_i32_bounds(2) [of n] by (simp add: mod_pos_pos_trivial)
    then have "int (unat (scast n :: u64)) < int (2 ^ 31)"
      using sint_i32_bounds(2) [of n] by simp
    then have "unat (scast n :: u64) < 2 ^ 31"
      by (simp only: of_nat_less_iff)
    with False show ?thesis
      by (simp add: vec_with_capacity_def)
  qed
qed

section \<open>Round trip\<close>

lemma codes_string_pairs:
  assumes "list_all pair_ok items" and "length items < 2 ^ 31"
  shows "codes t (push_chain [push_int (of_nat (length items)), push_all (push_pair pod_string pod_string) items])
    (pop_pairs 48 pod_string pod_string) items (16 + sum_list (map pair_size items))"
proof -
  have pair: "codes t (push_pair pod_string pod_string kv) (pop_pair pod_string pod_string) kv (pair_size kv)" if "pair_ok kv" for kv
    using codes_pair [OF that, of t]
    by (simp only: push_pair_def pop_pair_def push_property_pair_def pop_property_pair_def push_string_def pop_string_def)
  have n: "sint (of_nat (length items) :: i32) = int (length items)"
    using assms(2) sint_small [of "of_nat (length items)"] by (simp add: unat_of_nat_u32)
  have all: "codes t (push_all (push_pair pod_string pod_string) items) (pop_n (length items) (pop_pair pod_string pod_string)) items
      (sum_list (map pair_size items))"
    using codes_all [of items t "push_pair pod_string pod_string" "pop_pair pod_string pod_string" "\<lambda>x. x" pair_size] pair assms(1)
    by (simp add: list_all_iff)
  show ?thesis
    unfolding pop_pairs_def chain_simps push_seq_nothing
    by (rule step_int, rule codes_check) (simp_all add: capacity_panics n all)
qed

section \<open>Property\<close>

text \<open>
  C24. Decoding a list of string pairs from any bytes panics in exactly one case: the message is a
  struct whose first field is a negative count. The count is cast to a size before the loop, and
  the capacity it asks for overflows. All other bytes give a list or an error.
\<close>

theorem string_pairs_panic:
  "string_pairs_decode data = Panic \<longleftrightarrow>
    (\<exists>total body n p. struct_header (parser_new data) = Ok (total, body) \<and> pop_int (parser_new body) = (Ok n, p) \<and> sint n < 0)"
proof -
  have safe: "parse_safe (pop_n k (pop_pair pod_string pod_string))" for k
    unfolding pop_pair_def by (intro safe_intros string.safe_pop_pod) simp
  have pairs: "fst (pop_pairs 48 pod_string pod_string (parser_new body)) = Panic \<longleftrightarrow>
      (\<exists>n p. pop_int (parser_new body) = (Ok n, p) \<and> sint n < 0)" for body
  proof -
    have "stays (parser_new body) (pop_int (parser_new body))"
      by (rule parse_safeD) (simp_all add: safe_intros)
    then obtain r p where p: "pop_int (parser_new body) = (r, p)" "r \<noteq> Panic" "parser_wf p"
      by (auto simp: stays_def)
    show ?thesis
    proof (cases r)
      case (Ok n)
      have "fst (pop_n (nat (sint n)) (pop_pair pod_string pod_string) p) \<noteq> Panic"
        using parse_safeD [OF safe p(3), of "nat (sint n)"] by (auto simp: stays_def)
      with Ok p(1) show ?thesis
        by (simp add: pop_pairs_def pbind_def capacity_panics lift_result_def)
    qed (use p in \<open>simp_all add: pop_pairs_def pbind_def\<close>)
  qed
  show ?thesis
  proof (cases "struct_header (parser_new data)")
    case (Ok x)
    obtain total body where x: "x = (total, body)"
      by (cases x)
    show ?thesis
      using pairs [of body] Ok x
      by (cases "fst (pop_pairs 48 pod_string pod_string (parser_new body))")
        (simp_all add: string_pairs_decode_def pair_list_decode_def pop_struct_def pbind_def lift_result_def advance_def)
  next
    case Panic
    then show ?thesis
      using struct_header_total [of "parser_new data"] by simp
  qed (simp add: string_pairs_decode_def pair_list_decode_def pop_struct_def pbind_def lift_result_def)
qed

text \<open>A message of 24 bytes with the count -1.\<close>

theorem string_pairs_panic_witness:
  "string_pairs_decode (u32_bytes 16 @ u32_bytes (type_u32 Type_Struct) @ u32_bytes 4 @ u32_bytes (type_u32 Type_Int) @
     u32_bytes (- 1) @ [0, 0, 0, 0]) = Panic"
proof -
  let ?body = "u32_bytes 4 @ u32_bytes (type_u32 Type_Int) @ u32_bytes (- 1 :: u32) @ [0, 0, 0, 0]"
  have zeros: "replicate 4 0 = [0, 0, 0, 0 :: byte]"
    by (simp add: numeral_eq_Suc)
  have "struct_header (parser_new (u32_bytes 16 @ u32_bytes (type_u32 Type_Struct) @ ?body)) = Ok (24, ?body)"
    by (simp add: struct_header_def available_def parser_new_def u32_at_def subslice_def pod_total_size_u32 [of 16, simplified])
  moreover have "\<exists>p. pop_int (parser_new ?body) = (Ok (- 1), p)"
    using parses_start [OF i32.as_pod.parses_pop_pod [of "- 1"], of ?body]
    by (simp add: pop_int_def prim_image_def prim_i32_def usize_limit_def pad_8_def zeros)
  ultimately show ?thesis
    unfolding string_pairs_panic by fastforce
qed

end
