(* ===== verification/Client_Properties.thy ===== *)
theory Client_Properties
  imports Prelude Rust_Maps
begin

text \<open>
  Properties of clients and objects (\<^verbatim>\<open>pipewire/src/properties.rs\<close>) and the dictionaries they are
  handed over as (\<^verbatim>\<open>spa/src/dict.rs\<close>). Strings are their UTF-8 bytes. The JSON parser is the crate
  \<^verbatim>\<open>tinyjson\<close>, a parameter of the operations that use it.
\<close>

section \<open>Strings\<close>

type_synonym str = "byte list"

definition atob :: "str \<Rightarrow> bool" where
  "atob s \<longleftrightarrow> s = [0x74, 0x72, 0x75, 0x65] \<or> s = [0x31]"

text \<open>
  Parsing of integers by the standard library: an optional sign (a minus for signed types only),
  then at least one digit, and the value in range.
\<close>

definition is_digit :: "byte \<Rightarrow> bool" where
  "is_digit b \<longleftrightarrow> 0x30 \<le> b \<and> b \<le> 0x39"

definition digits_value :: "byte list \<Rightarrow> nat" where
  "digits_value bs = foldl (\<lambda>n b. 10 * n + (unat b - 0x30)) 0 bs"

definition parse_int :: "bool \<Rightarrow> int \<Rightarrow> int \<Rightarrow> str \<Rightarrow> int option" where
  "parse_int is_signed lo hi s =
     (let (negative, ds) = (case s of
            b # bs \<Rightarrow> if b = 0x2B then (False, bs) else if b = 0x2D \<and> is_signed then (True, bs) else (False, s)
          | [] \<Rightarrow> (False, []));
          n = (if negative then - int (digits_value ds) else int (digits_value ds)) in
      if ds = [] \<or> \<not> list_all is_digit ds \<or> n < lo \<or> n > hi then None else Some n)"

section \<open>Dictionaries\<close>

text \<open>The raw array of items; an empty dictionary has a null pointer instead.\<close>

record dict =
  dc_flags :: u32
  dc_items :: "(str \<times> str) list option"

text \<open>A C string cannot hold a zero byte: the conversion is unwrapped.\<close>

definition dict_new :: "(str \<times> str) list \<Rightarrow> (dict, 'e) result" where
  "dict_new pairs =
     (if pairs = [] then Ok \<lparr>dc_flags = 0, dc_items = None\<rparr>
      else if list_ex (\<lambda>(k, v). 0 \<in> set k \<or> 0 \<in> set v) pairs then Panic
      else Ok \<lparr>dc_flags = 0, dc_items = Some pairs\<rparr>)"

text \<open>
  Both readers build a slice from the pointer first, which must not be null even for no items; the
  standard library checks that in debug builds and aborts.
\<close>

definition dict_items :: "dict \<Rightarrow> ((str \<times> str) list, 'e) result" where
  "dict_items d = (case dc_items d of None \<Rightarrow> Panic | Some items \<Rightarrow> Ok items)"

definition dict_lookup :: "dict \<Rightarrow> str \<Rightarrow> (str option, 'e) result" where
  "dict_lookup d k = (case dc_items d of None \<Rightarrow> Panic | Some items \<Rightarrow> Ok (map_of items k))"

section \<open>Properties\<close>

record properties =
  pr_map :: "(str, str) amap"

definition props_new :: properties where
  "props_new = \<lparr>pr_map = []\<rparr>"

definition props_set :: "str \<Rightarrow> str \<Rightarrow> properties \<Rightarrow> properties" where
  "props_set k v p = p\<lparr>pr_map := hm_insert k v (pr_map p)\<rparr>"

definition props_unset :: "str \<Rightarrow> properties \<Rightarrow> str option \<times> properties" where
  "props_unset k p = (map_of (pr_map p) k, p\<lparr>pr_map := hm_remove k (pr_map p)\<rparr>)"

definition props_get :: "properties \<Rightarrow> str \<Rightarrow> str option" where
  "props_get p k = map_of (pr_map p) k"

definition props_iter :: "properties \<Rightarrow> (str \<times> str) list" where
  "props_iter p = pr_map p"

definition add_pairs :: "(str \<times> str) list \<Rightarrow> properties \<Rightarrow> properties" where
  "add_pairs kvs p = fold (\<lambda>(k, v). props_set k v) kvs p"

definition new_vec :: "(str \<times> str) list \<Rightarrow> properties" where
  "new_vec pairs = add_pairs pairs props_new"

definition new_dict :: "dict \<Rightarrow> (properties, 'e) result" where
  "new_dict d = rbind (dict_items d) (\<lambda>items. Ok (add_pairs items props_new))"

definition props_merge :: "properties \<Rightarrow> properties \<Rightarrow> properties" where
  "props_merge new p = add_pairs (props_iter new) p"

definition props_dict :: "properties \<Rightarrow> (dict, 'e) result" where
  "props_dict p = dict_new (pr_map p)"

definition get_u32 :: "properties \<Rightarrow> str \<Rightarrow> u32 option" where
  "get_u32 p k = Option.bind (props_get p k) (\<lambda>v. map_option of_int (parse_int False 0 (2 ^ 32 - 1) v))"

definition get_i32 :: "properties \<Rightarrow> str \<Rightarrow> i32 option" where
  "get_i32 p k = Option.bind (props_get p k) (\<lambda>v. map_option of_int (parse_int True (- (2 ^ 31)) (2 ^ 31 - 1) v))"

definition get_u64 :: "properties \<Rightarrow> str \<Rightarrow> u64 option" where
  "get_u64 p k = Option.bind (props_get p k) (\<lambda>v. map_option of_int (parse_int False 0 (2 ^ 64 - 1) v))"

definition get_i64 :: "properties \<Rightarrow> str \<Rightarrow> i64 option" where
  "get_i64 p k = Option.bind (props_get p k) (\<lambda>v. map_option of_int (parse_int True (- (2 ^ 63)) (2 ^ 63 - 1) v))"

definition get_bool :: "properties \<Rightarrow> str \<Rightarrow> bool option" where
  "get_bool p k = map_option atob (props_get p k)"

text \<open>
  The JSON library: parsing, the members of an object (a hash map, in its iteration order), and
  printing, which may fail.
\<close>

record 'j tinyjson =
  tj_parse :: "str \<Rightarrow> ('j, str) result"
  tj_object :: "'j \<Rightarrow> (str \<times> 'j) list option"
  tj_is_null :: "'j \<Rightarrow> bool"
  tj_stringify :: "'j \<Rightarrow> str option"

fun update_members :: "'j tinyjson \<Rightarrow> (str \<times> 'j) list \<Rightarrow> u32 \<Rightarrow> properties \<Rightarrow> (u32, str) result \<times> properties" where
  "update_members tj [] count p = (Ok count, p)"
| "update_members tj ((k, v) # members) count p =
     (if tj_is_null tj v then update_members tj members count (snd (props_unset k p))
      else case tj_stringify tj v of
        None \<Rightarrow> (Panic, p)
      | Some value \<Rightarrow>
          if props_get p k = Some value then update_members tj members count p
          else update_members tj members (count + 1) (props_set k value p))"

definition update_string :: "'j tinyjson \<Rightarrow> str \<Rightarrow> properties \<Rightarrow> (u32, str) result \<times> properties" where
  "update_string tj args p = (case tj_parse tj args of
     Err e \<Rightarrow> (Err e, p)
   | Panic \<Rightarrow> (Panic, p)
   | Ok parsed \<Rightarrow> (case tj_object tj parsed of
       None \<Rightarrow> (Ok 0, p)
     | Some members \<Rightarrow> update_members tj members 0 p))"

definition new_string :: "'j tinyjson \<Rightarrow> str \<Rightarrow> (properties, str) result" where
  "new_string tj args = (case update_string tj args props_new of
     (Ok _, p) \<Rightarrow> Ok p
   | (Err e, _) \<Rightarrow> Err e
   | (Panic, _) \<Rightarrow> Panic)"

definition update_keys :: "(str \<times> str) list \<Rightarrow> str list \<Rightarrow> properties \<Rightarrow> properties" where
  "update_keys pairs ks p = fold (\<lambda>(k, v) p. if k \<in> set ks then props_set k v p else p) pairs p"

definition update_ignore :: "dict \<Rightarrow> str list \<Rightarrow> properties \<Rightarrow> (unit, 'e) result \<times> properties" where
  "update_ignore d ignored p = (case dict_items d of
     Ok items \<Rightarrow> (Ok (), fold (\<lambda>(k, v) p. if k \<in> set ignored then p else props_set k v p) items p)
   | Err e \<Rightarrow> (Err e, p) | Panic \<Rightarrow> (Panic, p))"

definition add_dict :: "dict \<Rightarrow> properties \<Rightarrow> (unit, 'e) result \<times> properties" where
  "add_dict d p = (case dict_items d of
     Ok items \<Rightarrow> (Ok (), add_pairs items p)
   | Err e \<Rightarrow> (Err e, p) | Panic \<Rightarrow> (Panic, p))"

section \<open>Contents\<close>

definition props_ok :: "properties \<Rightarrow> bool" where
  "props_ok p \<longleftrightarrow> hm_wf (pr_map p)"

lemma props_set_get: "props_ok p \<Longrightarrow> props_ok (props_set k v p) \<and> props_get (props_set k v p) = (props_get p)(k \<mapsto> v)"
  by (auto simp: props_ok_def props_set_def props_get_def fun_eq_iff hm.get_ins hm.wf_ins)

lemma props_unset_get:
  "props_ok p \<Longrightarrow> props_ok (snd (props_unset k p)) \<and> props_get (snd (props_unset k p)) = (props_get p)(k := None)"
  by (auto simp: props_ok_def props_unset_def props_get_def fun_eq_iff hm.get_del hm.wf_del)

lemma props_new_ok: "props_ok props_new" "props_get props_new = Map.empty"
  by (simp_all add: props_ok_def props_new_def props_get_def hm.wf_empty fun_eq_iff)

lemma add_pairs_get: "props_ok p \<Longrightarrow> props_ok (add_pairs kvs p) \<and> props_get (add_pairs kvs p) = props_get p ++ map_of (rev kvs)"
proof (induction kvs arbitrary: p)
  case Nil
  then show ?case
    by (simp add: add_pairs_def)
next
  case (Cons kv kvs)
  with props_set_get [of p "fst kv" "snd kv"] show ?case
    by (cases kv) (auto simp: add_pairs_def fun_eq_iff map_add_def map_of_append split: option.splits)
qed

text \<open>Through a dictionary and back.\<close>

lemma props_dict_round_trip:
  assumes "props_ok p" and "props_dict p = Ok d" and "new_dict d = Ok q"
  shows "props_get q = props_get p"
proof -
  have "pr_map p \<noteq> []" and q: "q = add_pairs (pr_map p) props_new"
    using assms(2,3) by (auto simp: props_dict_def dict_new_def new_dict_def dict_items_def split: if_splits)
  have "distinct (map fst (pr_map p))"
    using assms(1) by (simp add: props_ok_def hm.wf_distinct)
  then have "map_of (rev (pr_map p)) = map_of (pr_map p)"
    by (intro map_of_inject_set [THEN iffD2]) (simp_all add: rev_map [symmetric])
  with q add_pairs_get [OF props_new_ok(1), of "pr_map p"] props_new_ok(2) show ?thesis
    by (simp add: props_get_def fun_eq_iff)
qed

section \<open>Updates from JSON\<close>

definition printable :: "'j tinyjson \<Rightarrow> 'j \<Rightarrow> bool" where
  "printable tj v \<longleftrightarrow> tj_is_null tj v \<or> tj_stringify tj v \<noteq> None"

definition member_value :: "'j tinyjson \<Rightarrow> 'j \<Rightarrow> str option" where
  "member_value tj v = (if tj_is_null tj v then None else tj_stringify tj v)"

definition with_members :: "'j tinyjson \<Rightarrow> (str \<times> 'j) list \<Rightarrow> (str \<Rightarrow> str option) \<Rightarrow> str \<Rightarrow> str option" where
  "with_members tj members f k = (case map_of members k of None \<Rightarrow> f k | Some v \<Rightarrow> member_value tj v)"

definition changes :: "'j tinyjson \<Rightarrow> (str \<Rightarrow> str option) \<Rightarrow> str \<times> 'j \<Rightarrow> bool" where
  "changes tj f kv \<longleftrightarrow> \<not> tj_is_null tj (snd kv) \<and> f (fst kv) \<noteq> tj_stringify tj (snd kv)"

lemma changes_upd: "k \<notin> fst ` set members \<Longrightarrow> filter (changes tj (f(k := x))) members = filter (changes tj f) members"
  by (rule filter_cong) (auto simp: changes_def)

lemma with_members_Cons:
  assumes "k \<notin> fst ` set members"
  shows "with_members tj ((k, v) # members) f = with_members tj members (f(k := member_value tj v))"
proof -
  have "map_of members k = None"
    using assms by (simp add: map_of_eq_None_iff)
  then show ?thesis
    by (auto simp: with_members_def fun_eq_iff split: option.split)
qed

lemma update_members_spec:
  assumes "props_ok p" and "distinct (map fst members)"
  shows "if list_all (printable tj \<circ> snd) members
    then \<exists>p'. update_members tj members count p = (Ok (count + of_nat (length (filter (changes tj (props_get p)) members))), p') \<and>
      props_ok p' \<and> props_get p' = with_members tj members (props_get p)
    else fst (update_members tj members count p) = Panic"
  using assms
proof (induction members arbitrary: p count)
  case Nil
  then show ?case
    by (simp add: with_members_def fun_eq_iff)
next
  case (Cons kv members)
  obtain k v where kv: "kv = (k, v)"
    by (cases kv)
  have new: "k \<notin> fst ` set members" "distinct (map fst members)"
    using Cons.prems kv by auto
  consider (null) "tj_is_null tj v" | (unprintable) "\<not> printable tj v"
    | (same) "\<not> tj_is_null tj v" "props_get p k = tj_stringify tj v" "tj_stringify tj v \<noteq> None"
    | (set) w where "\<not> tj_is_null tj v" "tj_stringify tj v = Some w" "props_get p k \<noteq> Some w"
    by (cases "tj_stringify tj v") (auto simp: printable_def)
  then show ?case
  proof cases
    case null
    let ?p = "snd (props_unset k p)"
    have p: "props_ok ?p" "props_get ?p = (props_get p)(k := None)"
      using props_unset_get [OF Cons.prems(1), of k] by simp_all
    with null Cons.IH [OF p(1) new(2), of count] new kv show ?thesis
      by (auto simp: with_members_Cons printable_def member_value_def changes_upd changes_def [of _ _ "(k, v)"])
  next
    case unprintable
    with kv show ?thesis
      by (simp add: printable_def)
  next
    case same
    then have "(props_get p)(k := tj_stringify tj v) = props_get p"
      by (auto simp: fun_eq_iff)
    with same Cons.IH [OF Cons.prems(1) new(2), of count] new kv show ?thesis
      by (auto simp: with_members_Cons printable_def member_value_def changes_def [of _ _ "(k, v)"])
  next
    case set
    let ?p = "props_set k w p"
    have p: "props_ok ?p" "props_get ?p = (props_get p)(k \<mapsto> w)"
      using props_set_get [OF Cons.prems(1), of k w] by simp_all
    with set Cons.IH [OF p(1) new(2), of "count + 1"] new kv show ?thesis
      by (auto simp: with_members_Cons printable_def member_value_def changes_upd changes_def [of _ _ "(k, v)"] ac_simps)
  qed
qed

section \<open>Property\<close>

text \<open>
  C23. Updating properties from a JSON text: a text that does not parse or is no object leaves them
  as they are; from an object, each member whose value is null is removed, every other member is
  set to its printed value, all other properties stay, whatever the order of the members, and the
  number of members that were set to a new value is returned. It panics exactly when the library
  cannot print a value it has parsed.
\<close>

theorem json_update:
  assumes "props_ok p" and "\<And>j members. tj_object tj j = Some members \<Longrightarrow> distinct (map fst members)"
  shows "case tj_parse tj args of
      Err e \<Rightarrow> update_string tj args p = (Err e, p)
    | Panic \<Rightarrow> update_string tj args p = (Panic, p)
    | Ok j \<Rightarrow> (case tj_object tj j of
        None \<Rightarrow> update_string tj args p = (Ok 0, p)
      | Some members \<Rightarrow>
          if list_all (printable tj \<circ> snd) members
          then \<exists>p'. update_string tj args p = (Ok (of_nat (length (filter (changes tj (props_get p)) members))), p') \<and>
            props_ok p' \<and> props_get p' = with_members tj members (props_get p)
          else fst (update_string tj args p) = Panic)"
proof (cases "tj_parse tj args")
  case (Ok j)
  show ?thesis
  proof (cases "tj_object tj j")
    case (Some members)
    with update_members_spec [OF assms(1) assms(2) [OF Some], of tj 0] Ok show ?thesis
      by (cases "list_all (printable tj \<circ> snd) members") (simp_all add: update_string_def)
  qed (simp add: update_string_def Ok)
qed (simp_all add: update_string_def)

text \<open>A JSON library that reads every text as an object with two members, the first one null.\<close>

definition two_members :: "nat tinyjson" where
  "two_members = \<lparr>tj_parse = (\<lambda>_. Ok 0), tj_object = (\<lambda>j. if j = 0 then Some [([1], 1), ([2], 2)] else None),
     tj_is_null = (\<lambda>j. j = 1), tj_stringify = (\<lambda>j. if j = 2 then Some [0x31] else None)\<rparr>"

theorem json_update_witness:
  "\<exists>p'. update_string two_members [] \<lparr>pr_map = [([1], [0x30])]\<rparr> = (Ok 1, p') \<and> props_get p' [1] = None \<and> get_u32 p' [2] = Some 1"
proof -
  have "props_ok \<lparr>pr_map = [([1], [0x30])]\<rparr>"
    by (simp add: props_ok_def hm_wf_def)
  moreover have "distinct (map fst members)" if "tj_object two_members j = Some members" for j members
    using that by (auto simp: two_members_def split: if_splits)
  ultimately obtain p' where "update_string two_members [] \<lparr>pr_map = [([1], [0x30])]\<rparr> = (Ok 1, p')"
      "props_get p' = with_members two_members [([1], 1), ([2], 2)] (props_get \<lparr>pr_map = [([1], [0x30])]\<rparr>)"
    using json_update [of "\<lparr>pr_map = [([1], [0x30])]\<rparr>" two_members "[]"]
    by (auto simp: two_members_def printable_def changes_def props_get_def)
  then show ?thesis
    by (intro exI [of _ p']) (simp add: with_members_def member_value_def two_members_def get_u32_def parse_int_def is_digit_def digits_value_def)
qed

end
