(* ===== verification/Id_Map.thy ===== *)
theory Id_Map
  imports Prelude
begin

text \<open>
  The table of proxies of a client (\<^verbatim>\<open>pipewire/src/id_map.rs\<close>): a vector of slots whose index is the
  identifier. An abstract table, a partial map with a set of reserved identifiers, is what a client
  relies on; the vector refines it.
\<close>

section \<open>Model\<close>

datatype 't item = Empty | Reserved | Occupied 't

definition item_is_empty :: "'t item \<Rightarrow> bool" where
  "item_is_empty x = (case x of Empty \<Rightarrow> True | _ \<Rightarrow> False)"

definition item_as_ref :: "'t item \<Rightarrow> 't option" where
  "item_as_ref x = (case x of Occupied v \<Rightarrow> Some v | _ \<Rightarrow> None)"

record 't id_map =
  im_objects :: "'t item list"

definition im_new :: "'t id_map" where
  "im_new = \<lparr>im_objects = []\<rparr>"

text \<open>\<open>find\<close> on the enumerated slots; an identifier is the index cast to 32 bits.\<close>

fun find_empty :: "nat \<Rightarrow> 't item list \<Rightarrow> nat option" where
  "find_empty i [] = None"
| "find_empty i (x # xs) = (if item_is_empty x then Some i else find_empty (Suc i) xs)"

definition im_insert :: "'t \<Rightarrow> 't id_map \<Rightarrow> u32 \<times> 't id_map" where
  "im_insert v m = (case find_empty 0 (im_objects m) of
     Some i \<Rightarrow> (of_nat i, m\<lparr>im_objects := (im_objects m)[i := Occupied v]\<rparr>)
   | None \<Rightarrow> (let objects = im_objects m @ [Occupied v] in (of_nat (length objects - 1), m\<lparr>im_objects := objects\<rparr>)))"

definition im_insert_at :: "u32 \<Rightarrow> 't \<Rightarrow> 't id_map \<Rightarrow> ('t id_map, 'e) result" where
  "im_insert_at i v m =
     (if \<not> length (im_objects m) > unat i then Panic
      else case im_objects m ! unat i of
        Reserved \<Rightarrow> Ok (m\<lparr>im_objects := (im_objects m)[unat i := Occupied v]\<rparr>)
      | _ \<Rightarrow> Panic)"

definition im_reserve :: "'t id_map \<Rightarrow> u32 \<times> 't id_map" where
  "im_reserve m = (case find_empty 0 (im_objects m) of
     Some i \<Rightarrow> (of_nat i, m\<lparr>im_objects := (im_objects m)[i := Reserved]\<rparr>)
   | None \<Rightarrow> (let objects = im_objects m @ [Reserved] in (of_nat (length objects - 1), m\<lparr>im_objects := objects\<rparr>)))"

definition im_remove :: "u32 \<Rightarrow> 't id_map \<Rightarrow> 't id_map" where
  "im_remove i m =
     (if length (im_objects m) \<le> unat i then m else m\<lparr>im_objects := (im_objects m)[unat i := Empty]\<rparr>)"

definition im_clear :: "'t id_map \<Rightarrow> 't id_map" where
  "im_clear m = m\<lparr>im_objects := []\<rparr>"

definition im_get :: "'t id_map \<Rightarrow> u32 \<Rightarrow> 't option" where
  "im_get m i = (if unat i < length (im_objects m) then item_as_ref (im_objects m ! unat i) else None)"

definition im_iter :: "'t id_map \<Rightarrow> (u32 \<times> 't) list" where
  "im_iter m = List.map_filter (\<lambda>(i, x). map_option (\<lambda>v. (of_nat i, v)) (item_as_ref x))
     (List.enumerate 0 (im_objects m))"

section \<open>Abstract tables\<close>

text \<open>
  What a client of identifiers relies on: an insertion and a reservation give an identifier that
  was free, filling works on reserved identifiers only, and every operation changes the table at
  its own identifier only.
\<close>

type_synonym 't table = "u32 \<Rightarrow> 't item"

locale id_table =
  fixes ok :: "'m \<Rightarrow> bool"
    and tab :: "'m \<Rightarrow> 't table"
    and ins :: "'t \<Rightarrow> 'm \<Rightarrow> u32 \<times> 'm"
    and res :: "'m \<Rightarrow> u32 \<times> 'm"
    and fill :: "u32 \<Rightarrow> 't \<Rightarrow> 'm \<Rightarrow> ('m, unit) result"
    and del :: "u32 \<Rightarrow> 'm \<Rightarrow> 'm"
    and get :: "'m \<Rightarrow> u32 \<Rightarrow> 't option"
  assumes ins_fresh: "ok m \<Longrightarrow> ins v m = (i, m') \<Longrightarrow> tab m i = Empty \<and> tab m' = (tab m)(i := Occupied v)"
    and res_fresh: "ok m \<Longrightarrow> res m = (i, m') \<Longrightarrow> tab m i = Empty \<and> tab m' = (tab m)(i := Reserved)"
    and fill_reserved: "tab m i = Reserved \<Longrightarrow> \<exists>m'. fill i v m = Ok m' \<and> tab m' = (tab m)(i := Occupied v)"
    and fill_other: "tab m i \<noteq> Reserved \<Longrightarrow> fill i v m = Panic"
    and del_table: "tab (del i m) = (tab m)(i := Empty)"
    and get_table: "get m i = item_as_ref (tab m i)"
begin

lemma ins_get: "ok m \<Longrightarrow> ins v m = (i, m') \<Longrightarrow> get m' = (get m)(i \<mapsto> v)"
  by (auto simp: fun_eq_iff get_table item_as_ref_def dest: ins_fresh)

lemma del_get: "get (del i m) = (get m)(i := None)"
  by (auto simp: fun_eq_iff get_table del_table item_as_ref_def)

text \<open>The life of a proxy: reserve, fill once, remove.\<close>

lemma reserve_fill_remove:
  assumes "ok m" and "res m = (i, m1)"
  shows "get m i = None" and "get m1 = get m"
    and "\<exists>m2. fill i v m1 = Ok m2 \<and> get m2 = (get m)(i \<mapsto> v) \<and> fill i v' m2 = Panic \<and> tab (del i m2) = tab m"
proof -
  from res_fresh [OF assms] have t: "tab m i = Empty" "tab m1 = (tab m)(i := Reserved)"
    by simp_all
  then show "get m i = None" "get m1 = get m"
    by (auto simp: fun_eq_iff get_table item_as_ref_def)
  obtain m2 where "fill i v m1 = Ok m2" "tab m2 = (tab m1)(i := Occupied v)"
    using fill_reserved [of m1 i v] t by auto
  with t show "\<exists>m2. fill i v m1 = Ok m2 \<and> get m2 = (get m)(i \<mapsto> v) \<and> fill i v' m2 = Panic \<and> tab (del i m2) = tab m"
    by (intro exI [of _ m2]) (auto simp: fun_eq_iff get_table item_as_ref_def del_table fill_other)
qed

end

section \<open>The vector refines the table\<close>

definition im_table :: "'t id_map \<Rightarrow> 't table" where
  "im_table m i = (if unat i < length (im_objects m) then im_objects m ! unat i else Empty)"

text \<open>An identifier is left: a new slot would still have a 32-bit index.\<close>

definition im_ok :: "'t id_map \<Rightarrow> bool" where
  "im_ok m \<longleftrightarrow> length (im_objects m) < 2 ^ 32"

lemma item_is_empty_iff: "item_is_empty x \<longleftrightarrow> x = Empty"
  by (cases x) (simp_all add: item_is_empty_def)

lemma find_empty_Some: "find_empty i xs = Some k \<Longrightarrow> \<exists>j < length xs. k = i + j \<and> xs ! j = Empty"
proof (induction xs arbitrary: i)
  case (Cons x xs)
  show ?case
  proof (cases "item_is_empty x")
    case True
    with Cons.prems show ?thesis
      by (intro exI [of _ 0]) (simp add: item_is_empty_iff)
  next
    case False
    with Cons.prems Cons.IH [of "Suc i"] obtain j where "j < length xs" "k = Suc i + j" "xs ! j = Empty"
      by auto
    then show ?thesis
      by (intro exI [of _ "Suc j"]) simp
  qed
qed simp

lemma eq_of_unat: "unat (i :: u32) = n \<Longrightarrow> i = of_nat n"
  by auto

lemma im_table_update:
  "k < length (im_objects m) \<Longrightarrow> k < 2 ^ 32 \<Longrightarrow> im_table (m\<lparr>im_objects := (im_objects m)[k := x]\<rparr>) = (im_table m)(of_nat k := x)"
  by (auto simp: fun_eq_iff im_table_def nth_list_update unat_of_nat)

lemma im_table_append:
  "length (im_objects m) < 2 ^ 32 \<Longrightarrow> im_table (m\<lparr>im_objects := im_objects m @ [x]\<rparr>) = (im_table m)(of_nat (length (im_objects m)) := x)"
  by (auto simp: fun_eq_iff im_table_def nth_append unat_of_nat less_Suc_eq dest: eq_of_unat)

lemma slot_fresh:
  assumes "im_ok m"
  shows "find_empty 0 (im_objects m) = Some k \<Longrightarrow> im_table m (of_nat k) = Empty \<and>
      im_table (m\<lparr>im_objects := (im_objects m)[k := x]\<rparr>) = (im_table m)(of_nat k := x)"
    and "im_table m (of_nat (length (im_objects m))) = Empty"
  using assms find_empty_Some [of 0 "im_objects m" k] im_table_update [of k m x]
  by (auto simp: im_ok_def im_table_def [of m "of_nat _"] unat_of_nat)

interpretation slots: id_table im_ok im_table im_insert im_reserve im_insert_at im_remove im_get
proof
  fix m m' :: "'t id_map" and i :: u32 and v :: 't
  assume ok: "im_ok m"
  show "im_table m i = Empty \<and> im_table m' = (im_table m)(i := Occupied v)" if "im_insert v m = (i, m')"
    using that ok slot_fresh [OF ok] im_table_append [of m "Occupied v"]
    by (auto simp: im_insert_def Let_def im_ok_def split: option.splits)
  show "im_table m i = Empty \<and> im_table m' = (im_table m)(i := Reserved)" if "im_reserve m = (i, m')"
    using that ok slot_fresh [OF ok] im_table_append [of m Reserved]
    by (auto simp: im_reserve_def Let_def im_ok_def split: option.splits)
next
  fix m :: "'t id_map" and i :: u32 and v :: 't
  have upd: "im_table (m\<lparr>im_objects := (im_objects m)[unat i := x]\<rparr>) = (im_table m)(i := x)" if "unat i < length (im_objects m)" for x
    using im_table_update [OF that, of x] by simp
  show "\<exists>m'. im_insert_at i v m = (Ok m' :: (_, unit) result) \<and> im_table m' = (im_table m)(i := Occupied v)" if "im_table m i = Reserved"
    using that upd by (auto simp: im_insert_at_def im_table_def [of m i] split: if_splits)
  show "im_insert_at i v m = (Panic :: (_, unit) result)" if "im_table m i \<noteq> Reserved"
    using that by (auto simp: im_insert_at_def im_table_def split: item.splits)
  show "im_table (im_remove i m) = (im_table m)(i := Empty)"
    using upd by (auto simp: im_remove_def fun_eq_iff im_table_def)
  show "im_get m i = item_as_ref (im_table m i)"
    by (simp add: im_get_def im_table_def item_as_ref_def)
qed

section \<open>Iteration\<close>

lemma map_filter_enumerate:
  "n + length xs \<le> 2 ^ 32 \<Longrightarrow>
    map_of (List.map_filter (\<lambda>(i, x). map_option (\<lambda>v. (of_nat i, v)) (item_as_ref x)) (List.enumerate n xs)) (i :: u32) =
    (if n \<le> unat i \<and> unat i < n + length xs then item_as_ref (xs ! (unat i - n)) else None)"
proof (induction xs arbitrary: n)
  case Nil
  then show ?case
    by (auto simp: List.map_filter_def)
next
  case (Cons x xs)
  have "unat i = n \<longleftrightarrow> i = of_nat n"
    using Cons.prems by (auto simp: unat_of_nat)
  then show ?case
    using Cons.IH [of "Suc n"] Cons.prems
    by (cases "item_as_ref x") (auto simp: List.map_filter_def nth_Cons' Suc_le_eq)
qed

lemma iter_get: "im_ok m \<Longrightarrow> map_of (im_iter m) = im_get m"
  using map_filter_enumerate [of 0 "im_objects m"] by (auto simp: fun_eq_iff im_iter_def im_ok_def im_get_def)

section \<open>Property\<close>

text \<open>
  C21. As long as identifiers are left, the vector of slots behaves as a table of 32-bit identifiers:
  inserting and reserving give an identifier that was free; a reserved one can be filled exactly
  once; each operation changes the table at its own identifier only; removing after a reservation
  and filling gives back the old table; looking up and iterating read the table.
\<close>

theorem id_map_refines_table:
  assumes "length (im_objects m) < 2 ^ 32"
  shows "(case im_insert v m of (i, m') \<Rightarrow> im_table m i = Empty \<and> im_table m' = (im_table m)(i := Occupied v)) \<and>
    (case im_reserve m of (i, m1) \<Rightarrow> im_table m i = Empty \<and> im_table m1 = (im_table m)(i := Reserved) \<and>
      (\<exists>m2. im_insert_at i v m1 = (Ok m2 :: (_, unit) result) \<and> im_get m2 = (im_get m)(i \<mapsto> v) \<and>
        im_insert_at i v' m2 = (Panic :: (_, unit) result) \<and> im_table (im_remove i m2) = im_table m)) \<and>
    im_table (im_remove j m) = (im_table m)(j := Empty) \<and> im_table (im_clear m) = (\<lambda>_. Empty) \<and>
    im_get m j = item_as_ref (im_table m j) \<and> map_of (im_iter m) = im_get m"
proof -
  have ok: "im_ok m"
    using assms by (simp add: im_ok_def)
  show ?thesis
    using slots.ins_fresh [OF ok, of v] slots.res_fresh [OF ok] slots.reserve_fill_remove(3) [OF ok, of _ _ v v']
      slots.del_table [of j m] slots.get_table [of m j] iter_get [OF ok]
    by (auto simp: im_clear_def im_table_def [of "m\<lparr>im_objects := []\<rparr>"] split: prod.splits)
qed

theorem id_map_refines_table_witness:
  "im_table (im_remove 0 \<lparr>im_objects = [Occupied True, Reserved]\<rparr>) = (im_table \<lparr>im_objects = [Occupied True, Reserved]\<rparr>)(0 := Empty)"
  using id_map_refines_table [of "\<lparr>im_objects = [Occupied True, Reserved]\<rparr>" True True 0] by simp

end
