(* ===== verification/Hook_List.thy ===== *)
theory Hook_List
  imports Prelude "HOL-Library.Sublist"
begin

text \<open>
  Lists of hooks (\<^verbatim>\<open>spa/src/hook.rs\<close>): callbacks are taken out of the list while they run, so a
  callback may change the list, and an emission works on the identifiers registered when it starts.
  The mutex is held for one operation at a time, so an operation is a function on the list; waiting
  for the emission of another thread is the value \<open>None\<close>. The callbacks themselves are a parameter
  that may change the list and any other state in any way, and may panic.
\<close>

section \<open>Model\<close>

record 't hook =
  hk_id :: u32
  hk_callbacks :: "'t option"

type_synonym thread_id = nat

record 't hook_list =
  hl_hooks :: "'t hook list"
  hl_next_id :: u32
  hl_emission_owner :: "thread_id option"
  hl_emission_depth :: nat

definition hl_new :: "'t hook_list" where
  "hl_new = \<lparr>hl_hooks = [], hl_next_id = 0, hl_emission_owner = None, hl_emission_depth = 0\<rparr>"

text \<open>The counter of identifiers is kept at 32 bits and wraps around, as in a release build.\<close>

definition hl_prepend :: "'t \<Rightarrow> 't hook_list \<Rightarrow> u32 \<times> 't hook_list" where
  "hl_prepend callbacks l =
     (hl_next_id l, l\<lparr>hl_hooks := \<lparr>hk_id = hl_next_id l, hk_callbacks = Some callbacks\<rparr> # hl_hooks l, hl_next_id := hl_next_id l + 1\<rparr>)"

definition hl_append :: "'t \<Rightarrow> 't hook_list \<Rightarrow> u32 \<times> 't hook_list" where
  "hl_append callbacks l =
     (hl_next_id l, l\<lparr>hl_hooks := hl_hooks l @ [\<lparr>hk_id = hl_next_id l, hk_callbacks = Some callbacks\<rparr>], hl_next_id := hl_next_id l + 1\<rparr>)"

text \<open>The first element that satisfies a condition, with the list without it.\<close>

fun extract_first :: "('a \<Rightarrow> bool) \<Rightarrow> 'a list \<Rightarrow> 'a option \<times> 'a list" where
  "extract_first p [] = (None, [])"
| "extract_first p (x # xs) = (if p x then (Some x, xs) else (case extract_first p xs of (r, ys) \<Rightarrow> (r, x # ys)))"

definition hl_remove :: "u32 \<Rightarrow> 't hook_list \<Rightarrow> 't option \<times> 't hook_list" where
  "hl_remove i l = (case extract_first (\<lambda>h. hk_id h = i) (hl_hooks l) of
     (h, hooks) \<Rightarrow> (Option.bind h hk_callbacks, l\<lparr>hl_hooks := hooks\<rparr>))"

definition begin_dispatch :: "thread_id \<Rightarrow> 't hook_list \<Rightarrow> 't hook_list option" where
  "begin_dispatch thread l = (case hl_emission_owner l of
     None \<Rightarrow> Some (l\<lparr>hl_emission_owner := Some thread, hl_emission_depth := 1\<rparr>)
   | Some owner \<Rightarrow> if owner = thread then Some (l\<lparr>hl_emission_depth := hl_emission_depth l + 1\<rparr>) else None)"

definition dispatch_ids :: "'t hook_list \<Rightarrow> u32 list" where
  "dispatch_ids l = map hk_id (hl_hooks l)"

text \<open>An update of the first element that satisfies a condition (\<open>iter_mut().find(..)\<close>).\<close>

fun update_first :: "('a \<Rightarrow> bool) \<Rightarrow> ('a \<Rightarrow> 'a) \<Rightarrow> 'a list \<Rightarrow> 'a list" where
  "update_first p f [] = []"
| "update_first p f (x # xs) = (if p x then f x # xs else x # update_first p f xs)"

definition dispatch :: "u32 \<Rightarrow> 't hook_list \<Rightarrow> ('t \<times> 't hook_list) option" where
  "dispatch i l =
     Option.bind (find (\<lambda>h. hk_id h = i) (hl_hooks l)) (\<lambda>h.
     Option.bind (hk_callbacks h) (\<lambda>callbacks.
     Some (callbacks, l\<lparr>hl_hooks := update_first (\<lambda>h. hk_id h = i) (\<lambda>h. h\<lparr>hk_callbacks := None\<rparr>) (hl_hooks l)\<rparr>)))"

text \<open>The destructors of a dispatch and of an emission.\<close>

definition dispatch_drop :: "u32 \<Rightarrow> 't \<Rightarrow> 't hook_list \<Rightarrow> 't hook_list" where
  "dispatch_drop i callbacks l =
     l\<lparr>hl_hooks := update_first (\<lambda>h. hk_id h = i) (\<lambda>h. h\<lparr>hk_callbacks := Some callbacks\<rparr>) (hl_hooks l)\<rparr>"

definition emission_drop :: "'t hook_list \<Rightarrow> 't hook_list" where
  "emission_drop l =
     (let depth = hl_emission_depth l - 1 in
      l\<lparr>hl_emission_depth := depth, hl_emission_owner := (if depth = 0 then None else hl_emission_owner l)\<rparr>)"

text \<open>
  The macro \<open>emit_hook\<close>: \<open>run\<close> calls the method of the callbacks, if they have it; its flag says
  whether it returned. A panic ends the emission after the destructors. The first component of the
  result lists the hooks whose callbacks were run.
\<close>

type_synonym ('t, 'e) run = "'t \<Rightarrow> 't hook_list \<times> 'e \<Rightarrow> bool \<times> 't \<times> 't hook_list \<times> 'e"

fun emit_ids :: "('t, 'e) run \<Rightarrow> u32 list \<Rightarrow> 't hook_list \<times> 'e \<Rightarrow> u32 list \<times> bool \<times> 't hook_list \<times> 'e" where
  "emit_ids run [] s = ([], True, s)"
| "emit_ids run (i # ids) s = (case dispatch i (fst s) of
     None \<Rightarrow> emit_ids run ids s
   | Some (callbacks, l) \<Rightarrow> (case run callbacks (l, snd s) of (returned, callbacks', l', e') \<Rightarrow>
       let s' = (dispatch_drop i callbacks' l', e') in
       if returned then (case emit_ids run ids s' of (log, res) \<Rightarrow> (i # log, res))
       else ([i], False, s')))"

definition emit_hook :: "thread_id \<Rightarrow> ('t, 'e) run \<Rightarrow> 't hook_list \<times> 'e \<Rightarrow> (u32 list \<times> bool \<times> 't hook_list \<times> 'e) option" where
  "emit_hook thread run s = Option.bind (begin_dispatch thread (fst s)) (\<lambda>l.
     case emit_ids run (dispatch_ids l) (l, snd s) of (log, returned, l', e') \<Rightarrow>
       Some (log, returned, emission_drop l', e'))"

section \<open>Identifiers\<close>

definition hooks_ok :: "'t hook_list \<Rightarrow> bool" where
  "hooks_ok l \<longleftrightarrow> distinct (dispatch_ids l) \<and> list_all (\<lambda>i. i < hl_next_id l) (dispatch_ids l) \<and>
     (hl_emission_owner l = None \<longleftrightarrow> hl_emission_depth l = 0)"

lemma extract_first_filter:
  "distinct (map hk_id xs) \<Longrightarrow> snd (extract_first (\<lambda>h. hk_id h = i) xs) = filter (\<lambda>h. hk_id h \<noteq> i) xs"
  by (induction xs) (auto split: prod.splits intro!: filter_True [symmetric] dest: image_eqI [of _ hk_id, rotated])

lemma update_first_ids [simp]:
  "(\<And>x. hk_id (f x) = hk_id x) \<Longrightarrow> map hk_id (update_first p f xs) = map hk_id xs"
  by (induction xs) simp_all

lemma dispatch_ids_dispatch [simp]:
  "dispatch i l = Some (c, l') \<Longrightarrow> dispatch_ids l' = dispatch_ids l"
  "dispatch_ids (dispatch_drop i c l) = dispatch_ids l"
  by (auto simp: dispatch_def dispatch_drop_def dispatch_ids_def bind_eq_Some_conv)

lemma next_id_grows: "x + 1 \<noteq> 0 \<Longrightarrow> i < x + 1 \<longleftrightarrow> i \<le> x" for x i :: u32
  using unatSuc [of x] by (simp add: word_less_nat_alt word_le_nat_alt add.commute less_Suc_eq_le)

lemma hooks_ok_ops:
  assumes "hooks_ok l"
  shows "hl_next_id l + 1 \<noteq> 0 \<Longrightarrow> hooks_ok (snd (hl_append c l))" and "hl_next_id l + 1 \<noteq> 0 \<Longrightarrow> hooks_ok (snd (hl_prepend c l))"
    and "hooks_ok (snd (hl_remove i l))" and "i \<notin> set (dispatch_ids (snd (hl_remove i l)))"
proof -
  have d: "distinct (map hk_id (hl_hooks l))"
    using assms by (simp add: hooks_ok_def dispatch_ids_def)
  show "hl_next_id l + 1 \<noteq> 0 \<Longrightarrow> hooks_ok (snd (hl_append c l))" "hl_next_id l + 1 \<noteq> 0 \<Longrightarrow> hooks_ok (snd (hl_prepend c l))"
    using assms by (auto simp: hooks_ok_def hl_append_def hl_prepend_def dispatch_ids_def next_id_grows list_all_iff)
  show "hooks_ok (snd (hl_remove i l))" "i \<notin> set (dispatch_ids (snd (hl_remove i l)))"
    using assms extract_first_filter [OF d, of i]
    by (auto simp: hooks_ok_def hl_remove_def dispatch_ids_def distinct_map inj_on_def list_all_iff split: prod.splits)
qed

section \<open>Emissions\<close>

lemma distinct_subseq: "subseq xs ys \<Longrightarrow> distinct ys \<Longrightarrow> distinct xs"
  by (induction rule: list_emb.induct) (auto dest: list_emb_set)

lemma emit_ids_subseq: "subseq (fst (emit_ids run ids s)) ids"
proof (induction ids arbitrary: s)
  case (Cons i ids)
  show ?case
  proof (cases "dispatch i (fst s)")
    case None
    with Cons [of s] show ?thesis
      by (simp add: list_emb_Cons)
  next
    case (Some cl)
    with Cons show ?thesis
      by (auto simp: Let_def split: prod.splits) (metis fst_conv)
  qed
qed simp

text \<open>A hook that is gone stays gone, as long as callbacks do not register its identifier again.\<close>

lemma emit_ids_absent:
  assumes keeps: "\<And>c l e r c' l' e'. i \<notin> set (dispatch_ids l) \<Longrightarrow> run c (l, e) = (r, c', l', e') \<Longrightarrow> i \<notin> set (dispatch_ids l')"
  shows "i \<notin> set (dispatch_ids (fst s)) \<Longrightarrow> i \<notin> set (fst (emit_ids run ids s)) \<and> i \<notin> set (dispatch_ids (fst (snd (snd (emit_ids run ids s)))))"
proof (induction ids arbitrary: s)
  case (Cons j ids)
  show ?case
  proof (cases "dispatch j (fst s)")
    case None
    with Cons show ?thesis by simp
  next
    case (Some cl)
    obtain c l where cl: "cl = (c, l)" by (cases cl)
    obtain r c' l' e' where run: "run c (l, snd s) = (r, c', l', e')" by (metis prod_cases4)
    have "j \<in> set (dispatch_ids (fst s))"
      using Some by (auto simp: dispatch_def dispatch_ids_def bind_eq_Some_conv find_Some_iff)
    then have "i \<noteq> j"
      using Cons.prems by blast
    moreover have "i \<notin> set (dispatch_ids l')"
      using Cons.prems Some cl keeps [OF _ run] by simp
    ultimately show ?thesis
      using Cons.IH [of "(dispatch_drop j c' l', e')"] Some cl run by (auto simp: Let_def split: prod.splits)
  qed
qed simp

text \<open>Callbacks that leave the list alone: every hook that is not running already is called, in order.\<close>

definition leaves_list :: "('t, 'e) run \<Rightarrow> bool" where
  "leaves_list run \<longleftrightarrow> (\<forall>c l e. \<exists>c' e'. run c (l, e) = (True, c', l, e'))"

definition idle :: "'t hook \<Rightarrow> bool" where
  "idle h \<longleftrightarrow> hk_callbacks h \<noteq> None"

lemma update_first_skip: "i \<notin> hk_id ` set pre \<Longrightarrow> update_first (\<lambda>h. hk_id h = i) f (pre @ h # hs) =
    pre @ (if hk_id h = i then f h # hs else h # update_first (\<lambda>h. hk_id h = i) f hs)"
  by (induction pre) auto

lemma dispatch_at:
  assumes "hl_hooks l = pre @ h # hs" and "hk_id h \<notin> hk_id ` set pre"
  shows "dispatch (hk_id h) l =
    map_option (\<lambda>c. (c, l\<lparr>hl_hooks := pre @ h\<lparr>hk_callbacks := None\<rparr> # hs\<rparr>)) (hk_callbacks h)"
proof -
  have "find (\<lambda>x. hk_id x = hk_id h) (pre @ h # hs) = Some h"
    using assms(2) by (induction pre) auto
  then show ?thesis
    using assms by (cases "hk_callbacks h") (simp_all add: dispatch_def update_first_skip)
qed

lemma emit_ids_quiet:
  assumes "leaves_list run"
  shows "hl_hooks l = pre @ hs \<Longrightarrow> distinct (dispatch_ids l) \<Longrightarrow>
    \<exists>hs' e'. emit_ids run (map hk_id hs) (l, e) = (map hk_id (filter idle hs), True, l\<lparr>hl_hooks := pre @ hs'\<rparr>, e') \<and>
      map hk_id hs' = map hk_id hs \<and> map idle hs' = map idle hs"
proof (induction hs arbitrary: pre l e)
  case Nil
  then show ?case
    by (intro exI [of _ "[]"]) simp
next
  case (Cons h hs)
  have new: "hk_id h \<notin> hk_id ` set pre"
    using Cons.prems by (auto simp: dispatch_ids_def)
  note at = dispatch_at [OF Cons.prems(1) new]
  show ?case
  proof (cases "hk_callbacks h")
    case None
    from Cons.IH [of l "pre @ [h]" e] Cons.prems obtain hs' e' where
      "emit_ids run (map hk_id hs) (l, e) = (map hk_id (filter idle hs), True, l\<lparr>hl_hooks := (pre @ [h]) @ hs'\<rparr>, e')"
      "map hk_id hs' = map hk_id hs" "map idle hs' = map idle hs"
      by auto
    with None at show ?thesis
      by (intro exI [of _ "h # hs'"] exI [of _ e']) (simp add: idle_def [of h])
  next
    case (Some c)
    let ?l = "l\<lparr>hl_hooks := pre @ h\<lparr>hk_callbacks := None\<rparr> # hs\<rparr>"
    obtain c' e1 where run: "run c (?l, e) = (True, c', ?l, e1)"
      using assms unfolding leaves_list_def by blast
    let ?h = "h\<lparr>hk_callbacks := Some c'\<rparr>"
    have drop: "dispatch_drop (hk_id h) c' ?l = l\<lparr>hl_hooks := (pre @ [?h]) @ hs\<rparr>"
      using new by (simp add: dispatch_drop_def update_first_skip)
    from Cons.IH [of "l\<lparr>hl_hooks := (pre @ [?h]) @ hs\<rparr>" "pre @ [?h]" e1] Cons.prems obtain hs' e' where
      "emit_ids run (map hk_id hs) (l\<lparr>hl_hooks := (pre @ [?h]) @ hs\<rparr>, e1) =
        (map hk_id (filter idle hs), True, l\<lparr>hl_hooks := (pre @ [?h]) @ hs'\<rparr>, e')"
      "map hk_id hs' = map hk_id hs" "map idle hs' = map idle hs"
      by (auto simp: dispatch_ids_def)
    with Some at run drop show ?thesis
      by (intro exI [of _ "?h # hs'"] exI [of _ e']) (simp add: idle_def [of h] idle_def [of "h\<lparr>hk_callbacks := _\<rparr>"] Let_def)
  qed
qed

section \<open>Property\<close>

text \<open>
  C22. Emitting a hook calls callbacks that were registered when the emission started, in the order
  of the list and each at most once, whatever the callbacks do to the list meanwhile. When the
  callbacks leave the list alone, every hook that is not already running in an outer emission is
  called exactly once, all callbacks are put back, and the emission lock is as it was.
\<close>

theorem hook_emission:
  assumes "emit_hook thread run (l, e) = Some (log, returned, l', e')" and "hooks_ok l"
  shows "subseq log (dispatch_ids l) \<and> distinct log \<and>
    (leaves_list run \<longrightarrow> returned \<and> log = map hk_id (filter idle (hl_hooks l)) \<and>
      dispatch_ids l' = dispatch_ids l \<and> map idle (hl_hooks l') = map idle (hl_hooks l) \<and>
      hl_emission_owner l' = hl_emission_owner l \<and> hl_emission_depth l' = hl_emission_depth l)"
proof -
  obtain l1 where l1: "begin_dispatch thread l = Some l1" "hl_hooks l1 = hl_hooks l"
    using assms(1) by (auto simp: emit_hook_def bind_eq_Some_conv begin_dispatch_def split: option.splits if_splits)
  obtain l2 where em: "emit_ids run (dispatch_ids l1) (l1, e) = (log, returned, l2, e')" "l' = emission_drop l2"
    using assms(1) l1(1) by (auto simp: emit_hook_def split: prod.splits)
  have d: "distinct (dispatch_ids l)" "dispatch_ids l1 = dispatch_ids l"
    using assms(2) l1 by (simp_all add: hooks_ok_def dispatch_ids_def)
  have sub: "subseq log (dispatch_ids l)"
    using emit_ids_subseq [of run "dispatch_ids l1" "(l1, e)"] em d(2) by simp
  moreover have "distinct log"
    using distinct_subseq [OF sub d(1)] .
  moreover have "returned \<and> log = map hk_id (filter idle (hl_hooks l)) \<and>
      dispatch_ids l' = dispatch_ids l \<and> map idle (hl_hooks l') = map idle (hl_hooks l) \<and>
      hl_emission_owner l' = hl_emission_owner l \<and> hl_emission_depth l' = hl_emission_depth l" if "leaves_list run"
  proof -
    from emit_ids_quiet [OF that, of l1 "[]" "hl_hooks l1" e] d em obtain hs where
      "returned" "log = map hk_id (filter idle (hl_hooks l))" "l2 = l1\<lparr>hl_hooks := hs\<rparr>"
      "map hk_id hs = map hk_id (hl_hooks l)" "map idle hs = map idle (hl_hooks l)"
      by (auto simp: dispatch_ids_def l1(2))
    with assms(2) em(2) l1(1) show ?thesis
      by (auto simp: emission_drop_def Let_def dispatch_ids_def hooks_ok_def begin_dispatch_def split: option.splits if_splits)
  qed
  ultimately show ?thesis by blast
qed

text \<open>A list of two hooks whose first callback removes the second hook and registers a third.\<close>

definition two_hooks :: "nat hook_list" where
  "two_hooks = snd (hl_append 20 (snd (hl_append 10 hl_new)))"

definition removing_run :: "(nat, nat) run" where
  "removing_run c = (\<lambda>(l, e). (True, c, snd (hl_append 30 (snd (hl_remove 1 l))), e + c))"

theorem hook_emission_witness:
  "\<exists>l'. emit_hook 5 removing_run (two_hooks, 0) = Some ([0], True, l', 10) \<and> dispatch_ids l' = [0, 2] \<and>
    subseq [0 :: u32] (dispatch_ids two_hooks)"
proof -
  have ok: "hooks_ok two_hooks"
    by (simp add: two_hooks_def hl_append_def hl_new_def hooks_ok_def dispatch_ids_def)
  obtain l' where run: "emit_hook 5 removing_run (two_hooks, 0) = Some ([0], True, l', 10)" "dispatch_ids l' = [0, 2]"
    by (simp add: two_hooks_def removing_run_def hl_append_def hl_remove_def hl_new_def emit_hook_def begin_dispatch_def dispatch_ids_def
        dispatch_def dispatch_drop_def emission_drop_def Let_def)
  with hook_emission [OF run(1) ok] show ?thesis
    by blast
qed

end
