(* ===== verification/Wav_File.thy ===== *)
theory Wav_File
  imports Prelude
begin

text \<open>
  The WAV reader of the player example (\<^verbatim>\<open>examples/wav-player/src/wav.rs\<close>): the loop over the RIFF
  chunks of a file held in memory. The loop by offsets is shown equal to a reference reading that
  first splits the file into chunks and then looks at them, and the splitting undoes the writing of
  chunks.
\<close>

section \<open>Model\<close>

type_synonym u16 = "16 word"

record wav_format =
  wf_channels :: u16
  wf_sample_rate :: u32
  wf_bits_per_sample :: u16
  wf_block_align :: u16

record wav_file =
  wav_fmt :: wav_format
  wav_data :: "byte list"

datatype wav_error =
    Wav_too_short | Not_riff | Not_wave | Fmt_chunk_too_small | Unsupported_wav_format u16
  | Missing_fmt_chunk | Missing_data_chunk

definition u16_at :: "byte list \<Rightarrow> nat \<Rightarrow> (u16, 'e) result" where
  "u16_at data i = rbind (subslice data i (i + 2)) (\<lambda>bs. Ok (of_nat (from_le bs)))"

definition RIFF :: "byte list" where "RIFF = [0x52, 0x49, 0x46, 0x46]"
definition WAVE :: "byte list" where "WAVE = [0x57, 0x41, 0x56, 0x45]"
definition FMT :: "byte list" where "FMT = [0x66, 0x6d, 0x74, 0x20]"
definition DATA :: "byte list" where "DATA = [0x64, 0x61, 0x74, 0x61]"

definition parse_fmt_chunk :: "byte list \<Rightarrow> nat \<Rightarrow> u32 \<Rightarrow> (wav_format, wav_error) result" where
  "parse_fmt_chunk buf payload_start chunk_size =
     (if chunk_size < 16 then Err Fmt_chunk_too_small
      else
      rbind (u16_at buf payload_start) (\<lambda>audio_format.
      if audio_format \<noteq> 1 then Err (Unsupported_wav_format audio_format)
      else
      rbind (u16_at buf (payload_start + 2)) (\<lambda>channels.
      rbind (u32_at buf (payload_start + 4)) (\<lambda>sample_rate.
      rbind (u16_at buf (payload_start + 12)) (\<lambda>block_align.
      rbind (u16_at buf (payload_start + 14)) (\<lambda>bits_per_sample.
      Ok \<lparr>wf_channels = channels, wf_sample_rate = sample_rate, wf_bits_per_sample = bits_per_sample,
          wf_block_align = block_align\<rparr>))))))"

function wav_loop ::
    "byte list \<Rightarrow> nat \<Rightarrow> wav_format option \<Rightarrow> byte list option \<Rightarrow> (wav_format option \<times> byte list option, wav_error) result" where
  "wav_loop buf offset format data =
     (if offset + 8 > length buf then Ok (format, data)
      else
      rbind (subslice buf offset (offset + 4)) (\<lambda>chunk_id.
      rbind (u32_at buf (offset + 4)) (\<lambda>chunk_size.
      let payload_start = offset + 8; payload_end = payload_start + unat chunk_size in
      if payload_end > length buf then Ok (format, data)
      else
      rbind (if chunk_id = FMT then rbind (parse_fmt_chunk buf payload_start chunk_size) (\<lambda>f. Ok (Some f, data))
             else if chunk_id = DATA then rbind (subslice buf payload_start payload_end) (\<lambda>d. Ok (format, Some d))
             else Ok (format, data)) (\<lambda>(format, data).
      wav_loop buf (if unat chunk_size mod 2 = 1 then payload_end + 1 else payload_end) format data))))"
  by pat_completeness auto

termination
  by (relation "measure (\<lambda>(buf, offset, _). length buf - offset)") (auto split: if_splits)

declare wav_loop.simps [simp del]

definition wav_parse :: "byte list \<Rightarrow> (wav_file, wav_error) result" where
  "wav_parse buf =
     (if length buf < 44 then Err Wav_too_short
      else
      rbind (subslice buf 0 4) (\<lambda>riff.
      if riff \<noteq> RIFF then Err Not_riff
      else
      rbind (subslice buf 8 12) (\<lambda>wave.
      if wave \<noteq> WAVE then Err Not_wave
      else
      rbind (wav_loop buf 12 None None) (\<lambda>(format, data).
      rbind (ok_or format Missing_fmt_chunk) (\<lambda>format.
      rbind (ok_or data Missing_data_chunk) (\<lambda>data.
      Ok \<lparr>wav_fmt = format, wav_data = data\<rparr>))))))"

definition bytes_per_sample :: "wav_file \<Rightarrow> nat" where
  "bytes_per_sample f = unat (wf_bits_per_sample (wav_fmt f) div 8)"

definition frame_size :: "wav_file \<Rightarrow> nat" where
  "frame_size f = bytes_per_sample f * unat (wf_channels (wav_fmt f))"

definition num_frames :: "wav_file \<Rightarrow> nat" where
  "num_frames f = (if frame_size f = 0 then 0 else length (wav_data f) div frame_size f)"

section \<open>Reference: chunks first\<close>

text \<open>
  The chunks of a RIFF body: a four-byte name, a 32-bit size and as many bytes, padded to an even
  length; a truncated chunk ends the list.
\<close>

type_synonym chunk = "byte list \<times> byte list"

function riff_chunks :: "byte list \<Rightarrow> chunk list" where
  "riff_chunks body =
     (let n = from_le (take 4 (drop 4 body)) in
      if length body < 8 \<or> length body < 8 + n then []
      else (take 4 body, take n (drop 8 body)) # riff_chunks (drop (8 + n + n mod 2) body))"
  by pat_completeness auto

termination
  by (relation "measure length") (auto simp: Let_def)

declare riff_chunks.simps [simp del]

definition fmt_of :: "byte list \<Rightarrow> (wav_format, wav_error) result" where
  "fmt_of p =
     (if length p < 16 then Err Fmt_chunk_too_small
      else if from_le (take 2 p) \<noteq> 1 then Err (Unsupported_wav_format (of_nat (from_le (take 2 p))))
      else Ok \<lparr>wf_channels = of_nat (from_le (take 2 (drop 2 p))), wf_sample_rate = of_nat (from_le (take 4 (drop 4 p))),
        wf_bits_per_sample = of_nat (from_le (take 2 (drop 14 p))), wf_block_align = of_nat (from_le (take 2 (drop 12 p)))\<rparr>)"

definition named :: "byte list \<Rightarrow> chunk list \<Rightarrow> byte list list" where
  "named name cs = map snd (filter (\<lambda>c. fst c = name) cs)"

text \<open>All format chunks must be valid; the last format chunk and the last data chunk count.\<close>

fun all_formats :: "byte list list \<Rightarrow> (wav_format list, wav_error) result" where
  "all_formats [] = Ok []"
| "all_formats (p # ps) = rbind (fmt_of p) (\<lambda>f. rbind (all_formats ps) (\<lambda>fs. Ok (f # fs)))"

definition wav_spec :: "byte list \<Rightarrow> (wav_file, wav_error) result" where
  "wav_spec buf =
     (if length buf < 44 then Err Wav_too_short
      else if take 4 buf \<noteq> RIFF then Err Not_riff
      else if take 4 (drop 8 buf) \<noteq> WAVE then Err Not_wave
      else
      let cs = riff_chunks (drop 12 buf) in
      rbind (all_formats (named FMT cs)) (\<lambda>fs.
      if fs = [] then Err Missing_fmt_chunk
      else if named DATA cs = [] then Err Missing_data_chunk
      else Ok \<lparr>wav_fmt = last fs, wav_data = last (named DATA cs)\<rparr>))"

section \<open>Equivalence\<close>

lemma u16_at_eq: "i + 2 \<le> length data \<Longrightarrow> u16_at data i = Ok (of_nat (from_le (take 2 (drop i data))))"
  by (simp add: u16_at_def subslice_Ok)

lemma u32_at_eq: "i + 4 \<le> length data \<Longrightarrow> u32_at data i = Ok (of_nat (from_le (take 4 (drop i data))))"
  by (simp add: u32_at_def subslice_Ok u32_of_bytes_def)

lemma from_le_2_eq_1: "length bs = 2 \<Longrightarrow> (of_nat (from_le bs) :: u16) = 1 \<longleftrightarrow> from_le bs = 1"
  using from_le_less [of bs] by (simp add: word_unat_eq_iff unat_of_nat)

lemma unat_size: "unat (of_nat (from_le (take 4 bs)) :: u32) = from_le (take 4 bs)"
proof -
  have "from_le (take 4 bs) < 256 ^ 4"
    using from_le_less [of "take 4 bs"] power_increasing [of "length (take 4 bs)" 4 "256 :: nat"] by simp
  then show ?thesis
    by (simp add: unat_of_nat)
qed

lemma parse_fmt_chunk_eq:
  assumes "start + unat sz \<le> length buf" and "p = take (unat sz) (drop start buf)"
  shows "parse_fmt_chunk buf start sz = fmt_of p"
proof (cases "sz < 16")
  case True
  with assms show ?thesis
    by (simp add: parse_fmt_chunk_def fmt_of_def word_less_nat_alt)
next
  case False
  then have n: "16 \<le> unat sz"
    by (simp add: word_less_nat_alt)
  then have "take k (drop i p) = take k (drop (start + i) buf)" if "i + k \<le> 16" for i k
    using that assms(2) by (simp add: drop_take add.commute min_def)
  from this [of 0 2] this [of 2 2] this [of 4 4] this [of 12 2] this [of 14 2] show ?thesis
    using n assms False
    by (simp add: parse_fmt_chunk_def fmt_of_def u16_at_eq u32_at_eq from_le_2_eq_1)
qed

lemma named_Cons: "named name ((i, p) # cs) = (if i = name then p # named name cs else named name cs)"
  by (simp add: named_def)

lemma wav_loop_eq:
  "wav_loop buf offset format data =
     (let cs = riff_chunks (drop offset buf) in
      rbind (all_formats (named FMT cs)) (\<lambda>fs.
      Ok (if fs = [] then format else Some (last fs), if named DATA cs = [] then data else Some (last (named DATA cs)))))"
proof (induction "length buf - offset" arbitrary: offset format data rule: less_induct)
  case less
  define n where "n = from_le (take 4 (drop (offset + 4) buf))"
  have drop: "take 4 (drop 4 (drop offset buf)) = take 4 (drop (offset + 4) buf)"
    by (simp add: add.commute)
  have n: "unat (of_nat n :: u32) = n"
    by (simp add: n_def unat_size)
  show ?case
  proof (cases "offset + 8 \<le> length buf \<and> offset + 8 + n \<le> length buf")
    case False
    have "riff_chunks (drop offset buf) = []"
      using False unfolding riff_chunks.simps [of "drop offset buf"] drop n_def by (auto simp: Let_def)
    with False n show ?thesis
      by (cases "offset + 8 \<le> length buf")
        (simp_all add: wav_loop.simps [of buf offset] named_def Let_def subslice_Ok u32_at_eq n_def [symmetric])
  next
    case True
    let ?p = "take n (drop (offset + 8) buf)" and ?id = "take 4 (drop offset buf)"
    let ?next = "offset + 8 + n + n mod 2"
    have next_eq: "(if n mod 2 = 1 then offset + 8 + n + 1 else offset + 8 + n) = ?next"
      by presburger
    have "u32_at buf (offset + 4) = (Ok (of_nat n) :: (_, wav_error) result)"
      using True by (simp add: u32_at_eq n_def)
    then have step: "wav_loop buf offset format data =
        rbind (if ?id = FMT then rbind (fmt_of ?p) (\<lambda>f. Ok (Some f, data)) else if ?id = DATA then Ok (format, Some ?p) else Ok (format, data))
          (\<lambda>(format, data). wav_loop buf ?next format data)"
      using True n parse_fmt_chunk_eq [of "offset + 8" "of_nat n" buf ?p] next_eq
      by (simp add: wav_loop.simps [of buf offset] subslice_Ok Let_def)
    have cs: "riff_chunks (drop offset buf) = (?id, ?p) # riff_chunks (drop ?next buf)"
      using True unfolding riff_chunks.simps [of "drop offset buf"] drop by (simp add: Let_def n_def [symmetric] ac_simps) linarith
    have "wav_loop buf ?next f d =
       (let cs = riff_chunks (drop ?next buf) in
        rbind (all_formats (named FMT cs)) (\<lambda>fs.
        Ok (if fs = [] then f else Some (last fs), if named DATA cs = [] then d else Some (last (named DATA cs)))))" for f d
      using True by (intro less) linarith
    moreover have "FMT \<noteq> DATA"
      by (simp add: FMT_def DATA_def)
    ultimately show ?thesis
      unfolding step cs Let_def named_Cons
      by (cases "fmt_of ?p"; cases "all_formats (named FMT (riff_chunks (drop ?next buf)))"; simp)
  qed
qed

text \<open>Writing chunks and reading them back.\<close>

definition riff_bytes :: "chunk list \<Rightarrow> byte list" where
  "riff_bytes cs = concat (map (\<lambda>(i, p). i @ to_le 4 (length p) @ p @ (if odd (length p) then [0] else [])) cs)"

lemma riff_chunks_bytes:
  "list_all (\<lambda>(i, p). length i = 4 \<and> length p < 2 ^ 32) cs \<Longrightarrow> riff_chunks (riff_bytes cs) = cs"
proof (induction cs)
  case Nil
  then show ?case
    by (simp add: riff_bytes_def riff_chunks.simps)
next
  case (Cons c cs)
  obtain i p where c: "c = (i, p)" and len: "length i = 4" "length p < 2 ^ 32"
    using Cons.prems by (cases c) auto
  have "from_le (to_le 4 (length p)) = length p"
    using len by (simp add: from_le_to_le)
  with len have "riff_chunks (riff_bytes (c # cs)) = (i, p) # riff_chunks (riff_bytes cs)"
    by (subst riff_chunks.simps) (simp add: riff_bytes_def c Let_def odd_iff_mod_2_eq_one)
  with Cons c show ?case
    by simp
qed

lemma all_formats_total: "all_formats ps \<noteq> Panic"
  by (induction ps) (auto simp: panic_simps fmt_of_def)

lemma wav_spec_total: "wav_spec buf \<noteq> Panic"
  by (simp add: wav_spec_def Let_def panic_simps all_formats_total)

lemma frames_fit: "num_frames f * frame_size f \<le> length (wav_data f)"
  by (simp add: num_frames_def)

section \<open>Property\<close>

text \<open>
  C20. The reader of WAV files gives, for every content of a file, what the reference reading of its
  chunks gives: the errors of the header in the same order, the first invalid format chunk, a
  missing chunk, or the last format with the last data. It ends and never reads out of range, and
  the whole frames it counts fit in the data.
\<close>

theorem wav_reader_equivalent:
  "wav_parse buf = wav_spec buf \<and>
   (case wav_parse buf of Ok f \<Rightarrow> num_frames f * frame_size f \<le> length (wav_data f) | Err _ \<Rightarrow> True | Panic \<Rightarrow> False)"
proof -
  have "wav_parse buf = wav_spec buf"
    by (cases "all_formats (named FMT (riff_chunks (drop 12 buf)))")
      (simp_all add: wav_parse_def wav_spec_def subslice_Ok wav_loop_eq Let_def)
  then show ?thesis
    using wav_spec_total [of buf] by (simp add: frames_fit split: result.split)
qed

end
