(* ===== verification/Spec2Isabelle.thy ===== *)
theory Spec2Isabelle
  imports Pod_Claims Frame_Claims Client_Node_Claims Node_Claims Memory_Registry Client_Marshal
    Client_Properties Id_Map Hook_List Wav_File
begin

text \<open>
  Verification of \<^verbatim>\<open>pipewire-native-rs\<close>, a PipeWire client in Rust. Paths below are relative to
  \<^verbatim>\<open>src/\<close>.

  \<^bold>\<open>The program.\<close> A client talks to a PipeWire server over a Unix socket. Values travel as PODs, a
  binary format of typed, padded values (crate \<^verbatim>\<open>spa\<close>). Messages are frames of a header, a POD
  payload and file descriptors (\<^verbatim>\<open>protocol/src/native\<close>); the messages of the ClientNode interface
  are one set of payloads (\<^verbatim>\<open>protocol/src/wire/client_node\<close>). A node that plays audio is a session
  (\<^verbatim>\<open>node/src/session\<close>): commands decoded from such messages give it memory, event descriptors,
  buffers and peers; on a wake it claims a cycle in an activation record shared with the server,
  lets a callback fill a buffer in shared memory, publishes it and triggers its peers. The client
  library (\<^verbatim>\<open>pipewire\<close>) adds proxies, properties and hooks; \<^verbatim>\<open>examples/wav-player\<close> uses all of it.

  \<^bold>\<open>Conventions.\<close> A Rust call ends with \<open>Ok\<close>, \<open>Err\<close> or a panic; \<open>result\<close> of \<open>Prelude\<close> has a
  constructor for each, and every index, slice, \<open>unwrap\<close>, assertion and checked arithmetic of the
  source is a branch of the model. Integers of the wire and of shared records are words of their
  width, signed ones read with \<open>sint\<close>; \<open>usize\<close> is \<open>nat\<close> below \<open>2 ^ 64\<close> where a bound matters, on a
  little-endian 64-bit target. Floats are their bit patterns, strings their UTF-8 bytes, error
  texts constructors of a datatype. Structs are records, enums datatypes. Operations on a state
  return the state also on errors, so an early return keeps what was done before it.

  \<^bold>\<open>Foundations.\<close>
  \<^item> \<open>Prelude\<close>: words, results, slices, and the collections of simplification rules.
  \<^item> \<open>Utf8\<close>: \<open>String::from_utf8_lossy\<close> of the standard library.
  \<^item> \<open>Rust_Maps\<close>: \<open>HashMap\<close> and \<open>BTreeMap\<close> as association lists; both interpret the locale \<open>keyed\<close>.
  \<^item> \<open>Op_Logic\<close>: operations on a state that may fail, with weakest preconditions, triples and totality.
  \<^item> \<open>Op_Sequences\<close>: the locales \<open>op_invariant\<close> and \<open>op_terminal\<close>, for what holds after any sequence of
    operations and for conditions that are never left. They are interpreted on the frame sender, the
    frame receiver, the memory pool and the session.

  \<^bold>\<open>POD layer\<close> (\<^verbatim>\<open>spa/src/pod\<close>, \<^verbatim>\<open>spa/src/param\<close>, \<^verbatim>\<open>macros/src/derive_enum_u32.rs\<close>).
  \<^item> \<open>Pod_Types\<close>: \<^verbatim>\<open>types.rs\<close> and the \<open>EnumU32\<close> derive, as the locale \<open>enum_u32\<close> over the list of variants.
  \<^item> \<open>Pod_Codec\<close>, \<open>Pod_Primitives\<close>, \<open>Pod_Values\<close>, \<open>Pod_Containers\<close>: the traits \<open>Pod\<close> and \<open>Primitive\<close> as
    records of their methods, every implementation of \<^verbatim>\<open>mod.rs\<close>, and the contracts \<open>primitive_codec\<close> and
    \<open>pod_codec\<close>: what is encoded has the stated image, decoding any bytes does not panic, decoding an
    image gives the value back. Sublocales lift a primitive to pods, arrays and choices.
  \<^item> \<open>Pod_Builder\<close>, \<open>Pod_Parser\<close>: \<^verbatim>\<open>builder.rs\<close> and \<^verbatim>\<open>parser.rs\<close>, a buffer with a position each. \<open>Pod_Messages\<close>:
    a chain of pushes and the chain of pops that reads it back (\<open>codes\<close>).
  \<^item> \<open>Params\<close>: the enumerations of \<^verbatim>\<open>spa/src/param\<close>. \<open>Pod_Robustness\<close>: the fuzz target
    \<^verbatim>\<open>fuzz/fuzz_targets/pod_decode.rs\<close>.
  \<^item> \<open>Pod_Claims\<close>: the fuzz target never panics; round trips; the size field of a very long string wraps.

  \<^bold>\<open>Frames\<close> (\<^verbatim>\<open>protocol/src/native/frame\<close>).
  \<^item> \<open>Frame_Header\<close> (\<^verbatim>\<open>mod.rs\<close>, \<^verbatim>\<open>header.rs\<close>): limits, errors, the header and the descriptors of a frame.
  \<^item> \<open>Frame_Control\<close>: ancillary data, written and parsed. \<open>Frame_Sender\<close> (\<^verbatim>\<open>send.rs\<close>) and
    \<open>Frame_Receiver\<close> (\<^verbatim>\<open>recv.rs\<close>): the queue and its flush, and the reassembly.
  \<^item> \<open>Frame_Transport\<close>: runs of a sender and of a receiver as inductive relations over the pieces that
    cross the socket; the sender writes the concatenation of its frames, the receiver undoes it.
  \<^item> \<open>Frame_Claims\<close>: frames arrive exactly as they were enqueued, for every cut of the stream; limits
    and accounting hold against every kernel; a flush drains the queue when the kernel takes the
    bytes; a failed receiver stays failed.

  The kernel is an argument of each call: a list of results (bytes moved, descriptors, interruption,
  would-block, errors, end of file). Its length bounds the loops, which are total functions.

  \<^bold>\<open>ClientNode messages\<close> (\<^verbatim>\<open>protocol/src/wire/client_node/mod.rs\<close>).
  \<^item> \<open>Client_Node_Wire\<close>: all messages, validators, encoders and decoders. The encoder that doubles its
    buffer tries fifteen sizes, 1024 bytes to 16 MiB, which is its termination measure.
  \<^item> \<open>Client_Node_Codec\<close>, \<open>Client_Node_Safety\<close>, \<open>Client_Node_Claims\<close>: round trips of methods and events,
    decoding of arbitrary bytes never panics and stays within the limits, an event takes all
    descriptors of its frame or none, encoders return except in one characterised case of an update
    with an info block, where they panic.

  \<^bold>\<open>Node session\<close> (\<^verbatim>\<open>node/src/session\<close>, \<^verbatim>\<open>node/src/shm\<close>, \<^verbatim>\<open>node/src/signal\<close>).
  \<^item> \<open>Node_World\<close>: shared memory by backing file and offset, event counters, the answers of the kernel,
    and \<^verbatim>\<open>signal/eventfd.rs\<close>. Other processes are a finite script of arbitrary functions on that state;
    one entry runs before each access, so every theorem over all scripts is one over all
    interleavings of accesses. Constants of the C library are fields of a record.
  \<^item> \<open>Node_Memory\<close> (\<^verbatim>\<open>shm/memfd.rs\<close>, \<^verbatim>\<open>session/memory\<close>): mapping with its checks of bounds, seals and pages; the
    pool with its generations and leases, behind the locale \<open>memory_resolver\<close> that the session uses.
    \<open>Memory_Registry\<close>: \<^verbatim>\<open>shm/registry.rs\<close>.
  \<^item> \<open>Node_Activation\<close> (\<^verbatim>\<open>activation.rs\<close>, \<^verbatim>\<open>abi/\<close>): the shared record, its transitions and the cycle claim.
    The compare-and-swap loop ends because a script is finite: a retry needs an entry of it.
  \<^item> \<open>Node_Error\<close>, \<open>Node_Config\<close> (\<^verbatim>\<open>error.rs\<close>, \<^verbatim>\<open>config.rs\<close>): conversion of wire events, the Format parser included.
  \<^item> \<open>Node_Port\<close> (\<^verbatim>\<open>port/\<close>, \<^verbatim>\<open>cycle.rs\<close>): buffers, chunks and port IO, and one cycle on them.
  \<^item> \<open>Node_Generations\<close> (\<^verbatim>\<open>transport.rs\<close>, \<^verbatim>\<open>peer.rs\<close>, \<^verbatim>\<open>output.rs\<close>) and \<open>Node_Session\<close> (\<^verbatim>\<open>owner.rs\<close>): what a session
    binds, and every command and wake on the record \<open>session\<close>, in the state of a session and a world.
    The audio callback is a parameter that may return anything, write its buffer or panic.
  \<^item> \<open>Node_Session_Inv\<close>, \<open>Node_Session_Ops\<close>, \<open>Node_Session_Runs\<close>: the invariant \<open>session_inv\<close>, its triples for
    every operation on every early return, frames of the operations, and sequences of them.
  \<^item> \<open>Node_Cycle\<close>, \<open>Node_Confined\<close>: the cycle that nothing disturbs, and writes that stay in their regions.
  \<^item> \<open>Node_Demo\<close>: a concrete session brought to the running state, for the witnesses.
  \<^item> \<open>Node_Claims\<close>: no reachable session panics or has overlapping regions; removing memory releases all
    that was mapped from it; wakes of replaced transports are ignored; disconnecting is final; what
    a cycle publishes; the callback runs in claimed cycles only; a failed session can be restarted;
    leases map within their bounds; keys are not reused; decrements are exact under concurrency.

  \<^bold>\<open>Client library and example.\<close>
  \<^item> \<open>Id_Map\<close> (\<^verbatim>\<open>pipewire/src/id_map.rs\<close>): the vector of proxies refines a table (locale \<open>id_table\<close>) while
    fewer than \<open>2 ^ 32\<close> slots are in use.
  \<^item> \<open>Hook_List\<close> (\<^verbatim>\<open>spa/src/hook.rs\<close>): emission while callbacks change the list; identifiers wrap at 32 bits.
  \<^item> \<open>Client_Properties\<close> (\<^verbatim>\<open>pipewire/src/properties.rs\<close>, \<^verbatim>\<open>spa/src/dict.rs\<close>, \<open>atob\<close> of \<^verbatim>\<open>spa/src/lib.rs\<close>): the
    tinyjson crate is a parameter. An empty \<open>Dict\<close> makes a slice of a null pointer, undefined behaviour
    that a debug build reports; the model has a panic there.
  \<^item> \<open>Client_Marshal\<close> (\<open>PairList\<close> of \<^verbatim>\<open>pipewire/src/protocol/marshal/mod.rs\<close>): lists of pairs; a negative count
    from the wire panics. A pair of strings takes 48 bytes.
  \<^item> \<open>Wav_File\<close> (\<^verbatim>\<open>examples/wav-player/src/wav.rs\<close>): the reader by offsets equals one over chunks.

  \<^bold>\<open>Termination and bounds.\<close> No definition uses fuel. Loops that are not structural have a measure:
  the bytes left of the input, the buffer sizes left, the kernel results left or the script left.

  \<^bold>\<open>Idealised.\<close> Memory is sequentially consistent, with whole-word volatile accesses; weaker orderings of
  the atomics are not modelled. A callback writes its buffer in one step. A descriptor is its number
  and ownership the list that holds it; unmapping has no effect on the modelled state. Mutex sections
  are single steps and poisoning is ignored, as in the code. An allocator that fails is not modelled.

  \<^bold>\<open>Not modelled.\<close>
  \<^item> Text for people: \<^verbatim>\<open>spa/src/pod/format.rs\<close>, \<open>Debug\<close> and \<open>Display\<close> throughout, \<open>key_to_string\<close>.
  \<^item> Creation of resources that are then only handed on: \<open>create_memfd\<close>, \<open>EventFd::new\<close>; raw slices and
    typed views of a mapping (\<open>MemoryRegionGuard\<close>, \<open>s16_samples\<close>); sets generated by the bitflags crate
    (\<^verbatim>\<open>spa/src/flags.rs\<close>; where a codec needs \<open>from_bits\<close> it is a parameter).
  \<^item> The marshalling derives of \<^verbatim>\<open>macros/\<close> (token streams) and the messages built with them in
    \<^verbatim>\<open>pipewire/src/protocol/marshal\<close>, which are chains of the modelled pushes and pops.
  \<^item> Sockets, threads and event loops: \<^verbatim>\<open>node/src/control\<close>, \<^verbatim>\<open>node/src/runtime\<close>, \<^verbatim>\<open>pipewire/src/protocol\<close>
    (client and connection), \<^verbatim>\<open>main_loop.rs\<close>, \<^verbatim>\<open>thread_loop.rs\<close>; contexts, proxies and the client side of
    a node, which wire reference-counted objects together with closures.
  \<^item> The plug-in interface: \<^verbatim>\<open>spa/src/interface\<close>, \<^verbatim>\<open>spa/src/support\<close>, calls through C function pointers.
  \<^item> Test server, stress and benchmark programs, the browser and the command line of the player.
\<close>

end
